theory Spec2Isabelle
  imports Complex_Main "HOL-Library.Multiset"
begin

section \<open>The embedding-model speed testers\<close>

text \<open>
  The repository holds two implementations of the same benchmark engine:
  \<^item> \<^verbatim>\<open>Variant_base/test_ollama_speed_pro.py\<close>: synchronous, on \<^verbatim>\<open>requests\<close> and
    \<^verbatim>\<open>tenacity\<close>; its definitions carry the suffix \<open>_base\<close> where a name is shared;
  \<^item> \<^verbatim>\<open>Variant_reserv/test_ollama_embeddings.py\<close>: asynchronous, on \<^verbatim>\<open>httpx\<close>; its
    definitions carry the suffix \<open>_reserv\<close> where a name is shared.

  Python floats are modelled as real numbers, Python ints as \<open>int\<close>. Everything outside
  the process (the Target Service, the clock, Docker) is a \<open>world\<close> value that every
  effectful function takes and returns. An exception is a value \<open>Inl e\<close>.
\<close>

subsection \<open>Exceptions\<close>

text \<open>
  One constructor per exception class that the two files raise, catch or can meet.
  \<open>RequestException\<close> stands for \<^verbatim>\<open>requests.RequestException\<close> and its subclasses
  (connection errors, timeouts, the \<^verbatim>\<open>HTTPError\<close> of \<^verbatim>\<open>raise_for_status\<close>, the JSON
  decoding error of \<^verbatim>\<open>Response.json\<close>); \<open>HttpxTimeoutException\<close> is a subclass of
  \<open>HttpxHTTPError\<close>. No class below \<^verbatim>\<open>BaseException\<close> other than \<^verbatim>\<open>Exception\<close> is modelled.
\<close>

datatype exc_class =
    RequestException
  | TimeoutError
  | HttpxTimeoutException
  | HttpxHTTPError
  | JSONDecodeError
  | RetryError
  | OllamaConnectionError
  | RuntimeError
  | TypeError
  | AttributeError
  | ZeroDivisionError
  | IndexError
  | ValueError
  | ValidationError
  | StatisticsError
  | OtherException

datatype exn = Exn (exc_class: exc_class) (str: string)

subsection \<open>Strings of integers\<close>

fun digits :: "nat \<Rightarrow> string" where
  "digits n = (if n < 10 then [char_of (48 + n)]
               else digits (n div 10) @ [char_of (48 + n mod 10)])"

definition str_int :: "int \<Rightarrow> string" where
  "str_int i = (if i < 0 then CHR ''-'' # digits (nat (- i)) else digits (nat i))"

subsection \<open>JSON values and the Python operations applied to them\<close>

text \<open>
  What \<^verbatim>\<open>response.json()\<close> returns. \<open>JNull\<close> is Python's \<^verbatim>\<open>None\<close>; a JSON number is an
  \<^verbatim>\<open>int\<close> or a \<^verbatim>\<open>float\<close>; a \<open>JObj\<close> lists the items of a dict, keys distinct.
\<close>

datatype json =
    JNull
  | JBool bool
  | JInt int
  | JFloat real
  | JStr string
  | JArr "json list"
  | JObj "(string \<times> json) list"

fun truthy :: "json \<Rightarrow> bool" where
  "truthy JNull = False"
| "truthy (JBool b) = b"
| "truthy (JInt i) = (i \<noteq> 0)"
| "truthy (JFloat x) = (x \<noteq> 0)"
| "truthy (JStr s) = (s \<noteq> [])"
| "truthy (JArr xs) = (xs \<noteq> [])"
| "truthy (JObj kvs) = (kvs \<noteq> [])"

text \<open>The name of the Python type of a value, as error messages print it.\<close>

fun type_name :: "json \<Rightarrow> string" where
  "type_name JNull = ''NoneType''"
| "type_name (JBool b) = ''bool''"
| "type_name (JInt i) = ''int''"
| "type_name (JFloat x) = ''float''"
| "type_name (JStr s) = ''str''"
| "type_name (JArr xs) = ''list''"
| "type_name (JObj kvs) = ''dict''"

definition quoted :: "string \<Rightarrow> string" where
  "quoted s = [CHR 0x27] @ s @ [CHR 0x27]"

fun py_len :: "json \<Rightarrow> exn + nat" where
  "py_len (JStr s) = Inr (length s)"
| "py_len (JArr xs) = Inr (length xs)"
| "py_len (JObj kvs) = Inr (length kvs)"
| "py_len j = Inl (Exn TypeError (''object of type '' @ quoted (type_name j) @ '' has no len()''))"

fun dict_get :: "json \<Rightarrow> string \<Rightarrow> json \<Rightarrow> exn + json" where
  "dict_get (JObj kvs) k d = Inr (case map_of kvs k of None \<Rightarrow> d | Some v \<Rightarrow> v)"
| "dict_get j k d =
     Inl (Exn AttributeError (quoted (type_name j) @ '' object has no attribute '' @ quoted ''get''))"

subsection \<open>The world: Target Service, clock and trace\<close>

record request =
  http_method :: string
  url :: string
  payload :: "(string \<times> string) list"

record response =
  status_code :: int
  body_text :: string
  body_json :: "json option"

datatype outcome = Answered response | Raised exn

datatype event = Sent request | Slept real

text \<open>
  \<open>service w k rq\<close> is what the \<open>k\<close>-th HTTP attempt of the run meets when it sends \<open>rq\<close>:
  how long the attempt takes and how it ends. \<open>now\<close> is the reading of
  \<^verbatim>\<open>time.perf_counter()\<close>; only HTTP attempts and sleeps advance it, an attempt by its
  latency and a sleep by exactly its argument. \<open>trace\<close> records the requests sent and the
  sleeps taken, in order. \<open>future_repr w e\<close> is Python's \<^verbatim>\<open>repr\<close> of the finished
  \<^verbatim>\<open>Future\<close> in which \<^verbatim>\<open>tenacity\<close> keeps the exception \<open>e\<close> of an attempt: it prints the
  address of the object and the name of the class of \<open>e\<close>.
\<close>

record world =
  now :: real
  served :: nat
  service :: "nat \<Rightarrow> request \<Rightarrow> real \<times> outcome"
  trace :: "event list"
  future_repr :: "exn \<Rightarrow> string"
  docker_installed :: bool
  container_running :: bool
  available_models :: "string list"

definition send :: "request \<Rightarrow> world \<Rightarrow> outcome \<times> world" where
  "send rq w =
     (case service w (served w) rq of
        (d, out) \<Rightarrow>
          (out, w\<lparr>now := now w + d, served := Suc (served w), trace := trace w @ [Sent rq]\<rparr>))"

text \<open>\<^verbatim>\<open>time.sleep\<close> raises \<^verbatim>\<open>ValueError\<close> on a negative argument.\<close>

definition time_sleep :: "real \<Rightarrow> world \<Rightarrow> exn + world" where
  "time_sleep d w =
     (if d < 0 then Inl (Exn ValueError ''sleep length must be non-negative'')
      else Inr (w\<lparr>now := now w + d, trace := trace w @ [Slept d]\<rparr>))"

text \<open>\<^verbatim>\<open>asyncio.sleep\<close> returns at once on a delay that is not positive.\<close>

definition asyncio_sleep :: "real \<Rightarrow> world \<Rightarrow> world" where
  "asyncio_sleep d w = w\<lparr>now := now w + max d 0, trace := trace w @ [Slept d]\<rparr>"

definition rstrip_slash :: "string \<Rightarrow> string" where
  "rstrip_slash s = rev (dropWhile (\<lambda>c. c = CHR ''/'') (rev s))"

definition response_json :: "exc_class \<Rightarrow> response \<Rightarrow> exn + json" where
  "response_json cls r =
     (case body_json r of
        None \<Rightarrow> Inl (Exn cls ''Expecting value'')
      | Some j \<Rightarrow> Inr j)"

subsection \<open>The \<^verbatim>\<open>statistics\<close> module and \<^verbatim>\<open>min\<close>, \<^verbatim>\<open>max\<close>\<close>

text \<open>Each of them raises on a list that is too short; the model keeps that branch.\<close>

definition mean :: "real list \<Rightarrow> exn + real" where
  "mean xs =
     (if xs = [] then Inl (Exn StatisticsError ''mean requires at least one data point'')
      else Inr (sum_list xs / real (length xs)))"

definition stdev :: "real list \<Rightarrow> exn + real" where
  "stdev xs =
     (if length xs < 2 then Inl (Exn StatisticsError ''stdev requires at least two data points'')
      else (let m = sum_list xs / real (length xs)
            in Inr (sqrt (sum_list (map (\<lambda>x. (x - m)\<^sup>2) xs) / real (length xs - 1)))))"

definition median :: "real list \<Rightarrow> exn + real" where
  "median xs =
     (if xs = [] then Inl (Exn StatisticsError ''no median for empty data'')
      else (let s = sort xs; n = length xs
            in if odd n then Inr (s ! (n div 2))
               else Inr ((s ! (n div 2 - 1) + s ! (n div 2)) / 2)))"

fun py_min :: "real list \<Rightarrow> exn + real" where
  "py_min [] = Inl (Exn ValueError ''min() arg is an empty sequence'')"
| "py_min (x # xs) = Inr (fold min xs x)"

fun py_max :: "real list \<Rightarrow> exn + real" where
  "py_max [] = Inl (Exn ValueError ''max() arg is an empty sequence'')"
| "py_max (x # xs) = Inr (fold max xs x)"

text \<open>\<^verbatim>\<open>int(x)\<close> on a float truncates towards zero.\<close>

definition py_int :: "real \<Rightarrow> int" where
  "py_int x = (if x \<ge> 0 then \<lfloor>x\<rfloor> else \<lceil>x\<rceil>)"

text \<open>
  The keys of the speed ranking are floats or \<^verbatim>\<open>float("inf")\<close>: the reals with a greatest
  element added.
\<close>

datatype pyfloat = Fin real | PosInf

instantiation pyfloat :: linorder
begin

fun less_eq_pyfloat :: "pyfloat \<Rightarrow> pyfloat \<Rightarrow> bool" where
  "less_eq_pyfloat (Fin a) (Fin b) = (a \<le> b)"
| "less_eq_pyfloat PosInf (Fin b) = False"
| "less_eq_pyfloat a PosInf = True"

definition less_pyfloat :: "pyfloat \<Rightarrow> pyfloat \<Rightarrow> bool" where
  "less_pyfloat a b = (a \<le> b \<and> \<not> b \<le> a)"

instance
proof
  fix x y z :: pyfloat
  show "(x < y) = (x \<le> y \<and> \<not> y \<le> x)"
    by (simp add: less_pyfloat_def)
  show "x \<le> x"
    by (cases x) simp_all
  show "x \<le> y \<Longrightarrow> y \<le> z \<Longrightarrow> x \<le> z"
    by (cases x; cases y; cases z) simp_all
  show "x \<le> y \<Longrightarrow> y \<le> x \<Longrightarrow> x = y"
    by (cases x; cases y) simp_all
  show "x \<le> y \<or> y \<le> x"
    by (cases x; cases y) auto
qed

end

text \<open>
  \<^verbatim>\<open>sorted(xs, key=f)\<close> is a stable sort: \<open>sort_key f xs\<close>. With \<^verbatim>\<open>reverse=True\<close> the
  order of the keys is reversed and elements with equal keys keep their original order.
\<close>

definition sorted_reverse :: "('a \<Rightarrow> 'k::linorder) \<Rightarrow> 'a list \<Rightarrow> 'a list" where
  "sorted_reverse f xs = rev (sort_key f (rev xs))"

text \<open>\<^verbatim>\<open>a or b\<close> on an optional list: \<^verbatim>\<open>None\<close> and the empty list are both falsy.\<close>

definition or_list :: "'a list option \<Rightarrow> 'a list \<Rightarrow> 'a list" where
  "or_list a b = (case a of Some (x # xs) \<Rightarrow> x # xs | _ \<Rightarrow> b)"

section \<open>Variant\_base: the synchronous tester\<close>

subsection \<open>Data classes\<close>

record TestConfig_base =
  ollama_url_base :: string
  timeout_base :: int
  max_retries_base :: int
  retry_delay :: int
  tests_per_model_base :: int
  interval_between_tests_base :: int
  models_base :: "string list option"
  output_dir_base :: string

record EmbeddingResult =
  success_base :: bool
  duration_base :: real
  text_length_base :: "int option"
  embedding_dim_base :: "int option"
  tokens_per_second_base :: "real option"
  error :: "string option"
  model :: "string option"
  text_base :: "string option"

datatype status_base = SUCCESS_base | FAILED_base | ERROR_base

record ModelTestResult_base =
  mr_model :: string
  status_base :: status_base
  total_tests_base :: int
  successful_tests_base :: int
  avg_duration_base :: "real option"
  min_duration_base :: "real option"
  max_duration_base :: "real option"
  std_duration_base :: "real option"
  avg_embedding_dim_base :: "real option"
  avg_tokens_per_second_base :: "real option"
  model_info :: "json option"
  mr_error :: "string option"
  individual_results :: "EmbeddingResult list"

subsection \<open>OllamaClient\<close>

record OllamaClient_base =
  base_url_base :: string
  client_timeout_base :: int
  client_max_retries :: int

definition OllamaClient_init_base :: "string \<Rightarrow> int \<Rightarrow> int \<Rightarrow> OllamaClient_base" where
  "OllamaClient_init_base u t r =
     \<lparr>base_url_base = rstrip_slash u, client_timeout_base = t, client_max_retries = r\<rparr>"

text \<open>
  The inner \<^verbatim>\<open>_do_request\<close>: one attempt, then \<^verbatim>\<open>raise_for_status\<close>, which raises
  \<^verbatim>\<open>requests.HTTPError\<close> on a status from 400 to 599. The text of that error (which also
  names the reason phrase of the answer) is given in short: it reaches no result, since
  the error is always retried and ends in a \<^verbatim>\<open>RetryError\<close>.
\<close>

definition do_request :: "request \<Rightarrow> world \<Rightarrow> (exn + response) \<times> world" where
  "do_request rq w =
     (case send rq w of
        (Raised e, w') \<Rightarrow> (Inl e, w')
      | (Answered r, w') \<Rightarrow>
          if 400 \<le> status_code r \<and> status_code r < 600
          then (Inl (Exn RequestException (str_int (status_code r) @ '' Error for url: '' @ url rq)), w')
          else (Inr r, w'))"

text \<open>
  The \<^verbatim>\<open>tenacity\<close> decorator. \<^verbatim>\<open>retry_if_exception_type\<close>: only these classes are retried,
  any other exception leaves at once. \<^verbatim>\<open>stop_after_attempt(n)\<close> stops once the attempt
  number reaches \<open>n\<close>, so one attempt is always made; stopping raises \<^verbatim>\<open>RetryError\<close>
  (the decorator is used without \<^verbatim>\<open>reraise\<close>), whose \<^verbatim>\<open>str\<close> is \<^verbatim>\<open>RetryError[\<close>, the
  \<^verbatim>\<open>repr\<close> of the last attempt's \<^verbatim>\<open>Future\<close>, \<^verbatim>\<open>]\<close>. \<^verbatim>\<open>wait_exponential(multiplier=1, min=2,
  max=10)\<close> waits \<open>2 ^ (attempt - 1)\<close> seconds, kept between 2 and 10.
\<close>

definition retry_if_exception_type :: "exn \<Rightarrow> bool" where
  "retry_if_exception_type e = (exc_class e = RequestException \<or> exc_class e = TimeoutError)"

definition wait_exponential :: "nat \<Rightarrow> real" where
  "wait_exponential attempt_number = max 2 (min (2 ^ (attempt_number - 1)) 10)"

text \<open>
  \<open>retrying left attempt_number\<close>: the attempt numbered \<open>attempt_number\<close>, with \<open>left\<close>
  more attempts allowed after it.
\<close>

fun retrying :: "nat \<Rightarrow> nat \<Rightarrow> request \<Rightarrow> world \<Rightarrow> (exn + response) \<times> world" where
  "retrying left attempt_number rq w =
     (case do_request rq w of
        (Inr r, w') \<Rightarrow> (Inr r, w')
      | (Inl e, w') \<Rightarrow>
          if \<not> retry_if_exception_type e then (Inl e, w')
          else (case left of
                  0 \<Rightarrow> (Inl (Exn RetryError (''RetryError['' @ future_repr w' e @ '']'')), w')
                | Suc l \<Rightarrow>
                    (case time_sleep (wait_exponential attempt_number) w' of
                       Inl e' \<Rightarrow> (Inl e', w')
                     | Inr w'' \<Rightarrow> retrying l (Suc attempt_number) rq w'')))"

definition make_request ::
  "OllamaClient_base \<Rightarrow> string \<Rightarrow> string \<Rightarrow> (string \<times> string) list \<Rightarrow> world
   \<Rightarrow> (exn + response) \<times> world" where
  "make_request c meth endpoint js w =
     (let rq = \<lparr>http_method = meth, url = base_url_base c @ endpoint, payload = js\<rparr>
      in case retrying (nat (client_max_retries c - 1)) 1 rq w of
           (Inl e, w') \<Rightarrow>
             if exc_class e = RetryError
             then (Inl (Exn OllamaConnectionError (''Failed to connect to Ollama: '' @ str e)), w')
             else (Inl e, w')
         | (Inr r, w') \<Rightarrow> (Inr r, w'))"

definition health_check_base :: "OllamaClient_base \<Rightarrow> world \<Rightarrow> (exn + bool) \<times> world" where
  "health_check_base c w =
     (case make_request c ''GET'' ''/api/tags'' [] w of
        (Inr r, w') \<Rightarrow> (Inr (status_code r = 200), w')
      | (Inl e, w') \<Rightarrow>
          if exc_class e = RequestException then (Inr False, w') else (Inl e, w'))"

definition get_model_info :: "OllamaClient_base \<Rightarrow> string \<Rightarrow> world \<Rightarrow> (exn + json) \<times> world" where
  "get_model_info c model_name w =
     (case make_request c ''POST'' ''/api/show'' [(''name'', model_name)] w of
        (Inr r, w') \<Rightarrow> (response_json RequestException r, w')
      | (Inl e, w') \<Rightarrow> (Inl e, w'))"

definition get_embedding_base ::
  "OllamaClient_base \<Rightarrow> string \<Rightarrow> string \<Rightarrow> world \<Rightarrow> (exn + json) \<times> world" where
  "get_embedding_base c m prompt w =
     (case make_request c ''POST'' ''/api/embeddings'' [(''model'', m), (''prompt'', prompt)] w of
        (Inr r, w') \<Rightarrow> (response_json RequestException r, w')
      | (Inl e, w') \<Rightarrow> (Inl e, w'))"

subsection \<open>EmbeddingTester\<close>

record EmbeddingTester_base =
  config_base :: TestConfig_base
  client_base :: OllamaClient_base
  test_texts_base :: "string list"

definition EmbeddingTester_init_base :: "TestConfig_base \<Rightarrow> string list \<Rightarrow> EmbeddingTester_base" where
  "EmbeddingTester_init_base cfg texts =
     \<lparr>config_base = cfg,
      client_base = OllamaClient_init_base (ollama_url_base cfg) (timeout_base cfg) (max_retries_base cfg),
      test_texts_base = texts\<rparr>"

definition shorten :: "string \<Rightarrow> string" where
  "shorten t = (if length t > 50 then take 50 t @ ''...'' else t)"

definition test_single_embedding_base ::
  "EmbeddingTester_base \<Rightarrow> string \<Rightarrow> string \<Rightarrow> world \<Rightarrow> (exn + EmbeddingResult) \<times> world" where
  "test_single_embedding_base t m txt w =
     (let start_time = now w in
      case (case get_embedding_base (client_base t) m txt w of
              (Inl e, w') \<Rightarrow> (Inl e, w')
            | (Inr resp, w') \<Rightarrow>
                (let duration = now w' - start_time in
                 case dict_get resp ''embedding'' (JArr []) of
                   Inl e \<Rightarrow> (Inl e, w')
                 | Inr embedding \<Rightarrow>
                     (case (if truthy embedding then py_len embedding else Inr 0) of
                        Inl e \<Rightarrow> (Inl e, w')
                      | Inr embedding_dim \<Rightarrow>
                          (Inr \<lparr>success_base = True,
                                duration_base = duration,
                                text_length_base = Some (int (length txt)),
                                embedding_dim_base = Some (int embedding_dim),
                                tokens_per_second_base =
                                  Some (if embedding_dim > 0 \<and> duration > 0
                                        then real embedding_dim / duration else 0),
                                error = None,
                                model = Some m,
                                text_base = Some (shorten txt)\<rparr>, w')))) of
        (Inr r, w') \<Rightarrow> (Inr r, w')
      | (Inl e, w') \<Rightarrow>
          if exc_class e = RequestException then
            (Inr \<lparr>success_base = False, duration_base = now w' - start_time,
                  text_length_base = None, embedding_dim_base = None,
                  tokens_per_second_base = None, error = Some (str e),
                  model = Some m, text_base = Some (shorten txt)\<rparr>, w')
          else if exc_class e = TimeoutError then
            (Inr \<lparr>success_base = False, duration_base = now w' - start_time,
                  text_length_base = None, embedding_dim_base = None,
                  tokens_per_second_base = None,
                  error = Some (''Timeout after '' @ str_int (timeout_base (config_base t)) @ ''s''),
                  model = Some m, text_base = Some (shorten txt)\<rparr>, w')
          else (Inl e, w'))"

record stats =
  stat_mean :: real
  stat_min :: real
  stat_max :: real
  stat_std :: real

definition calculate_stats :: "real list \<Rightarrow> exn + stats" where
  "calculate_stats vals =
     (if vals = [] then Inr \<lparr>stat_mean = 0, stat_min = 0, stat_max = 0, stat_std = 0\<rparr>
      else
        (case mean vals of Inl e \<Rightarrow> Inl e | Inr mean_val \<Rightarrow>
        (case py_min vals of Inl e \<Rightarrow> Inl e | Inr mn \<Rightarrow>
        (case py_max vals of Inl e \<Rightarrow> Inl e | Inr mx \<Rightarrow>
        (case (if length vals > 1 then stdev vals else Inr 0) of Inl e \<Rightarrow> Inl e | Inr sd \<Rightarrow>
           Inr \<lparr>stat_mean = mean_val, stat_min = mn, stat_max = mx, stat_std = sd\<rparr>)))))"

text \<open>
  The sample loop of \<^verbatim>\<open>test_model\<close>, \<^verbatim>\<open>for i in range(num_tests)\<close>, over the list of the
  indices still to run. An exception leaves the loop and the function.
\<close>

fun sample_loop_base ::
  "EmbeddingTester_base \<Rightarrow> string \<Rightarrow> int \<Rightarrow> nat list \<Rightarrow> EmbeddingResult list \<Rightarrow> world
   \<Rightarrow> (exn + EmbeddingResult list) \<times> world" where
  "sample_loop_base t m num_tests [] results w = (Inr results, w)"
| "sample_loop_base t m num_tests (i # is) results w =
     (if test_texts_base t = [] then (Inl (Exn ZeroDivisionError ''integer modulo by zero''), w)
      else
        (case test_single_embedding_base t m
                (test_texts_base t ! (i mod length (test_texts_base t))) w of
           (Inl e, w1) \<Rightarrow> (Inl e, w1)
         | (Inr r, w1) \<Rightarrow>
             if int i < num_tests - 1 then
               (case time_sleep (real_of_int (interval_between_tests_base (config_base t))) w1 of
                  Inl e \<Rightarrow> (Inl e, w1)
                | Inr w2 \<Rightarrow> sample_loop_base t m num_tests is (results @ [r]) w2)
             else sample_loop_base t m num_tests is (results @ [r]) w1))"

text \<open>
  The rest of \<^verbatim>\<open>test_model\<close> (lines 400 to 443), from the list of results on. The
  \<^verbatim>\<open>ModelTestResult\<close> constructor validates \<^verbatim>\<open>model_info\<close> as a dict or \<^verbatim>\<open>None\<close>.
\<close>

definition analyse_base ::
  "EmbeddingTester_base \<Rightarrow> string \<Rightarrow> int \<Rightarrow> EmbeddingResult list \<Rightarrow> world
   \<Rightarrow> (exn + ModelTestResult_base) \<times> world" where
  "analyse_base t m num_tests results w =
     (let successful_results = filter success_base results in
      if successful_results = [] then
        (Inr \<lparr>mr_model = m, status_base = FAILED_base, total_tests_base = num_tests,
              successful_tests_base = 0,
              avg_duration_base = None, min_duration_base = None, max_duration_base = None,
              std_duration_base = None, avg_embedding_dim_base = None,
              avg_tokens_per_second_base = None, model_info = None,
              mr_error = Some ''All tests failed'', individual_results = results\<rparr>, w)
      else
        (let durations = map duration_base successful_results;
             embedding_dims =
               concat (map (\<lambda>r. case embedding_dim_base r of
                                   Some d \<Rightarrow> if d \<noteq> 0 then [real_of_int d] else []
                                 | None \<Rightarrow> []) successful_results);
             tokens_per_sec =
               concat (map (\<lambda>r. case tokens_per_second_base r of
                                   Some x \<Rightarrow> if x \<noteq> 0 then [x] else []
                                 | None \<Rightarrow> []) successful_results)
         in
         case calculate_stats durations of Inl e \<Rightarrow> (Inl e, w) | Inr duration_stats \<Rightarrow>
         (case (if embedding_dims \<noteq> [] then map_sum id Some (calculate_stats embedding_dims)
                else Inr None) of Inl e \<Rightarrow> (Inl e, w) | Inr dim_stats \<Rightarrow>
         (case (if tokens_per_sec \<noteq> [] then map_sum id Some (calculate_stats tokens_per_sec)
                else Inr None) of Inl e \<Rightarrow> (Inl e, w) | Inr tps_stats \<Rightarrow>
         (case (case get_model_info (client_base t) m w of
                 (Inr j, w') \<Rightarrow> (Inr j, w')
               | (Inl e, w') \<Rightarrow>
                   if exc_class e = RequestException then (Inr (JObj []), w') else (Inl e, w')) of
           (Inl e, w') \<Rightarrow> (Inl e, w')
         | (Inr info, w') \<Rightarrow>
             (case info of
                JObj kvs \<Rightarrow>
                  (Inr \<lparr>mr_model = m, status_base = SUCCESS_base, total_tests_base = num_tests,
                        successful_tests_base = int (length successful_results),
                        avg_duration_base = Some (stat_mean duration_stats),
                        min_duration_base = Some (stat_min duration_stats),
                        max_duration_base = Some (stat_max duration_stats),
                        std_duration_base = Some (stat_std duration_stats),
                        avg_embedding_dim_base = map_option stat_mean dim_stats,
                        avg_tokens_per_second_base = map_option stat_mean tps_stats,
                        model_info = Some info,
                        mr_error = None, individual_results = results\<rparr>, w')
              | JNull \<Rightarrow>
                  (Inr \<lparr>mr_model = m, status_base = SUCCESS_base, total_tests_base = num_tests,
                        successful_tests_base = int (length successful_results),
                        avg_duration_base = Some (stat_mean duration_stats),
                        min_duration_base = Some (stat_min duration_stats),
                        max_duration_base = Some (stat_max duration_stats),
                        std_duration_base = Some (stat_std duration_stats),
                        avg_embedding_dim_base = map_option stat_mean dim_stats,
                        avg_tokens_per_second_base = map_option stat_mean tps_stats,
                        model_info = None,
                        mr_error = None, individual_results = results\<rparr>, w')
              | _ \<Rightarrow> (Inl (Exn ValidationError ''model_info: Input should be a valid dictionary''), w')))))))"

definition test_model_base ::
  "EmbeddingTester_base \<Rightarrow> string \<Rightarrow> int option \<Rightarrow> world
   \<Rightarrow> (exn + ModelTestResult_base) \<times> world" where
  "test_model_base t m num_tests_arg w =
     (let num_tests = (case num_tests_arg of
                         Some k \<Rightarrow> if k \<noteq> 0 then k else tests_per_model_base (config_base t)
                       | None \<Rightarrow> tests_per_model_base (config_base t))
      in case sample_loop_base t m num_tests [0..<nat num_tests] [] w of
           (Inl e, w') \<Rightarrow> (Inl e, w')
         | (Inr results, w') \<Rightarrow> analyse_base t m num_tests results w')"

subsection \<open>The summary and the run\<close>

record ranking_entry_base =
  rank_base :: nat
  entry_model_base :: string
  entry_avg_duration_base :: "real option"
  entry_embedding_dim_base :: "real option"
  entry_tokens_per_second :: "real option"

record TestSummary =
  total_models :: int
  successful_models :: int
  failed_models :: int
  ranking_by_speed :: "ranking_entry_base list"
  ranking_by_quality :: "ranking_entry_base list"

record TestReport_base =
  report_ollama_url :: string
  report_config_base :: TestConfig_base
  results_base :: "ModelTestResult_base list"
  summary_base :: TestSummary

text \<open>The key \<^verbatim>\<open>x.avg_duration or float("inf")\<close>: \<^verbatim>\<open>None\<close> and \<^verbatim>\<open>0.0\<close> are both falsy.\<close>

definition speed_key_base :: "ModelTestResult_base \<Rightarrow> pyfloat" where
  "speed_key_base x =
     (case avg_duration_base x of
        Some d \<Rightarrow> if d \<noteq> 0 then Fin d else PosInf
      | None \<Rightarrow> PosInf)"

definition quality_key_base :: "ModelTestResult_base \<Rightarrow> real" where
  "quality_key_base x =
     (case avg_embedding_dim_base x of
        Some d \<Rightarrow> if d \<noteq> 0 then d else 0
      | None \<Rightarrow> 0)"

definition ranking_entry_of_base :: "nat \<times> ModelTestResult_base \<Rightarrow> ranking_entry_base" where
  "ranking_entry_of_base p =
     (case p of (i, r) \<Rightarrow>
        \<lparr>rank_base = i, entry_model_base = mr_model r,
         entry_avg_duration_base = avg_duration_base r,
         entry_embedding_dim_base = avg_embedding_dim_base r,
         entry_tokens_per_second = avg_tokens_per_second_base r\<rparr>)"

definition create_summary_base :: "ModelTestResult_base list \<Rightarrow> TestSummary" where
  "create_summary_base results =
     (let successful = filter (\<lambda>r. status_base r = SUCCESS_base) results
      in \<lparr>total_models = int (length results),
          successful_models = int (length successful),
          failed_models = int (length results) - int (length successful),
          ranking_by_speed =
            map ranking_entry_of_base (enumerate 1 (sort_key speed_key_base successful)),
          ranking_by_quality =
            map ranking_entry_of_base (enumerate 1 (sorted_reverse quality_key_base successful))\<rparr>)"

definition ALL_MODELS :: "string list" where
  "ALL_MODELS =
     [''embeddinggemma:300m-qat-q8_0'', ''qwen3-embedding:0.6b-fp16'',
      ''qwen3-embedding:0.6b-q8_0'', ''embeddinggemma:300m-qat-q4_0'',
      ''all-minilm:22m-l6-v2-fp16'', ''bge-m3:567m-fp16'', ''embeddinggemma:300m-bf16'',
      ''nomic-embed-text:137m-v1.5-fp16'', ''qllama/multilingual-e5-small:f16'',
      ''all-minilm:l6-v2'']"

definition errored_base :: "EmbeddingTester_base \<Rightarrow> string \<Rightarrow> exn \<Rightarrow> ModelTestResult_base" where
  "errored_base t m e =
     \<lparr>mr_model = m, status_base = ERROR_base,
      total_tests_base = tests_per_model_base (config_base t), successful_tests_base = 0,
      avg_duration_base = None, min_duration_base = None, max_duration_base = None,
      std_duration_base = None, avg_embedding_dim_base = None,
      avg_tokens_per_second_base = None, model_info = None,
      mr_error = Some (str e), individual_results = []\<rparr>"

text \<open>The loop \<^verbatim>\<open>for model in models\<close> of \<^verbatim>\<open>run_tests\<close>, with its \<^verbatim>\<open>except Exception\<close>.\<close>

fun model_loop_base ::
  "EmbeddingTester_base \<Rightarrow> string list \<Rightarrow> ModelTestResult_base list \<Rightarrow> world
   \<Rightarrow> ModelTestResult_base list \<times> world" where
  "model_loop_base t [] results w = (results, w)"
| "model_loop_base t (m # ms) results w =
     (case test_model_base t m None w of
        (Inr result, w') \<Rightarrow> model_loop_base t ms (results @ [result]) w'
      | (Inl e, w') \<Rightarrow> model_loop_base t ms (results @ [errored_base t m e]) w')"

definition models_to_test_base :: "EmbeddingTester_base \<Rightarrow> string list option \<Rightarrow> string list" where
  "models_to_test_base t models_arg =
     or_list models_arg (or_list (models_base (config_base t)) ALL_MODELS)"

definition run_tests_base ::
  "EmbeddingTester_base \<Rightarrow> string list option \<Rightarrow> world \<Rightarrow> (exn + TestReport_base) \<times> world" where
  "run_tests_base t models_arg w =
     (let models = models_to_test_base t models_arg in
      case health_check_base (client_base t) w of
        (Inl e, w') \<Rightarrow> (Inl e, w')
      | (Inr healthy, w') \<Rightarrow>
          if \<not> healthy then
            (Inl (Exn OllamaConnectionError
                    (''Ollama is not available at '' @ ollama_url_base (config_base t))), w')
          else
            (case model_loop_base t models [] w' of
               (results, w'') \<Rightarrow>
                 (Inr \<lparr>report_ollama_url = ollama_url_base (config_base t),
                       report_config_base = config_base t,
                       results_base = results,
                       summary_base = create_summary_base results\<rparr>, w'')))"

section \<open>Variant\_reserv: the asynchronous tester\<close>

text \<open>
  Every \<^verbatim>\<open>await\<close> of the file is awaited to completion before the next statement runs, so
  the coroutines are modelled as the sequential functions they read as. The \<^verbatim>\<open>timestamp\<close>
  fields (wall-clock strings), the progress bar and the logger are left out.
\<close>

subsection \<open>Constants and data classes\<close>

definition DOCKER_CONTAINER_NAME :: string where
  "DOCKER_CONTAINER_NAME = ''ollama''"

definition DEFAULT_RETRIES :: int where
  "DEFAULT_RETRIES = 3"

definition DEFAULT_MODELS :: "string list" where
  "DEFAULT_MODELS =
     [''embeddinggemma:300m-qat-q8_0'', ''qwen3-embedding:0.6b-fp16'',
      ''qwen3-embedding:0.6b-q8_0'', ''embeddinggemma:300m-qat-q4_0'',
      ''all-minilm:22m-l6-v2-fp16'', ''bge-m3:567m-fp16'', ''embeddinggemma:300m-bf16'',
      ''nomic-embed-text:137m-v1.5-fp16'', ''qllama/multilingual-e5-small:f16'',
      ''all-minilm:l6-v2'']"

datatype TestStatus = SUCCESS | FAILED | ERROR | TIMEOUT | SKIPPED

record TestConfig_reserv =
  ollama_url_reserv :: string
  timeout_reserv :: int
  max_retries_reserv :: int
  tests_per_model_reserv :: int
  warmup_requests :: int
  interval_between_tests_reserv :: int
  models_reserv :: "string list option"
  output_dir_reserv :: string
  check_docker :: bool
  save_json :: bool
  save_csv :: bool
  save_markdown :: bool
  save_html :: bool

record EmbeddingMetrics =
  success_reserv :: bool
  duration_reserv :: real
  text_length_reserv :: int
  embedding_dim_reserv :: "int option"
  tokens_per_second_reserv :: "real option"
  error_message :: "string option"

record ModelTestResult_reserv =
  model_name :: string
  status_reserv :: TestStatus
  total_tests_reserv :: int
  successful_tests_reserv :: int
  failed_tests :: int
  avg_duration_reserv :: "real option"
  min_duration_reserv :: "real option"
  max_duration_reserv :: "real option"
  median_duration :: "real option"
  std_duration_reserv :: "real option"
  avg_embedding_dim_reserv :: "int option"
  avg_tokens_per_second_reserv :: "real option"
  model_size :: "string option"
  error_summary :: "string option"
  individual_metrics :: "EmbeddingMetrics list"

record docker_status =
  status_docker_installed :: bool
  status_container_running :: bool
  status_available_models :: "string list"

subsection \<open>OllamaClient\<close>

record OllamaClient_reserv =
  base_url_reserv :: string
  client_timeout_reserv :: int

definition OllamaClient_init_reserv :: "string \<Rightarrow> int \<Rightarrow> OllamaClient_reserv" where
  "OllamaClient_init_reserv u t = \<lparr>base_url_reserv = rstrip_slash u, client_timeout_reserv = t\<rparr>"

definition is_httpx_HTTPError :: "exn \<Rightarrow> bool" where
  "is_httpx_HTTPError e = (exc_class e = HttpxHTTPError \<or> exc_class e = HttpxTimeoutException)"

definition health_check_reserv :: "OllamaClient_reserv \<Rightarrow> world \<Rightarrow> (exn + bool) \<times> world" where
  "health_check_reserv c w =
     (case send \<lparr>http_method = ''GET'', url = base_url_reserv c @ ''/api/tags'', payload = []\<rparr> w of
        (Answered r, w') \<Rightarrow> (Inr (status_code r = 200), w')
      | (Raised e, w') \<Rightarrow> if is_httpx_HTTPError e then (Inr False, w') else (Inl e, w'))"

text \<open>
  The body of the \<^verbatim>\<open>try\<close> of \<^verbatim>\<open>get_embedding\<close> with its three \<^verbatim>\<open>except\<close> clauses: one
  attempt. \<open>Inr (embedding, duration)\<close> is the \<^verbatim>\<open>return\<close> inside the \<^verbatim>\<open>try\<close>; \<open>Inl msg\<close>
  is the new value of \<^verbatim>\<open>last_error\<close>. An exception of \<^verbatim>\<open>response.json()\<close> or of
  \<^verbatim>\<open>data.get\<close> is raised inside the \<^verbatim>\<open>try\<close> and so caught by \<^verbatim>\<open>except Exception\<close>.
\<close>

definition embedding_request :: "OllamaClient_reserv \<Rightarrow> string \<Rightarrow> string \<Rightarrow> request" where
  "embedding_request c m prompt =
     \<lparr>http_method = ''POST'', url = base_url_reserv c @ ''/api/embeddings'',
      payload = [(''model'', m), (''prompt'', prompt)]\<rparr>"

definition embedding_attempt ::
  "OllamaClient_reserv \<Rightarrow> string \<Rightarrow> string \<Rightarrow> real \<Rightarrow> world \<Rightarrow> (string + json \<times> real) \<times> world" where
  "embedding_attempt c m prompt start_time w =
     (case send (embedding_request c m prompt) w of
        (Answered r, w') \<Rightarrow>
          (let duration = now w' - start_time in
           if status_code r = 200 then
             (case response_json JSONDecodeError r of
                Inl e \<Rightarrow> (Inl (''Unexpected error: '' @ str e), w')
              | Inr data \<Rightarrow>
                  (case dict_get data ''embedding'' (JArr []) of
                     Inl e \<Rightarrow> (Inl (''Unexpected error: '' @ str e), w')
                   | Inr embedding \<Rightarrow> (Inr (embedding, duration), w')))
           else (Inl (''HTTP '' @ str_int (status_code r) @ '': '' @ take 200 (body_text r)), w'))
      | (Raised e, w') \<Rightarrow>
          if exc_class e = HttpxTimeoutException
          then (Inl (''Timeout after '' @ str_int (client_timeout_reserv c) @ ''s''), w')
          else if is_httpx_HTTPError e then (Inl (''HTTP Error: '' @ str e), w')
          else (Inl (''Unexpected error: '' @ str e), w'))"

text \<open>
  The loop \<^verbatim>\<open>for attempt in range(retries)\<close> over the attempt numbers still to run, and
  the two statements after it.
\<close>

fun attempt_loop ::
  "OllamaClient_reserv \<Rightarrow> string \<Rightarrow> string \<Rightarrow> int \<Rightarrow> real \<Rightarrow> nat list \<Rightarrow> string option \<Rightarrow> world
   \<Rightarrow> (json \<times> real \<times> string option) \<times> world" where
  "attempt_loop c m prompt retries start_time [] last_error w =
     ((JNull, now w - start_time, last_error), w)"
| "attempt_loop c m prompt retries start_time (attempt # rest) last_error w =
     (case embedding_attempt c m prompt start_time w of
        (Inr (embedding, duration), w') \<Rightarrow> ((embedding, duration, None), w')
      | (Inl msg, w') \<Rightarrow>
          attempt_loop c m prompt retries start_time rest (Some msg)
            (if int attempt < retries - 1 then asyncio_sleep (2 ^ attempt) w' else w'))"

definition get_embedding_reserv ::
  "OllamaClient_reserv \<Rightarrow> string \<Rightarrow> string \<Rightarrow> int \<Rightarrow> world
   \<Rightarrow> (json \<times> real \<times> string option) \<times> world" where
  "get_embedding_reserv c m prompt retries w =
     attempt_loop c m prompt retries (now w) [0..<nat retries] None w"

subsection \<open>EmbeddingTester\<close>

record EmbeddingTester_reserv =
  config_reserv :: TestConfig_reserv
  test_texts_reserv :: "string list"

definition test_single_embedding_reserv ::
  "EmbeddingTester_reserv \<Rightarrow> OllamaClient_reserv \<Rightarrow> string \<Rightarrow> string \<Rightarrow> world
   \<Rightarrow> (exn + EmbeddingMetrics) \<times> world" where
  "test_single_embedding_reserv t c m txt w =
     (case get_embedding_reserv c m txt (max_retries_reserv (config_reserv t)) w of
        ((embedding, duration, err), w') \<Rightarrow>
          if truthy embedding then
            (case py_len embedding of
               Inl e \<Rightarrow> (Inl e, w')
             | Inr embedding_dim \<Rightarrow>
                 (Inr \<lparr>success_reserv = True, duration_reserv = duration,
                       text_length_reserv = int (length txt),
                       embedding_dim_reserv = Some (int embedding_dim),
                       tokens_per_second_reserv =
                         Some (if duration > 0 then real embedding_dim / duration else 0),
                       error_message = None\<rparr>, w'))
          else
            (Inr \<lparr>success_reserv = False, duration_reserv = duration,
                  text_length_reserv = int (length txt),
                  embedding_dim_reserv = None, tokens_per_second_reserv = None,
                  error_message = err\<rparr>, w'))"

text \<open>
  The warm-up loop of \<^verbatim>\<open>test_model\<close> (lines 388 to 393), by the number of rounds still to
  run. It calls \<^verbatim>\<open>get_embedding\<close> without \<^verbatim>\<open>retries\<close>, so with \<open>DEFAULT_RETRIES\<close>, and
  keeps nothing of what the call returns.
\<close>

fun warmup_loop ::
  "EmbeddingTester_reserv \<Rightarrow> OllamaClient_reserv \<Rightarrow> string \<Rightarrow> nat \<Rightarrow> world \<Rightarrow> (exn + unit) \<times> world" where
  "warmup_loop t c m 0 w = (Inr (), w)"
| "warmup_loop t c m (Suc n) w =
     (case test_texts_reserv t of
        [] \<Rightarrow> (Inl (Exn IndexError ''list index out of range''), w)
      | txt # _ \<Rightarrow>
          (case get_embedding_reserv c m txt DEFAULT_RETRIES w of
             (_, w') \<Rightarrow> warmup_loop t c m n (asyncio_sleep 1 w')))"

fun sample_loop_reserv ::
  "EmbeddingTester_reserv \<Rightarrow> OllamaClient_reserv \<Rightarrow> string \<Rightarrow> nat list \<Rightarrow> EmbeddingMetrics list
   \<Rightarrow> world \<Rightarrow> (exn + EmbeddingMetrics list) \<times> world" where
  "sample_loop_reserv t c m [] metrics_list w = (Inr metrics_list, w)"
| "sample_loop_reserv t c m (i # is) metrics_list w =
     (if test_texts_reserv t = [] then (Inl (Exn ZeroDivisionError ''integer modulo by zero''), w)
      else
        (case test_single_embedding_reserv t c m
                (test_texts_reserv t ! (i mod length (test_texts_reserv t))) w of
           (Inl e, w1) \<Rightarrow> (Inl e, w1)
         | (Inr metrics, w1) \<Rightarrow>
             sample_loop_reserv t c m is (metrics_list @ [metrics])
               (if int i < tests_per_model_reserv (config_reserv t) - 1
                then asyncio_sleep (real_of_int (interval_between_tests_reserv (config_reserv t))) w1
                else w1)))"

definition join :: "string \<Rightarrow> string list \<Rightarrow> string" where
  "join sep xs = (case xs of [] \<Rightarrow> [] | y # ys \<Rightarrow> y @ concat (map (\<lambda>z. sep @ z) ys))"

text \<open>
  The rest of \<^verbatim>\<open>test_model\<close> (lines 410 to 444). Python leaves the iteration order of
  \<^verbatim>\<open>set(error_messages)\<close> open; the model takes the order of first occurrence, and no
  theorem below depends on it.
\<close>

definition aggregate_reserv :: "string \<Rightarrow> EmbeddingMetrics list \<Rightarrow> exn + ModelTestResult_reserv" where
  "aggregate_reserv m metrics_list =
     (let successful = filter success_reserv metrics_list;
          failed = filter (\<lambda>x. \<not> success_reserv x) metrics_list
      in
      if successful = [] then
        (let error_messages =
               concat (map (\<lambda>x. case error_message x of
                                   Some s \<Rightarrow> if s \<noteq> [] then [s] else []
                                 | None \<Rightarrow> []) failed)
         in Inr \<lparr>model_name = m, status_reserv = FAILED,
                 total_tests_reserv = int (length metrics_list),
                 successful_tests_reserv = 0,
                 failed_tests = int (length failed),
                 avg_duration_reserv = None, min_duration_reserv = None,
                 max_duration_reserv = None, median_duration = None,
                 std_duration_reserv = None, avg_embedding_dim_reserv = None,
                 avg_tokens_per_second_reserv = None, model_size = None,
                 error_summary =
                   Some (if error_messages \<noteq> [] then join ''; '' (remdups error_messages)
                         else ''All tests failed''),
                 individual_metrics = metrics_list\<rparr>)
      else
        (let durations = map duration_reserv successful;
             embedding_dims =
               concat (map (\<lambda>x. case embedding_dim_reserv x of
                                   Some d \<Rightarrow> if d \<noteq> 0 then [real_of_int d] else []
                                 | None \<Rightarrow> []) successful);
             tokens_per_sec =
               concat (map (\<lambda>x. case tokens_per_second_reserv x of
                                   Some v \<Rightarrow> if v \<noteq> 0 then [v] else []
                                 | None \<Rightarrow> []) successful)
         in
         case mean durations of Inl e \<Rightarrow> Inl e | Inr avg \<Rightarrow>
         (case py_min durations of Inl e \<Rightarrow> Inl e | Inr mn \<Rightarrow>
         (case py_max durations of Inl e \<Rightarrow> Inl e | Inr mx \<Rightarrow>
         (case median durations of Inl e \<Rightarrow> Inl e | Inr med \<Rightarrow>
         (case (if length durations > 1 then stdev durations else Inr 0) of
            Inl e \<Rightarrow> Inl e | Inr sd \<Rightarrow>
         (case (if embedding_dims \<noteq> [] then map_sum id (\<lambda>x. Some (py_int x)) (mean embedding_dims)
                else Inr None) of
            Inl e \<Rightarrow> Inl e | Inr avg_dim \<Rightarrow>
         (case (if tokens_per_sec \<noteq> [] then map_sum id Some (mean tokens_per_sec) else Inr None) of
            Inl e \<Rightarrow> Inl e | Inr avg_tps \<Rightarrow>
              Inr \<lparr>model_name = m, status_reserv = SUCCESS,
                   total_tests_reserv = int (length metrics_list),
                   successful_tests_reserv = int (length successful),
                   failed_tests = int (length failed),
                   avg_duration_reserv = Some avg, min_duration_reserv = Some mn,
                   max_duration_reserv = Some mx, median_duration = Some med,
                   std_duration_reserv = Some sd, avg_embedding_dim_reserv = avg_dim,
                   avg_tokens_per_second_reserv = avg_tps, model_size = None,
                   error_summary = None,
                   individual_metrics = metrics_list\<rparr>))))))))"

definition test_model_reserv ::
  "EmbeddingTester_reserv \<Rightarrow> OllamaClient_reserv \<Rightarrow> string \<Rightarrow> world
   \<Rightarrow> (exn + ModelTestResult_reserv) \<times> world" where
  "test_model_reserv t c m w =
     (case (if warmup_requests (config_reserv t) > 0
            then warmup_loop t c m (nat (warmup_requests (config_reserv t))) w
            else (Inr (), w)) of
        (Inl e, w1) \<Rightarrow> (Inl e, w1)
      | (Inr _, w1) \<Rightarrow>
          (case sample_loop_reserv t c m [0..<nat (tests_per_model_reserv (config_reserv t))] [] w1 of
             (Inl e, w2) \<Rightarrow> (Inl e, w2)
           | (Inr metrics_list, w2) \<Rightarrow> (aggregate_reserv m metrics_list, w2)))"

subsection \<open>The summary and the run\<close>

record ranking_entry_reserv =
  rank_reserv :: nat
  entry_model_reserv :: string
  entry_avg_duration_reserv :: "real option"
  entry_embedding_dim_reserv :: "int option"

record summary_reserv =
  sum_total_models :: int
  sum_successful_models :: int
  sum_failed_models :: int
  fastest_model :: "string option"
  highest_quality_model :: "string option"
  sum_ranking_by_speed :: "ranking_entry_reserv list"
  sum_ranking_by_quality :: "ranking_entry_reserv list"

record TestReport_reserv =
  report_config_reserv :: TestConfig_reserv
  report_docker_status :: "docker_status option"
  results_reserv :: "ModelTestResult_reserv list"
  report_summary :: summary_reserv
  duration_seconds :: real

definition speed_key_reserv :: "ModelTestResult_reserv \<Rightarrow> pyfloat" where
  "speed_key_reserv x =
     (case avg_duration_reserv x of
        Some d \<Rightarrow> if d \<noteq> 0 then Fin d else PosInf
      | None \<Rightarrow> PosInf)"

definition quality_key_reserv :: "ModelTestResult_reserv \<Rightarrow> int" where
  "quality_key_reserv x =
     (case avg_embedding_dim_reserv x of
        Some d \<Rightarrow> if d \<noteq> 0 then d else 0
      | None \<Rightarrow> 0)"

text \<open>\<^verbatim>\<open>enumerate\<close> counts from 0 here and the rank is \<^verbatim>\<open>i + 1\<close>.\<close>

definition ranking_entry_of_reserv :: "nat \<times> ModelTestResult_reserv \<Rightarrow> ranking_entry_reserv" where
  "ranking_entry_of_reserv p =
     (case p of (i, r) \<Rightarrow>
        \<lparr>rank_reserv = i + 1, entry_model_reserv = model_name r,
         entry_avg_duration_reserv = avg_duration_reserv r,
         entry_embedding_dim_reserv = avg_embedding_dim_reserv r\<rparr>)"

definition create_summary_reserv :: "ModelTestResult_reserv list \<Rightarrow> summary_reserv" where
  "create_summary_reserv results =
     (let successful = filter (\<lambda>r. status_reserv r = SUCCESS) results;
          by_speed = sort_key speed_key_reserv successful;
          by_quality = sorted_reverse quality_key_reserv successful
      in \<lparr>sum_total_models = int (length results),
          sum_successful_models = int (length successful),
          sum_failed_models = int (length (filter (\<lambda>r. status_reserv r \<noteq> SUCCESS) results)),
          fastest_model = (case by_speed of [] \<Rightarrow> None | r # _ \<Rightarrow> Some (model_name r)),
          highest_quality_model = (case by_quality of [] \<Rightarrow> None | r # _ \<Rightarrow> Some (model_name r)),
          sum_ranking_by_speed = map ranking_entry_of_reserv (enumerate 0 by_speed),
          sum_ranking_by_quality = map ranking_entry_of_reserv (enumerate 0 by_quality)\<rparr>)"

definition errored_reserv :: "EmbeddingTester_reserv \<Rightarrow> string \<Rightarrow> exn \<Rightarrow> ModelTestResult_reserv" where
  "errored_reserv t m e =
     \<lparr>model_name = m, status_reserv = ERROR,
      total_tests_reserv = tests_per_model_reserv (config_reserv t),
      successful_tests_reserv = 0,
      failed_tests = tests_per_model_reserv (config_reserv t),
      avg_duration_reserv = None, min_duration_reserv = None, max_duration_reserv = None,
      median_duration = None, std_duration_reserv = None, avg_embedding_dim_reserv = None,
      avg_tokens_per_second_reserv = None, model_size = None,
      error_summary = Some (str e), individual_metrics = []\<rparr>"

fun model_loop_reserv ::
  "EmbeddingTester_reserv \<Rightarrow> OllamaClient_reserv \<Rightarrow> string list \<Rightarrow> ModelTestResult_reserv list
   \<Rightarrow> world \<Rightarrow> ModelTestResult_reserv list \<times> world" where
  "model_loop_reserv t c [] results w = (results, w)"
| "model_loop_reserv t c (m # ms) results w =
     (case test_model_reserv t c m w of
        (Inr result, w') \<Rightarrow> model_loop_reserv t c ms (results @ [result]) w'
      | (Inl e, w') \<Rightarrow> model_loop_reserv t c ms (results @ [errored_reserv t m e]) w')"

definition get_docker_status :: "world \<Rightarrow> docker_status" where
  "get_docker_status w =
     \<lparr>status_docker_installed = docker_installed w,
      status_container_running = container_running w,
      status_available_models = available_models w\<rparr>"

definition models_to_test_reserv :: "EmbeddingTester_reserv \<Rightarrow> string list" where
  "models_to_test_reserv t = or_list (models_reserv (config_reserv t)) DEFAULT_MODELS"

definition run_tests_reserv ::
  "EmbeddingTester_reserv \<Rightarrow> world \<Rightarrow> (exn + TestReport_reserv) \<times> world" where
  "run_tests_reserv t w =
     (let start_time = now w;
          docker = (if check_docker (config_reserv t) then Some (get_docker_status w) else None)
      in
      if check_docker (config_reserv t) \<and> \<not> docker_installed w
      then (Inl (Exn RuntimeError ''Docker is not installed''), w)
      else if check_docker (config_reserv t) \<and> \<not> container_running w
      then (Inl (Exn RuntimeError
                   (''Ollama container '' @ [CHR 0x27] @ DOCKER_CONTAINER_NAME @ [CHR 0x27]
                    @ '' is not running'')), w)
      else
        (let models_to_test = models_to_test_reserv t;
             client = OllamaClient_init_reserv (ollama_url_reserv (config_reserv t))
                        (timeout_reserv (config_reserv t))
         in case health_check_reserv client w of
              (Inl e, w') \<Rightarrow> (Inl e, w')
            | (Inr healthy, w') \<Rightarrow>
                if \<not> healthy then
                  (Inl (Exn RuntimeError
                          (''Cannot connect to Ollama at '' @ ollama_url_reserv (config_reserv t))), w')
                else
                  (case model_loop_reserv t client models_to_test [] w' of
                     (results, w'') \<Rightarrow>
                       (Inr \<lparr>report_config_reserv = config_reserv t,
                             report_docker_status = docker,
                             results_reserv = results,
                             report_summary = create_summary_reserv results,
                             duration_seconds = now w'' - start_time\<rparr>, w''))))"

section \<open>Reading the service\<close>

text \<open>
  What one attempt of \<^verbatim>\<open>get_embedding\<close> returns from inside its \<^verbatim>\<open>try\<close>, read off the
  outcome the service gives it: the embedding of a 200 answer whose body is a JSON
  object, and nothing in every other case (the attempt then sets \<^verbatim>\<open>last_error\<close>).
\<close>

fun returned_embedding :: "outcome \<Rightarrow> json option" where
  "returned_embedding (Raised e) = None"
| "returned_embedding (Answered r) =
     (if status_code r = 200 then
        (case body_json r of
           None \<Rightarrow> None
         | Some data \<Rightarrow>
             (case dict_get data ''embedding'' (JArr []) of
                Inl e \<Rightarrow> None
              | Inr embedding \<Rightarrow> Some embedding))
      else None)"

text \<open>
  The latency and the outcome of the \<open>j\<close>-th attempt made from world \<open>w\<close> on, when it
  sends \<open>rq\<close>.
\<close>

definition latency_of :: "world \<Rightarrow> request \<Rightarrow> nat \<Rightarrow> real" where
  "latency_of w rq j = fst (service w (served w + j) rq)"

definition outcome_of :: "world \<Rightarrow> request \<Rightarrow> nat \<Rightarrow> outcome" where
  "outcome_of w rq j = snd (service w (served w + j) rq)"

section \<open>Predicates of the statements\<close>

text \<open>
  The statistics fields of a Model Result, all present or all absent, and what it means
  for a measurement or a result to report a dimensionality. In Variant\_reserv the fields
  are mean, minimum, maximum, median and standard deviation of the duration and the mean
  dimensionality; Variant\_base has no median.
\<close>

definition stats_present_reserv :: "ModelTestResult_reserv \<Rightarrow> bool" where
  "stats_present_reserv r =
     (avg_duration_reserv r \<noteq> None \<and> min_duration_reserv r \<noteq> None \<and>
      max_duration_reserv r \<noteq> None \<and> median_duration r \<noteq> None \<and>
      std_duration_reserv r \<noteq> None \<and> avg_embedding_dim_reserv r \<noteq> None)"

definition stats_absent_reserv :: "ModelTestResult_reserv \<Rightarrow> bool" where
  "stats_absent_reserv r =
     (avg_duration_reserv r = None \<and> min_duration_reserv r = None \<and>
      max_duration_reserv r = None \<and> median_duration r = None \<and>
      std_duration_reserv r = None \<and> avg_embedding_dim_reserv r = None)"

definition reports_dimension :: "EmbeddingMetrics \<Rightarrow> bool" where
  "reports_dimension x =
     (success_reserv x \<longrightarrow> (\<exists>d. embedding_dim_reserv x = Some d \<and> d \<noteq> 0))"

definition duration_stats_present_base :: "ModelTestResult_base \<Rightarrow> bool" where
  "duration_stats_present_base r =
     (avg_duration_base r \<noteq> None \<and> min_duration_base r \<noteq> None \<and>
      max_duration_base r \<noteq> None \<and> std_duration_base r \<noteq> None)"

definition stats_absent_base :: "ModelTestResult_base \<Rightarrow> bool" where
  "stats_absent_base r =
     (avg_duration_base r = None \<and> min_duration_base r = None \<and>
      max_duration_base r = None \<and> std_duration_base r = None \<and>
      avg_embedding_dim_base r = None)"

definition dimension_reported_base :: "ModelTestResult_base \<Rightarrow> bool" where
  "dimension_reported_base r =
     (\<exists>x\<in>set (individual_results r).
        success_base x \<and> (\<exists>d. embedding_dim_base x = Some d \<and> d \<noteq> 0))"

text \<open>
  The liveness request, the client that \<^verbatim>\<open>run_tests\<close> of Variant\_reserv builds, its Docker
  pre-check passing, and the events that attempts at one request can leave in the trace:
  that request and sleeps.
\<close>

definition tags_request :: "string \<Rightarrow> request" where
  "tags_request base = \<lparr>http_method = ''GET'', url = base @ ''/api/tags'', payload = []\<rparr>"

definition client_of_reserv :: "EmbeddingTester_reserv \<Rightarrow> OllamaClient_reserv" where
  "client_of_reserv t =
     OllamaClient_init_reserv (ollama_url_reserv (config_reserv t)) (timeout_reserv (config_reserv t))"

definition docker_ok :: "EmbeddingTester_reserv \<Rightarrow> world \<Rightarrow> bool" where
  "docker_ok t w = (check_docker (config_reserv t) \<longrightarrow> docker_installed w \<and> container_running w)"

definition attempt_event :: "request \<Rightarrow> event \<Rightarrow> bool" where
  "attempt_event rq ev = (case ev of Sent rq' \<Rightarrow> rq' = rq | Slept d \<Rightarrow> True)"

text \<open>
  One warm-up round: a call of \<^verbatim>\<open>get_embedding\<close> with the default retries, nothing kept
  of what it returns, and the pause of one second after it.
\<close>

definition warmup_round :: "OllamaClient_reserv \<Rightarrow> string \<Rightarrow> string \<Rightarrow> world \<Rightarrow> world" where
  "warmup_round c m txt w = asyncio_sleep 1 (snd (get_embedding_reserv c m txt DEFAULT_RETRIES w))"

text \<open>The number of samples that \<^verbatim>\<open>test_model\<close> of Variant\_base runs: \<^verbatim>\<open>num_tests or tests_per_model\<close>.\<close>

definition num_tests_base :: "EmbeddingTester_base \<Rightarrow> int option \<Rightarrow> int" where
  "num_tests_base t a =
     (case a of
        Some k \<Rightarrow> if k \<noteq> 0 then k else tests_per_model_base (config_base t)
      | None \<Rightarrow> tests_per_model_base (config_base t))"

text \<open>
  Every request to the Target Service takes a positive time: the durations are differences
  of \<^verbatim>\<open>time.perf_counter\<close> taken around an HTTP round trip.
\<close>

definition positive_latency :: "world \<Rightarrow> bool" where
  "positive_latency w = (\<forall>k rq. 0 < fst (service w k rq))"

text \<open>
  A Model Result whose mean duration, where its status is Succeeded, is present and
  positive.
\<close>

definition positive_mean_base :: "ModelTestResult_base \<Rightarrow> bool" where
  "positive_mean_base r =
     (status_base r = SUCCESS_base \<longrightarrow> (\<exists>d>0. avg_duration_base r = Some d))"

definition positive_mean_reserv :: "ModelTestResult_reserv \<Rightarrow> bool" where
  "positive_mean_reserv r =
     (status_reserv r = SUCCESS \<longrightarrow> (\<exists>d>0. avg_duration_reserv r = Some d))"

text \<open>
  What the specification says of the ranking by speed of a list of Model Results, in its
  own words: there is an arrangement \<open>S\<close> of exactly the Succeeded results, each once, that
  is non-decreasing by mean duration, keeps the results of equal mean duration in their
  original order, and whose members the entries of the ranking name in turn, with the
  ranks 1, 2, \<dots>
\<close>

definition ranked_by_speed_base ::
  "ranking_entry_base list \<Rightarrow> ModelTestResult_base list \<Rightarrow> bool" where
  "ranked_by_speed_base ranking rs =
     (\<exists>S. mset S = mset (filter (\<lambda>r. status_base r = SUCCESS_base) rs) \<and>
          sorted_wrt (\<lambda>a b. \<exists>da db. avg_duration_base a = Some da \<and>
                                      avg_duration_base b = Some db \<and> da \<le> db) S \<and>
          (\<forall>d. filter (\<lambda>x. avg_duration_base x = Some d) S =
               filter (\<lambda>x. avg_duration_base x = Some d)
                 (filter (\<lambda>r. status_base r = SUCCESS_base) rs)) \<and>
          map rank_base ranking = [1..<Suc (length S)] \<and>
          map entry_model_base ranking = map mr_model S \<and>
          map entry_avg_duration_base ranking = map avg_duration_base S)"

definition ranked_by_speed_reserv ::
  "ranking_entry_reserv list \<Rightarrow> ModelTestResult_reserv list \<Rightarrow> bool" where
  "ranked_by_speed_reserv ranking rs =
     (\<exists>S. mset S = mset (filter (\<lambda>r. status_reserv r = SUCCESS) rs) \<and>
          sorted_wrt (\<lambda>a b. \<exists>da db. avg_duration_reserv a = Some da \<and>
                                      avg_duration_reserv b = Some db \<and> da \<le> db) S \<and>
          (\<forall>d. filter (\<lambda>x. avg_duration_reserv x = Some d) S =
               filter (\<lambda>x. avg_duration_reserv x = Some d)
                 (filter (\<lambda>r. status_reserv r = SUCCESS) rs)) \<and>
          map rank_reserv ranking = [1..<Suc (length S)] \<and>
          map entry_model_reserv ranking = map model_name S \<and>
          map entry_avg_duration_reserv ranking = map avg_duration_reserv S)"

section \<open>Concrete services and testers\<close>

text \<open>Inputs at which the theorems below are evaluated.\<close>

text \<open>
  The services below that fail under Variant\_base fail with \<^verbatim>\<open>requests.ConnectionError\<close>.
\<close>

definition future_repr0 :: "exn \<Rightarrow> string" where
  "future_repr0 e = ''<Future at 0x7f3a5c1d2e80 state=finished raised ConnectionError>''"

definition world0 :: "(nat \<Rightarrow> request \<Rightarrow> real \<times> outcome) \<Rightarrow> world" where
  "world0 svc =
     \<lparr>now = 0, served = 0, service = svc, trace = [], future_repr = future_repr0,
      docker_installed = True, container_running = True, available_models = []\<rparr>"

text \<open>A service that is down: every attempt of \<^verbatim>\<open>requests\<close> ends in a connection error.\<close>

definition refused :: "nat \<Rightarrow> request \<Rightarrow> real \<times> outcome" where
  "refused k rq = (1, Raised (Exn RequestException ''Connection refused''))"

definition config_base0 :: TestConfig_base where
  "config_base0 =
     \<lparr>ollama_url_base = ''http://localhost:11434'', timeout_base = 120, max_retries_base = 3,
      retry_delay = 5, tests_per_model_base = 1, interval_between_tests_base = 2,
      models_base = Some [''m1'', ''m2''], output_dir_base = ''.''\<rparr>"

definition tester_base0 :: EmbeddingTester_base where
  "tester_base0 = EmbeddingTester_init_base config_base0 [''Hello, world'']"

text \<open>
  Services for \<^verbatim>\<open>httpx\<close>: one that answers 503, then times out, then answers with a vector;
  one that always answers 503; one that always answers 200 with an empty vector.
\<close>

definition flaky :: "nat \<Rightarrow> request \<Rightarrow> real \<times> outcome" where
  "flaky k rq =
     (if k = 0 then (1, Answered \<lparr>status_code = 503, body_text = ''loading'', body_json = None\<rparr>)
      else if k = 1 then (3, Raised (Exn HttpxTimeoutException ''timed out''))
      else (2, Answered \<lparr>status_code = 200, body_text = ''{...}'',
                          body_json = Some (JObj [(''embedding'', JArr [JFloat 0.5, JFloat 0.25])])\<rparr>))"

definition unavailable :: "nat \<Rightarrow> request \<Rightarrow> real \<times> outcome" where
  "unavailable k rq =
     (1, Answered \<lparr>status_code = 503, body_text = ''Service Unavailable'', body_json = None\<rparr>)"

definition empty_vector :: "nat \<Rightarrow> request \<Rightarrow> real \<times> outcome" where
  "empty_vector k rq =
     (1, Answered \<lparr>status_code = 200, body_text = ''{...}'',
                    body_json = Some (JObj [(''embedding'', JArr [])])\<rparr>)"

definition config_reserv0 :: TestConfig_reserv where
  "config_reserv0 =
     \<lparr>ollama_url_reserv = ''http://localhost:11434'', timeout_reserv = 180,
      max_retries_reserv = 3, tests_per_model_reserv = 1, warmup_requests = 1,
      interval_between_tests_reserv = 3, models_reserv = Some [''m1'', ''m2''],
      output_dir_reserv = ''.'', check_docker = True, save_json = True, save_csv = True,
      save_markdown = True, save_html = True\<rparr>"

definition tester_reserv0 :: EmbeddingTester_reserv where
  "tester_reserv0 = \<lparr>config_reserv = config_reserv0, test_texts_reserv = [''Hello, world'']\<rparr>"

definition client_reserv0 :: OllamaClient_reserv where
  "client_reserv0 = OllamaClient_init_reserv ''http://localhost:11434'' 180"

text \<open>
  A service that answers every request with status 200: to the liveness request, to a
  request for model \<^verbatim>\<open>m1\<close> with the number 5 where the vector should be, and to every
  other request with a vector of three floats. And one whose answers are always the empty
  JSON object.
\<close>

definition mixed :: "nat \<Rightarrow> request \<Rightarrow> real \<times> outcome" where
  "mixed k rq =
     (if http_method rq = ''GET''
      then (1, Answered \<lparr>status_code = 200, body_text = ''{...}'',
                          body_json = Some (JObj [(''models'', JArr [])])\<rparr>)
      else if map_of (payload rq) ''model'' = Some ''m1''
      then (1, Answered \<lparr>status_code = 200, body_text = ''{...}'',
                          body_json = Some (JObj [(''embedding'', JInt 5)])\<rparr>)
      else (2, Answered \<lparr>status_code = 200, body_text = ''{...}'',
                          body_json = Some (JObj [(''embedding'', JArr [JFloat 0.1, JFloat 0.2, JFloat 0.3])])\<rparr>))"

definition no_embedding :: "nat \<Rightarrow> request \<Rightarrow> real \<times> outcome" where
  "no_embedding k rq =
     (1, Answered \<lparr>status_code = 200, body_text = ''{}'', body_json = Some (JObj [])\<rparr>)"

text \<open>
  A service on which every request for model \<^verbatim>\<open>m1\<close> meets a connection error; one that
  answers every request with a redirect; one on which the client library raises an
  exception outside its own request-error classes.
\<close>

definition m1_down :: "nat \<Rightarrow> request \<Rightarrow> real \<times> outcome" where
  "m1_down k rq =
     (if http_method rq = ''GET''
      then (1, Answered \<lparr>status_code = 200, body_text = ''{...}'',
                          body_json = Some (JObj [(''models'', JArr [])])\<rparr>)
      else if map_of (payload rq) ''model'' = Some ''m1''
      then (1, Raised (Exn RequestException ''Connection reset by peer''))
      else (2, Answered \<lparr>status_code = 200, body_text = ''{...}'',
                          body_json = Some (JObj [(''embedding'', JArr [JFloat 0.1, JFloat 0.2, JFloat 0.3])])\<rparr>))"

definition moved :: "nat \<Rightarrow> request \<Rightarrow> real \<times> outcome" where
  "moved k rq =
     (1, Answered \<lparr>status_code = 302, body_text = ''Found'', body_json = None\<rparr>)"

definition broken :: "nat \<Rightarrow> request \<Rightarrow> real \<times> outcome" where
  "broken k rq = (0, Raised (Exn OtherException ''Invalid URL''))"

text \<open>
  A Succeeded Model Result of each variant with a given name and mean duration, from one
  measurement of that duration.
\<close>

definition succeeded_base :: "string \<Rightarrow> real \<Rightarrow> ModelTestResult_base" where
  "succeeded_base name d =
     \<lparr>mr_model = name, status_base = SUCCESS_base, total_tests_base = 1,
      successful_tests_base = 1,
      avg_duration_base = Some d, min_duration_base = Some d, max_duration_base = Some d,
      std_duration_base = Some 0, avg_embedding_dim_base = Some 3,
      avg_tokens_per_second_base = None, model_info = Some (JObj []),
      mr_error = None,
      individual_results =
        [\<lparr>success_base = True, duration_base = d, text_length_base = Some 12,
          embedding_dim_base = Some 3, tokens_per_second_base = Some 0, error = None,
          model = Some name, text_base = Some ''Hello, world''\<rparr>]\<rparr>"

definition succeeded_reserv :: "string \<Rightarrow> real \<Rightarrow> ModelTestResult_reserv" where
  "succeeded_reserv name d =
     \<lparr>model_name = name, status_reserv = SUCCESS, total_tests_reserv = 1,
      successful_tests_reserv = 1, failed_tests = 0,
      avg_duration_reserv = Some d, min_duration_reserv = Some d, max_duration_reserv = Some d,
      median_duration = Some d, std_duration_reserv = Some 0, avg_embedding_dim_reserv = Some 3,
      avg_tokens_per_second_reserv = None, model_size = None, error_summary = None,
      individual_metrics =
        [\<lparr>success_reserv = True, duration_reserv = d, text_length_reserv = 12,
          embedding_dim_reserv = Some 3, tokens_per_second_reserv = Some 0,
          error_message = None\<rparr>]\<rparr>"

text \<open>A service that is down, as \<^verbatim>\<open>httpx\<close> reports it.\<close>

definition httpx_refused :: "nat \<Rightarrow> request \<Rightarrow> real \<times> outcome" where
  "httpx_refused k rq = (1, Raised (Exn HttpxHTTPError ''All connection attempts failed''))"

text \<open>A service where both models answer, the first more slowly than the second.\<close>

definition slow_m1 :: "nat \<Rightarrow> request \<Rightarrow> real \<times> outcome" where
  "slow_m1 k rq =
     (if http_method rq = ''GET''
      then (1, Answered \<lparr>status_code = 200, body_text = ''{...}'',
                          body_json = Some (JObj [(''models'', JArr [])])\<rparr>)
      else if map_of (payload rq) ''model'' = Some ''m1''
      then (3, Answered \<lparr>status_code = 200, body_text = ''{...}'',
                          body_json = Some (JObj [(''embedding'', JArr [JFloat 0.1, JFloat 0.2, JFloat 0.3])])\<rparr>)
      else (2, Answered \<lparr>status_code = 200, body_text = ''{...}'',
                          body_json = Some (JObj [(''embedding'', JArr [JFloat 0.1, JFloat 0.2, JFloat 0.3])])\<rparr>))"

section \<open>Properties\<close>

declare retrying.simps [simp del]
declare digits.simps [simp del]

lemmas base_eval =
  quoted_def
  test_single_embedding_base_def get_embedding_base_def make_request_def do_request_def send_def
  EmbeddingTester_init_base_def OllamaClient_init_base_def config_base0_def tester_base0_def
  world0_def future_repr0_def retry_if_exception_type_def time_sleep_def wait_exponential_def rstrip_slash_def
  Let_def retrying.simps numeral_2_eq_2 health_check_base_def test_model_base_def
  run_tests_base_def models_to_test_base_def or_list_def analyse_base_def get_model_info_def
  errored_base_def response_json_def calculate_stats_def mean_def stdev_def shorten_def upt_rec

lemmas reserv_eval =
  quoted_def
  test_model_reserv_def test_single_embedding_reserv_def get_embedding_reserv_def
  embedding_attempt_def embedding_request_def send_def asyncio_sleep_def response_json_def
  aggregate_reserv_def mean_def median_def stdev_def py_int_def Let_def
  tester_reserv0_def config_reserv0_def client_reserv0_def OllamaClient_init_reserv_def
  rstrip_slash_def world0_def DEFAULT_RETRIES_def upt_rec
  run_tests_reserv_def health_check_reserv_def models_to_test_reserv_def or_list_def
  errored_reserv_def get_docker_status_def is_httpx_HTTPError_def

subsection \<open>The Sample Prober and exhausted retries\<close>

text \<open>
  C1 (fails on Variant\_base). The claim: the Sample Prober never raises, every failure of the
  request, exhausted retries included, ends in a measurement with \<open>success = False\<close>.
  In Variant\_base, \<^verbatim>\<open>_make_request\<close> turns the \<^verbatim>\<open>RetryError\<close> of exhausted retries into
  \<^verbatim>\<open>OllamaConnectionError\<close>, which is neither of the two classes that
  \<^verbatim>\<open>test_single_embedding\<close> catches: against a service that refuses every connection, with
  the default three attempts, the prober raises instead of returning a measurement.
\<close>

theorem C1_base_prober_raises_on_exhausted_retries:
  "fst (test_single_embedding_base tester_base0 ''m1'' ''Hello, world'' (world0 refused)) =
     Inl (Exn OllamaConnectionError
            ''Failed to connect to Ollama: RetryError[<Future at 0x7f3a5c1d2e80 state=finished raised ConnectionError>]'')"
  by (simp add: base_eval refused_def)

text \<open>
  The sibling path: the prober of Variant\_reserv captures exhausted retries in a failed
  measurement. What can still leave either prober is the \<^verbatim>\<open>TypeError\<close> of \<^verbatim>\<open>len()\<close> on a 200
  answer whose \<^verbatim>\<open>embedding\<close> is a number or a boolean; in Variant\_reserv nothing else can.
\<close>

lemma reserv_prober_captures_exhausted_retries:
  "fst (test_single_embedding_reserv tester_reserv0 client_reserv0 ''m1'' ''Hello, world''
          (world0 httpx_refused)) =
     Inr \<lparr>success_reserv = False, duration_reserv = 6, text_length_reserv = 12,
          embedding_dim_reserv = None, tokens_per_second_reserv = None,
          error_message = Some ''HTTP Error: All connection attempts failed''\<rparr>"
  by (simp add: reserv_eval httpx_refused_def)

lemma reserv_prober_raises_only_TypeError:
  assumes "fst (test_single_embedding_reserv t c m p w) = Inl e"
  shows "exc_class e = TypeError"
proof -
  obtain emb d err w' where
    g: "get_embedding_reserv c m p (max_retries_reserv (config_reserv t)) w = ((emb, d, err), w')"
    by (metis prod.exhaust)
  from assms g show ?thesis
    by (cases emb) (auto simp: test_single_embedding_reserv_def split: if_splits)
qed

lemma prober_raises_on_malformed_vector:
  "fst (test_single_embedding_base tester_base0 ''m1'' ''Hello, world'' (world0 mixed)) =
     Inl (Exn TypeError ''object of type 'int' has no len()'')"
  "fst (test_single_embedding_reserv tester_reserv0 client_reserv0 ''m1'' ''Hello, world''
          (world0 mixed)) =
     Inl (Exn TypeError ''object of type 'int' has no len()'')"
  by (simp_all add: base_eval reserv_eval mixed_def)

subsection \<open>The attempt loop of the asynchronous client\<close>

lemma send_fields:
  "now (snd (send rq w)) = now w + latency_of w rq 0"
  "served (snd (send rq w)) = Suc (served w)"
  "service (snd (send rq w)) = service w"
  "trace (snd (send rq w)) = trace w @ [Sent rq]"
  "fst (send rq w) = outcome_of w rq 0"
  by (simp_all add: send_def latency_of_def outcome_of_def split: prod.splits)

lemma asyncio_sleep_fields:
  "now (asyncio_sleep d w) = now w + max d 0"
  "served (asyncio_sleep d w) = served w"
  "service (asyncio_sleep d w) = service w"
  "trace (asyncio_sleep d w) = trace w @ [Slept d]"
  by (simp_all add: asyncio_sleep_def)

lemma embedding_attempt_returns:
  assumes "returned_embedding (outcome_of w (embedding_request c m p) 0) = Some emb"
  shows "embedding_attempt c m p st w =
           (Inr (emb, now w + latency_of w (embedding_request c m p) 0 - st),
            snd (send (embedding_request c m p) w))"
proof -
  obtain out w' where s: "send (embedding_request c m p) w = (out, w')"
    by (cases "send (embedding_request c m p) w")
  have o: "out = outcome_of w (embedding_request c m p) 0"
    using send_fields(5)[of "embedding_request c m p" w] s by simp
  have n: "now w' = now w + latency_of w (embedding_request c m p) 0"
    using send_fields(1)[of "embedding_request c m p" w] s by simp
  from assms o have r: "returned_embedding out = Some emb" by simp
  show ?thesis
    using r n s
    by (cases out)
       (auto simp: embedding_attempt_def response_json_def Let_def
             split: option.splits sum.splits if_splits)
qed

lemma embedding_attempt_fails:
  assumes "returned_embedding (outcome_of w (embedding_request c m p) 0) = None"
  shows "\<exists>msg. embedding_attempt c m p st w = (Inl msg, snd (send (embedding_request c m p) w))"
proof -
  obtain out w' where s: "send (embedding_request c m p) w = (out, w')"
    by (cases "send (embedding_request c m p) w")
  have o: "out = outcome_of w (embedding_request c m p) 0"
    using send_fields(5)[of "embedding_request c m p" w] s by simp
  from assms o have r: "returned_embedding out = None" by simp
  show ?thesis
    using r s
    by (cases out)
       (auto simp: embedding_attempt_def response_json_def Let_def
             split: option.splits sum.splits if_splits)
qed

lemma after_failed_attempt:
  "latency_of (asyncio_sleep (2 ^ a) (snd (send rq w))) rq j = latency_of w rq (Suc j)"
  "outcome_of (asyncio_sleep (2 ^ a) (snd (send rq w))) rq j = outcome_of w rq (Suc j)"
  "now (asyncio_sleep (2 ^ a) (snd (send rq w))) = now w + latency_of w rq 0 + 2 ^ a"
  by (simp_all add: latency_of_def outcome_of_def asyncio_sleep_fields send_fields)

lemma attempt_loop_returns:
  assumes "\<forall>j<k. returned_embedding (outcome_of w (embedding_request c m p) j) = None"
    and "returned_embedding (outcome_of w (embedding_request c m p) k) = Some emb"
    and "a + k < nat retries"
  shows "fst (attempt_loop c m p retries st [a..<nat retries] le w) =
           (emb,
            now w + (\<Sum>j\<le>k. latency_of w (embedding_request c m p) j) + (\<Sum>j<k. 2 ^ (a + j)) - st,
            None)"
  using assms
proof (induction k arbitrary: a w le)
  case 0
  then have "a < nat retries" by simp
  then have l: "[a..<nat retries] = a # [Suc a..<nat retries]"
    by (simp add: upt_conv_Cons)
  show ?case
    using 0 by (simp add: l embedding_attempt_returns)
next
  case (Suc k)
  let ?rq = "embedding_request c m p"
  let ?w2 = "asyncio_sleep (2 ^ a) (snd (send ?rq w))"
  from Suc.prems have a: "a < nat retries" and a1: "int a < retries - 1" by auto
  have l: "[a..<nat retries] = a # [Suc a..<nat retries]"
    using a by (simp add: upt_conv_Cons)
  from Suc.prems(1) have "returned_embedding (outcome_of w ?rq 0) = None" by simp
  then obtain msg where f: "embedding_attempt c m p st w = (Inl msg, snd (send ?rq w))"
    using embedding_attempt_fails by blast
  have step: "attempt_loop c m p retries st [a..<nat retries] le w =
                attempt_loop c m p retries st [Suc a..<nat retries] (Some msg) ?w2"
    using a1 by (simp add: l f)
  have p1: "\<forall>j<k. returned_embedding (outcome_of ?w2 ?rq j) = None"
    using Suc.prems(1) by (simp add: after_failed_attempt)
  have p2: "returned_embedding (outcome_of ?w2 ?rq k) = Some emb"
    using Suc.prems(2) by (simp add: after_failed_attempt)
  have p3: "Suc a + k < nat retries"
    using Suc.prems(3) by simp
  have ih: "fst (attempt_loop c m p retries st [Suc a..<nat retries] (Some msg) ?w2) =
           (emb, now ?w2 + (\<Sum>j\<le>k. latency_of ?w2 ?rq j) + (\<Sum>j<k. 2 ^ (Suc a + j)) - st, None)"
    by (rule Suc.IH [OF p1 p2 p3])
  have s1: "(\<Sum>j\<le>Suc k. latency_of w ?rq j) = latency_of w ?rq 0 + (\<Sum>j\<le>k. latency_of w ?rq (Suc j))"
    by (rule sum.atMost_Suc_shift)
  have s2: "(\<Sum>j<Suc k. (2::real) ^ (a + j)) = 2 ^ a + (\<Sum>j<k. 2 ^ (Suc a + j))"
    using sum.lessThan_Suc_shift [of "\<lambda>j. (2::real) ^ (a + j)" k] by simp
  show ?case
    unfolding step ih s1 s2
    by (simp add: after_failed_attempt)
qed

lemma attempt_loop_exhausted:
  assumes "\<forall>j<n. returned_embedding (outcome_of w (embedding_request c m p) j) = None"
    and "a + n = nat retries"
  shows "fst (fst (attempt_loop c m p retries st [a..<nat retries] le w)) = JNull \<and>
         fst (snd (fst (attempt_loop c m p retries st [a..<nat retries] le w))) =
            now w + (\<Sum>j<n. latency_of w (embedding_request c m p) j) + (\<Sum>j<n - 1. 2 ^ (a + j)) - st \<and>
         (0 < n \<longrightarrow> snd (snd (fst (attempt_loop c m p retries st [a..<nat retries] le w))) \<noteq> None)"
  using assms
proof (induction n arbitrary: a w le)
  case 0
  then show ?case by simp
next
  case (Suc n)
  let ?rq = "embedding_request c m p"
  let ?w1 = "snd (send ?rq w)"
  let ?w2 = "if int a < retries - 1 then asyncio_sleep (2 ^ a) ?w1 else ?w1"
  from Suc.prems have a: "a < nat retries" by auto
  have l: "[a..<nat retries] = a # [Suc a..<nat retries]"
    using a by (simp add: upt_conv_Cons)
  from Suc.prems(1) have "returned_embedding (outcome_of w ?rq 0) = None" by simp
  then obtain msg where f: "embedding_attempt c m p st w = (Inl msg, ?w1)"
    using embedding_attempt_fails by blast
  have step: "attempt_loop c m p retries st [a..<nat retries] le w =
                attempt_loop c m p retries st [Suc a..<nat retries] (Some msg) ?w2"
    by (simp add: l f)
  show ?case
  proof (cases n)
    case 0
    with Suc.prems(2) have e: "Suc a = nat retries" by simp
    then have "\<not> int a < retries - 1" by linarith
    then show ?thesis
      unfolding step using 0 e [symmetric] by (simp add: send_fields)
  next
    case (Suc n')
    with Suc.prems(2) have a1: "int a < retries - 1" by linarith
    then have w2: "?w2 = asyncio_sleep (2 ^ a) ?w1" by simp
    have p1: "\<forall>j<n. returned_embedding (outcome_of ?w2 ?rq j) = None"
      unfolding w2 using Suc.prems(1) by (simp add: after_failed_attempt)
    have p2: "Suc a + n = nat retries"
      using Suc.prems(2) by simp
    note ih = Suc.IH [OF p1 p2]
    have s1: "(\<Sum>j<Suc n. latency_of w ?rq j) = latency_of w ?rq 0 + (\<Sum>j<n. latency_of w ?rq (Suc j))"
      by (rule sum.lessThan_Suc_shift)
    have s2: "(\<Sum>j<Suc n - 1. (2::real) ^ (a + j)) = 2 ^ a + (\<Sum>j<n - 1. 2 ^ (Suc a + j))"
      using sum.lessThan_Suc_shift [of "\<lambda>j. (2::real) ^ (a + j)" n'] Suc by simp
    show ?thesis
      unfolding step s1 s2 using ih Suc unfolding w2
      by (simp add: after_failed_attempt)
  qed
qed

text \<open>
  C10. In Variant\_reserv the duration that \<^verbatim>\<open>get_embedding\<close> returns runs from before the
  first attempt to the final outcome. When the first \<open>k\<close> attempts fail and attempt \<open>k\<close>
  returns, it is the sum of the latencies of all \<open>k + 1\<close> attempts plus the back-off sleeps
  \<open>2 ^ 0, \<dots>, 2 ^ (k - 1)\<close> between them; when all \<open>retries\<close> attempts fail, it is the sum
  of all their latencies plus the sleeps after every attempt but the last.
\<close>

theorem C10_duration_is_cumulative:
  "(k < nat retries \<and>
    (\<forall>j<k. returned_embedding (outcome_of w (embedding_request c m p) j) = None) \<and>
    returned_embedding (outcome_of w (embedding_request c m p) k) = Some emb
    \<longrightarrow> fst (get_embedding_reserv c m p retries w) =
          (emb, (\<Sum>j\<le>k. latency_of w (embedding_request c m p) j) + (\<Sum>j<k. 2 ^ j), None))
   \<and>
   ((\<forall>j<nat retries. returned_embedding (outcome_of w (embedding_request c m p) j) = None)
    \<longrightarrow> fst (fst (get_embedding_reserv c m p retries w)) = JNull \<and>
        fst (snd (fst (get_embedding_reserv c m p retries w))) =
          (\<Sum>j<nat retries. latency_of w (embedding_request c m p) j) + (\<Sum>j<nat retries - 1. 2 ^ j))"
proof (intro conjI impI)
  assume h: "k < nat retries \<and>
    (\<forall>j<k. returned_embedding (outcome_of w (embedding_request c m p) j) = None) \<and>
    returned_embedding (outcome_of w (embedding_request c m p) k) = Some emb"
  then have "0 + k < nat retries" by simp
  with h show "fst (get_embedding_reserv c m p retries w) =
          (emb, (\<Sum>j\<le>k. latency_of w (embedding_request c m p) j) + (\<Sum>j<k. 2 ^ j), None)"
    using attempt_loop_returns [of k w c m p emb 0 retries "now w" None]
    by (simp add: get_embedding_reserv_def)
next
  assume h: "\<forall>j<nat retries. returned_embedding (outcome_of w (embedding_request c m p) j) = None"
  have e: "0 + nat retries = nat retries" by simp
  note x = attempt_loop_exhausted [OF h e, of "now w" None]
  from x show "fst (fst (get_embedding_reserv c m p retries w)) = JNull"
    by (simp add: get_embedding_reserv_def)
  from x show "fst (snd (fst (get_embedding_reserv c m p retries w))) =
          (\<Sum>j<nat retries. latency_of w (embedding_request c m p) j) + (\<Sum>j<nat retries - 1. 2 ^ j)"
    by (simp add: get_embedding_reserv_def)
qed

lemmas service_eval =
  outcome_of_def latency_of_def world0_def embedding_request_def client_reserv0_def
  OllamaClient_init_reserv_def rstrip_slash_def All_less_Suc numeral_2_eq_2 numeral_3_eq_3
  response_json_def

theorem C10_duration_is_cumulative_witness:
  "fst (get_embedding_reserv client_reserv0 ''m1'' ''Hello, world'' 3 (world0 flaky)) =
     (JArr [JFloat 0.5, JFloat 0.25], 9, None) \<and>
   fst (snd (fst (get_embedding_reserv client_reserv0 ''m1'' ''Hello, world'' 3 (world0 unavailable)))) = 6"
proof
  show "fst (get_embedding_reserv client_reserv0 ''m1'' ''Hello, world'' 3 (world0 flaky)) =
     (JArr [JFloat 0.5, JFloat 0.25], 9, None)"
    using C10_duration_is_cumulative
            [of 2 3 "world0 flaky" client_reserv0 "''m1''" "''Hello, world''"
                "JArr [JFloat 0.5, JFloat 0.25]"]
    by (simp add: service_eval flaky_def)
  show "fst (snd (fst (get_embedding_reserv client_reserv0 ''m1'' ''Hello, world'' 3 (world0 unavailable)))) = 6"
    using C10_duration_is_cumulative
            [of 0 3 "world0 unavailable" client_reserv0 "''m1''" "''Hello, world''" JNull]
    by (simp add: service_eval unavailable_def)
qed

text \<open>
  C9. In Variant\_reserv, when the attempt that ends a probe is answered with status 200 and
  a JSON object whose \<^verbatim>\<open>embedding\<close> is the empty list, the measurement has
  \<open>success = False\<close> and no error description.
\<close>

theorem C9_empty_vector_fails_without_reason:
  assumes "k < nat (max_retries_reserv (config_reserv t))"
    and "\<forall>j<k. returned_embedding (outcome_of w (embedding_request c m txt) j) = None"
    and "outcome_of w (embedding_request c m txt) k = Answered r"
    and "status_code r = 200"
    and "body_json r = Some (JObj kvs)"
    and "map_of kvs ''embedding'' = Some (JArr [])"
  shows "fst (test_single_embedding_reserv t c m txt w) =
           Inr \<lparr>success_reserv = False,
                duration_reserv =
                  (\<Sum>j\<le>k. latency_of w (embedding_request c m txt) j) + (\<Sum>j<k. 2 ^ j),
                text_length_reserv = int (length txt),
                embedding_dim_reserv = None, tokens_per_second_reserv = None,
                error_message = None\<rparr>"
proof -
  have "returned_embedding (outcome_of w (embedding_request c m txt) k) = Some (JArr [])"
    using assms(3-6) by simp
  then have "fst (get_embedding_reserv c m txt (max_retries_reserv (config_reserv t)) w) =
          (JArr [], (\<Sum>j\<le>k. latency_of w (embedding_request c m txt) j) + (\<Sum>j<k. 2 ^ j), None)"
    using attempt_loop_returns [OF assms(2), of "JArr []" 0 "max_retries_reserv (config_reserv t)" "now w" None]
      assms(1)
    by (simp add: get_embedding_reserv_def)
  moreover obtain res w' where
    g: "get_embedding_reserv c m txt (max_retries_reserv (config_reserv t)) w = (res, w')"
    by (cases "get_embedding_reserv c m txt (max_retries_reserv (config_reserv t)) w")
  ultimately have
    "res = (JArr [], (\<Sum>j\<le>k. latency_of w (embedding_request c m txt) j) + (\<Sum>j<k. 2 ^ j), None)"
    by simp
  then show ?thesis
    by (simp add: test_single_embedding_reserv_def g)
qed

theorem C9_empty_vector_fails_without_reason_witness:
  "fst (test_single_embedding_reserv tester_reserv0 client_reserv0 ''m1'' ''Hello, world''
          (world0 empty_vector)) =
     Inr \<lparr>success_reserv = False, duration_reserv = 1, text_length_reserv = 12,
          embedding_dim_reserv = None, tokens_per_second_reserv = None,
          error_message = None\<rparr>"
  using C9_empty_vector_fails_without_reason
          [of 0 tester_reserv0 "world0 empty_vector" client_reserv0 "''m1''" "''Hello, world''"
              "\<lparr>status_code = 200, body_text = ''{...}'',
                body_json = Some (JObj [(''embedding'', JArr [])])\<rparr>"
              "[(''embedding'', JArr [])]"]
  by (simp add: service_eval empty_vector_def tester_reserv0_def config_reserv0_def)

subsection \<open>Aggregation and the two loops\<close>

lemma mean_nonempty: "xs \<noteq> [] \<Longrightarrow> mean xs = Inr (sum_list xs / real (length xs))"
  by (simp add: mean_def)

lemma median_nonempty:
  "xs \<noteq> [] \<Longrightarrow>
   median xs = Inr (if odd (length xs) then sort xs ! (length xs div 2)
                    else (sort xs ! (length xs div 2 - 1) + sort xs ! (length xs div 2)) / 2)"
  by (simp add: median_def Let_def)

lemma py_min_nonempty: "xs \<noteq> [] \<Longrightarrow> \<exists>v. py_min xs = Inr v"
  by (cases xs) simp_all

lemma py_max_nonempty: "xs \<noteq> [] \<Longrightarrow> \<exists>v. py_max xs = Inr v"
  by (cases xs) simp_all

lemma stdev_guarded: "\<exists>v. (if length xs > 1 then stdev xs else Inr 0) = Inr v"
  by (simp add: stdev_def Let_def)

lemma aggregate_reserv_failed:
  assumes "filter success_reserv ml = []"
  shows "\<exists>r. aggregate_reserv m ml = Inr r \<and> model_name r = m \<and> status_reserv r = FAILED \<and>
             total_tests_reserv r = int (length ml) \<and> successful_tests_reserv r = 0 \<and>
             failed_tests r = int (length (filter (\<lambda>x. \<not> success_reserv x) ml)) \<and>
             stats_absent_reserv r \<and> individual_metrics r = ml"
  using assms by (simp add: aggregate_reserv_def Let_def stats_absent_reserv_def)

lemma aggregate_reserv_success:
  assumes "filter success_reserv ml \<noteq> []"
  shows "\<exists>r. aggregate_reserv m ml = Inr r \<and> model_name r = m \<and> status_reserv r = SUCCESS \<and>
             total_tests_reserv r = int (length ml) \<and>
             successful_tests_reserv r = int (length (filter success_reserv ml)) \<and>
             failed_tests r = int (length (filter (\<lambda>x. \<not> success_reserv x) ml)) \<and>
             avg_duration_reserv r \<noteq> None \<and> min_duration_reserv r \<noteq> None \<and>
             max_duration_reserv r \<noteq> None \<and> median_duration r \<noteq> None \<and>
             (length (filter success_reserv ml) = 1 \<longrightarrow> std_duration_reserv r = Some 0) \<and>
             std_duration_reserv r \<noteq> None \<and>
             (avg_embedding_dim_reserv r \<noteq> None \<longleftrightarrow>
                (\<exists>x\<in>set ml. success_reserv x \<and> (\<exists>d. embedding_dim_reserv x = Some d \<and> d \<noteq> 0))) \<and>
             individual_metrics r = ml"
proof -
  let ?s = "filter success_reserv ml"
  let ?d = "map duration_reserv ?s"
  have ne: "?d \<noteq> []" using assms by simp
  obtain mn where mn: "py_min ?d = Inr mn" using py_min_nonempty [OF ne] by blast
  obtain mx where mx: "py_max ?d = Inr mx" using py_max_nonempty [OF ne] by blast
  obtain med where med: "median ?d = Inr med" using median_nonempty [OF ne] by blast
  obtain sd where sd: "(if length ?d > 1 then stdev ?d else Inr 0) = Inr sd"
    using stdev_guarded by blast
  have dims: "concat (map (\<lambda>x. case embedding_dim_reserv x of
                                   Some d \<Rightarrow> if d \<noteq> 0 then [real_of_int d] else []
                                 | None \<Rightarrow> []) ?s) \<noteq> [] \<longleftrightarrow>
        (\<exists>x\<in>set ml. success_reserv x \<and> (\<exists>d. embedding_dim_reserv x = Some d \<and> d \<noteq> 0))"
  proof -
    have "\<And>x. (case embedding_dim_reserv x of
                   Some d \<Rightarrow> if d \<noteq> 0 then [real_of_int d] else []
                 | None \<Rightarrow> []) \<noteq> [] \<longleftrightarrow> (\<exists>d. embedding_dim_reserv x = Some d \<and> d \<noteq> 0)"
      by (simp split: option.splits)
    then show ?thesis by auto
  qed
  show ?thesis
    using assms mn mx med sd dims
    apply (simp add: aggregate_reserv_def Let_def mean_nonempty [OF ne] del: One_nat_def)
    apply (auto simp: mean_def stdev_def Let_def split: if_splits)
    done
qed

lemma test_single_embedding_reserv_dimension:
  assumes "fst (test_single_embedding_reserv t c m txt w) = Inr x"
  shows "reports_dimension x"
proof -
  obtain emb d err w' where
    g: "get_embedding_reserv c m txt (max_retries_reserv (config_reserv t)) w = ((emb, d, err), w')"
    by (metis prod.exhaust)
  show ?thesis
  proof (cases "truthy emb")
    case False
    with assms g show ?thesis
      by (auto simp: test_single_embedding_reserv_def reports_dimension_def)
  next
    case True
    with assms g show ?thesis
      by (cases emb) (auto simp: test_single_embedding_reserv_def reports_dimension_def)
  qed
qed

lemma sample_loop_reserv_result:
  assumes "fst (sample_loop_reserv t c m idxs acc w) = Inr ml"
    and "\<forall>x\<in>set acc. reports_dimension x"
  shows "(\<forall>x\<in>set ml. reports_dimension x) \<and> length ml = length acc + length idxs"
  using assms
proof (induction idxs arbitrary: acc w)
  case Nil
  then show ?case by simp
next
  case (Cons i idxs)
  from Cons.prems(1) have ne: "test_texts_reserv t \<noteq> []"
    by (auto split: if_splits)
  let ?txt = "test_texts_reserv t ! (i mod length (test_texts_reserv t))"
  obtain res w1 where ts: "test_single_embedding_reserv t c m ?txt w = (res, w1)"
    by (cases "test_single_embedding_reserv t c m ?txt w")
  show ?case
  proof (cases res)
    case (Inl e)
    with Cons.prems(1) ne ts show ?thesis by simp
  next
    case (Inr x)
    with ts have "reports_dimension x"
      using test_single_embedding_reserv_dimension [of t c m ?txt w x] by simp
    with Cons.prems(2) have inv: "\<forall>y\<in>set (acc @ [x]). reports_dimension y" by simp
    from Cons.prems(1) ne ts Inr obtain w2 where
      "fst (sample_loop_reserv t c m idxs (acc @ [x]) w2) = Inr ml"
      by (simp split: if_splits)
    from Cons.IH [OF this inv] show ?thesis by simp
  qed
qed

lemma test_model_reserv_result:
  assumes "fst (test_model_reserv t c m w) = Inr r"
  shows "\<exists>ml. aggregate_reserv m ml = Inr r \<and> (\<forall>x\<in>set ml. reports_dimension x) \<and>
              length ml = nat (tests_per_model_reserv (config_reserv t))"
proof -
  let ?warm = "if warmup_requests (config_reserv t) > 0
               then warmup_loop t c m (nat (warmup_requests (config_reserv t))) w
               else (Inr (), w)"
  obtain u w1 where wu: "?warm = (u, w1)" by (cases ?warm)
  let ?loop = "sample_loop_reserv t c m [0..<nat (tests_per_model_reserv (config_reserv t))] [] w1"
  obtain res w2 where sl: "?loop = (res, w2)" by (cases ?loop)
  from assms wu sl obtain ml where ml: "res = Inr ml" and ag: "aggregate_reserv m ml = Inr r"
    unfolding test_model_reserv_def
    by (cases u; cases res) (simp_all split: if_splits)
  from sl ml have "fst ?loop = Inr ml" by simp
  from sample_loop_reserv_result [OF this] ag show ?thesis by auto
qed

lemma model_loop_reserv_all:
  assumes "\<And>m w r. fst (test_model_reserv t c m w) = Inr r \<Longrightarrow> P r"
    and "\<And>m e. P (errored_reserv t m e)"
    and "\<forall>r\<in>set acc. P r"
  shows "\<forall>r\<in>set (fst (model_loop_reserv t c ms acc w)). P r"
  using assms(3)
proof (induction ms arbitrary: acc w)
  case Nil
  then show ?case by simp
next
  case (Cons m ms)
  obtain res w' where tm: "test_model_reserv t c m w = (res, w')"
    by (cases "test_model_reserv t c m w")
  show ?case
  proof (cases res)
    case (Inl e)
    have "\<forall>r\<in>set (acc @ [errored_reserv t m e]). P r"
      using Cons.prems assms(2) by simp
    from Cons.IH [OF this] show ?thesis by (simp add: tm Inl)
  next
    case (Inr r)
    with tm have "P r" using assms(1) [of m w r] by simp
    with Cons.prems have "\<forall>y\<in>set (acc @ [r]). P y" by simp
    from Cons.IH [OF this] show ?thesis by (simp add: tm Inr)
  qed
qed

lemma run_tests_reserv_results:
  assumes "fst (run_tests_reserv t w) = Inr rep"
  shows "results_reserv rep =
           fst (model_loop_reserv t
                  (OllamaClient_init_reserv (ollama_url_reserv (config_reserv t))
                     (timeout_reserv (config_reserv t)))
                  (models_to_test_reserv t) []
                  (snd (health_check_reserv
                          (OllamaClient_init_reserv (ollama_url_reserv (config_reserv t))
                             (timeout_reserv (config_reserv t))) w)))"
  using assms unfolding run_tests_reserv_def Let_def
  by (auto split: if_splits prod.splits sum.splits)

lemma calculate_stats_returns:
  "\<exists>st. calculate_stats vals = Inr st \<and> (length vals = 1 \<longrightarrow> stat_std st = 0)"
proof (cases "vals = []")
  case True
  then show ?thesis by (simp add: calculate_stats_def)
next
  case False
  obtain mn where mn: "py_min vals = Inr mn" using py_min_nonempty [OF False] by blast
  obtain mx where mx: "py_max vals = Inr mx" using py_max_nonempty [OF False] by blast
  show ?thesis
    using False mn mx
    by (simp add: calculate_stats_def mean_nonempty stdev_def Let_def del: One_nat_def)
qed

lemma analyse_base_result:
  assumes "fst (analyse_base t m n results w) = Inr r"
  shows "mr_model r = m \<and> individual_results r = results \<and> total_tests_base r = n \<and>
         successful_tests_base r = int (length (filter success_base results)) \<and>
         (filter success_base results = [] \<longrightarrow>
            status_base r = FAILED_base \<and> stats_absent_base r) \<and>
         (filter success_base results \<noteq> [] \<longrightarrow>
            status_base r = SUCCESS_base \<and> duration_stats_present_base r \<and>
            (length (filter success_base results) = 1 \<longrightarrow> std_duration_base r = Some 0) \<and>
            (avg_embedding_dim_base r \<noteq> None \<longleftrightarrow> dimension_reported_base r))"
proof (cases "filter success_base results = []")
  case True
  with assms show ?thesis
    by (auto simp: analyse_base_def Let_def stats_absent_base_def)
next
  case False
  let ?s = "filter success_base results"
  let ?dims = "concat (map (\<lambda>r. case embedding_dim_base r of
                                   Some d \<Rightarrow> if d \<noteq> 0 then [real_of_int d] else []
                                 | None \<Rightarrow> []) ?s)"
  let ?tps = "concat (map (\<lambda>r. case tokens_per_second_base r of
                                   Some x \<Rightarrow> if x \<noteq> 0 then [x] else []
                                 | None \<Rightarrow> []) ?s)"
  obtain ds where ds: "calculate_stats (map duration_base ?s) = Inr ds"
    and ds1: "length ?s = 1 \<longrightarrow> stat_std ds = 0"
    using calculate_stats_returns [of "map duration_base ?s"] by auto
  obtain dm where dm: "calculate_stats ?dims = Inr dm"
    using calculate_stats_returns [of ?dims] by auto
  obtain tp where tp: "calculate_stats ?tps = Inr tp"
    using calculate_stats_returns [of ?tps] by auto
  have dims: "?dims \<noteq> [] \<longleftrightarrow>
        (\<exists>x\<in>set results. success_base x \<and> (\<exists>d. embedding_dim_base x = Some d \<and> d \<noteq> 0))"
  proof -
    have "\<And>x. (case embedding_dim_base x of
                   Some d \<Rightarrow> if d \<noteq> 0 then [real_of_int d] else []
                 | None \<Rightarrow> []) \<noteq> [] \<longleftrightarrow> (\<exists>d. embedding_dim_base x = Some d \<and> d \<noteq> 0)"
      by (simp split: option.splits)
    then show ?thesis by auto
  qed
  obtain gi w1 where gi: "get_model_info (client_base t) m w = (gi, w1)"
    by (cases "get_model_info (client_base t) m w")
  from assms False ds dm tp gi dims ds1 show ?thesis
    unfolding analyse_base_def Let_def
    by (cases gi; cases "?dims = []"; cases "?tps = []")
       (auto simp: duration_stats_present_base_def dimension_reported_base_def
             split: if_splits json.splits)
qed

lemma test_model_base_result:
  assumes "fst (test_model_base t m a w) = Inr r"
  shows "\<exists>n results w1. fst (analyse_base t m n results w1) = Inr r"
proof -
  let ?n = "case a of Some k \<Rightarrow> if k \<noteq> 0 then k else tests_per_model_base (config_base t)
            | None \<Rightarrow> tests_per_model_base (config_base t)"
  obtain res w1 where sl: "sample_loop_base t m ?n [0..<nat ?n] [] w = (res, w1)"
    by (cases "sample_loop_base t m ?n [0..<nat ?n] [] w")
  from assms sl show ?thesis
    unfolding test_model_base_def Let_def
    by (cases res) auto
qed

lemma model_loop_base_all:
  assumes "\<And>m w r. fst (test_model_base t m None w) = Inr r \<Longrightarrow> P r"
    and "\<And>m e. P (errored_base t m e)"
    and "\<forall>r\<in>set acc. P r"
  shows "\<forall>r\<in>set (fst (model_loop_base t ms acc w)). P r"
  using assms(3)
proof (induction ms arbitrary: acc w)
  case Nil
  then show ?case by simp
next
  case (Cons m ms)
  obtain res w' where tm: "test_model_base t m None w = (res, w')"
    by (cases "test_model_base t m None w")
  show ?case
  proof (cases res)
    case (Inl e)
    have "\<forall>r\<in>set (acc @ [errored_base t m e]). P r"
      using Cons.prems assms(2) by simp
    from Cons.IH [OF this] show ?thesis by (simp add: tm Inl)
  next
    case (Inr r)
    with tm have "P r" using assms(1) [of m w r] by simp
    with Cons.prems have "\<forall>y\<in>set (acc @ [r]). P y" by simp
    from Cons.IH [OF this] show ?thesis by (simp add: tm Inr)
  qed
qed

lemma run_tests_base_results:
  assumes "fst (run_tests_base t a w) = Inr rep"
  shows "results_base rep =
           fst (model_loop_base t (models_to_test_base t a) []
                  (snd (health_check_base (client_base t) w)))"
  using assms unfolding run_tests_base_def Let_def
  by (auto split: if_splits prod.splits sum.splits)

lemma run_tests_reserv_all:
  assumes "\<And>c m w r. fst (test_model_reserv t c m w) = Inr r \<Longrightarrow> P r"
    and "\<And>m e. P (errored_reserv t m e)"
    and "fst (run_tests_reserv t w) = Inr rep"
  shows "\<forall>r\<in>set (results_reserv rep). P r"
  unfolding run_tests_reserv_results [OF assms(3)]
  by (rule model_loop_reserv_all) (use assms(1,2) in simp_all)

lemma run_tests_base_all:
  assumes "\<And>m w r. fst (test_model_base t m None w) = Inr r \<Longrightarrow> P r"
    and "\<And>m e. P (errored_base t m e)"
    and "fst (run_tests_base t a w) = Inr rep"
  shows "\<forall>r\<in>set (results_base rep). P r"
  unfolding run_tests_base_results [OF assms(3)]
  by (rule model_loop_base_all) (use assms(1,2) in simp_all)

subsection \<open>Invariants of the Model Result\<close>

lemma test_model_reserv_counts:
  assumes "fst (test_model_reserv t c m w) = Inr r"
  shows "successful_tests_reserv r + failed_tests r = total_tests_reserv r"
proof -
  from test_model_reserv_result [OF assms] obtain ml where ag: "aggregate_reserv m ml = Inr r"
    by blast
  have len: "length (filter success_reserv ml) + length (filter (\<lambda>x. \<not> success_reserv x) ml) = length ml"
    by (rule sum_length_filter_compl)
  show ?thesis
  proof (cases "filter success_reserv ml = []")
    case True
    from aggregate_reserv_failed [OF True, of m] ag len True show ?thesis by auto
  next
    case False
    from aggregate_reserv_success [OF False, of m] ag len show ?thesis by auto
  qed
qed

text \<open>
  C4. Every Model Result that the Model Test Runner returns, every result that the
  Orchestrator builds for a runner that raised, and so every result of a report, has
  \<open>successful_tests + failed_tests = total_tests\<close>. The field \<open>failed_tests\<close> exists in
  Variant\_reserv only; the Model Result of Variant\_base has no such field.
\<close>

theorem C4_successful_plus_failed_is_total:
  "(fst (test_model_reserv t c m w) = Inr r \<longrightarrow>
      successful_tests_reserv r + failed_tests r = total_tests_reserv r) \<and>
   successful_tests_reserv (errored_reserv t m e) + failed_tests (errored_reserv t m e) =
      total_tests_reserv (errored_reserv t m e) \<and>
   (fst (run_tests_reserv t w) = Inr rep \<longrightarrow>
      (\<forall>x\<in>set (results_reserv rep).
         successful_tests_reserv x + failed_tests x = total_tests_reserv x))"
proof (intro conjI impI)
  assume "fst (test_model_reserv t c m w) = Inr r"
  then show "successful_tests_reserv r + failed_tests r = total_tests_reserv r"
    by (rule test_model_reserv_counts)
next
  show "successful_tests_reserv (errored_reserv t m e) + failed_tests (errored_reserv t m e) =
      total_tests_reserv (errored_reserv t m e)"
    by (simp add: errored_reserv_def)
next
  assume "fst (run_tests_reserv t w) = Inr rep"
  then show "\<forall>x\<in>set (results_reserv rep).
         successful_tests_reserv x + failed_tests x = total_tests_reserv x"
    by (rule run_tests_reserv_all [rotated 2])
       (simp_all add: test_model_reserv_counts errored_reserv_def)
qed

theorem C4_successful_plus_failed_is_total_witness:
  "list_all (\<lambda>x. successful_tests_reserv x + failed_tests x = total_tests_reserv x)
     (case_sum (\<lambda>e. []) results_reserv (fst (run_tests_reserv tester_reserv0 (world0 mixed)))) \<and>
   map total_tests_reserv
     (case_sum (\<lambda>e. []) results_reserv (fst (run_tests_reserv tester_reserv0 (world0 mixed)))) = [1, 1]"
proof -
  obtain rep where r: "fst (run_tests_reserv tester_reserv0 (world0 mixed)) = Inr rep"
    and t: "map total_tests_reserv (results_reserv rep) = [1, 1]"
    by (simp add: reserv_eval mixed_def create_summary_reserv_def)
  from C4_successful_plus_failed_is_total [where t = tester_reserv0 and w = "world0 mixed" and rep = rep] r
  have "\<forall>x\<in>set (results_reserv rep).
         successful_tests_reserv x + failed_tests x = total_tests_reserv x"
    by simp
  with r t show ?thesis by (simp add: list_all_iff)
qed

lemma test_model_reserv_single:
  assumes "fst (test_model_reserv t c m w) = Inr r" and "successful_tests_reserv r = 1"
  shows "std_duration_reserv r = Some 0"
proof -
  from test_model_reserv_result [OF assms(1)] obtain ml where ag: "aggregate_reserv m ml = Inr r"
    by blast
  show ?thesis
  proof (cases "filter success_reserv ml = []")
    case True
    from aggregate_reserv_failed [OF True, of m] ag assms(2) show ?thesis by auto
  next
    case False
    from aggregate_reserv_success [OF False, of m] ag assms(2) show ?thesis by auto
  qed
qed

lemma test_model_base_single:
  assumes "fst (test_model_base t m a w) = Inr r" and "successful_tests_base r = 1"
  shows "std_duration_base r = Some 0"
proof -
  from test_model_base_result [OF assms(1)] obtain n results w1 where
    "fst (analyse_base t m n results w1) = Inr r" by blast
  from analyse_base_result [OF this] assms(2) show ?thesis
    by (cases "filter success_base results = []") auto
qed

text \<open>
  C8. A Model Result with exactly one successful measurement has standard deviation 0 of
  the duration, in both variants, whether read from the runner or from a report.
\<close>

theorem C8_single_success_has_zero_deviation:
  "(fst (test_model_base tb m a w) = Inr rb \<and> successful_tests_base rb = 1 \<longrightarrow>
      std_duration_base rb = Some 0) \<and>
   (fst (run_tests_base tb ms w) = Inr repb \<longrightarrow>
      (\<forall>x\<in>set (results_base repb). successful_tests_base x = 1 \<longrightarrow> std_duration_base x = Some 0)) \<and>
   (fst (test_model_reserv t c m w) = Inr r \<and> successful_tests_reserv r = 1 \<longrightarrow>
      std_duration_reserv r = Some 0) \<and>
   (fst (run_tests_reserv t w) = Inr rep \<longrightarrow>
      (\<forall>x\<in>set (results_reserv rep).
         successful_tests_reserv x = 1 \<longrightarrow> std_duration_reserv x = Some 0))"
proof (intro conjI impI)
  assume "fst (test_model_base tb m a w) = Inr rb \<and> successful_tests_base rb = 1"
  then show "std_duration_base rb = Some 0"
    using test_model_base_single by blast
next
  assume "fst (run_tests_base tb ms w) = Inr repb"
  then show "\<forall>x\<in>set (results_base repb). successful_tests_base x = 1 \<longrightarrow> std_duration_base x = Some 0"
    by (rule run_tests_base_all [rotated 2])
       (simp_all add: test_model_base_single errored_base_def)
next
  assume "fst (test_model_reserv t c m w) = Inr r \<and> successful_tests_reserv r = 1"
  then show "std_duration_reserv r = Some 0"
    using test_model_reserv_single by blast
next
  assume "fst (run_tests_reserv t w) = Inr rep"
  then show "\<forall>x\<in>set (results_reserv rep).
         successful_tests_reserv x = 1 \<longrightarrow> std_duration_reserv x = Some 0"
    by (rule run_tests_reserv_all [rotated 2])
       (simp_all add: test_model_reserv_single errored_reserv_def)
qed

theorem C8_single_success_has_zero_deviation_witness:
  "map_sum str successful_tests_base (fst (test_model_base tester_base0 ''m2'' None (world0 mixed))) = Inr 1 \<and>
   map_sum str std_duration_base (fst (test_model_base tester_base0 ''m2'' None (world0 mixed))) = Inr (Some 0) \<and>
   map_sum str successful_tests_reserv
     (fst (test_model_reserv tester_reserv0 client_reserv0 ''m2'' (world0 mixed))) = Inr 1 \<and>
   map_sum str std_duration_reserv
     (fst (test_model_reserv tester_reserv0 client_reserv0 ''m2'' (world0 mixed))) = Inr (Some 0)"
proof -
  obtain rb where b: "fst (test_model_base tester_base0 ''m2'' None (world0 mixed)) = Inr rb"
    and b1: "successful_tests_base rb = 1"
    by (simp add: base_eval mixed_def)
  obtain r where a: "fst (test_model_reserv tester_reserv0 client_reserv0 ''m2'' (world0 mixed)) = Inr r"
    and a1: "successful_tests_reserv r = 1"
    by (simp add: reserv_eval mixed_def)
  from C8_single_success_has_zero_deviation
         [where tb = tester_base0 and m = "''m2''" and a = None and w = "world0 mixed" and rb = rb
            and t = tester_reserv0 and c = client_reserv0 and r = r]
       a a1 b b1
  show ?thesis by simp
qed

lemma test_model_reserv_stats:
  assumes "fst (test_model_reserv t c m w) = Inr r"
  shows "if 0 < successful_tests_reserv r then stats_present_reserv r else stats_absent_reserv r"
proof -
  from test_model_reserv_result [OF assms] obtain ml where ag: "aggregate_reserv m ml = Inr r"
    and dims: "\<forall>x\<in>set ml. reports_dimension x"
    by blast
  show ?thesis
  proof (cases "filter success_reserv ml = []")
    case True
    from aggregate_reserv_failed [OF True, of m] ag show ?thesis by auto
  next
    case False
    then obtain x where x: "x \<in> set ml" "success_reserv x"
      by (auto simp: filter_empty_conv)
    with dims have "\<exists>x\<in>set ml. success_reserv x \<and> (\<exists>d. embedding_dim_reserv x = Some d \<and> d \<noteq> 0)"
      by (auto simp: reports_dimension_def)
    moreover from False have "0 < length (filter success_reserv ml)" by simp
    ultimately show ?thesis
      using aggregate_reserv_success [OF False, of m] ag
      by (auto simp: stats_present_reserv_def)
  qed
qed

lemma test_model_base_stats:
  assumes "fst (test_model_base t m a w) = Inr r"
  shows "if 0 < successful_tests_base r
         then duration_stats_present_base r \<and>
              (avg_embedding_dim_base r \<noteq> None \<longleftrightarrow> dimension_reported_base r)
         else stats_absent_base r"
proof -
  from test_model_base_result [OF assms] obtain n results w1 where
    "fst (analyse_base t m n results w1) = Inr r" by blast
  from analyse_base_result [OF this] show ?thesis
    by (cases "filter success_base results = []") auto
qed

text \<open>
  C5 (as amended). For every Model Result of the runner or of a report: the duration
  statistics are present exactly when \<open>successful_tests > 0\<close>, and with no success every
  statistics field is absent. The mean dimensionality is present exactly when
  \<open>successful_tests > 0\<close> in Variant\_reserv; in Variant\_base it is present exactly when
  some successful measurement reports a dimensionality other than 0.
\<close>

theorem C5_statistics_present_iff_successes:
  "(fst (test_model_reserv t c m w) = Inr r \<longrightarrow>
      (if 0 < successful_tests_reserv r then stats_present_reserv r else stats_absent_reserv r)) \<and>
   (fst (run_tests_reserv t w) = Inr rep \<longrightarrow>
      (\<forall>x\<in>set (results_reserv rep).
         if 0 < successful_tests_reserv x then stats_present_reserv x else stats_absent_reserv x)) \<and>
   (fst (test_model_base tb m a w) = Inr rb \<longrightarrow>
      (if 0 < successful_tests_base rb
       then duration_stats_present_base rb \<and>
            (avg_embedding_dim_base rb \<noteq> None \<longleftrightarrow> dimension_reported_base rb)
       else stats_absent_base rb)) \<and>
   (fst (run_tests_base tb ms w) = Inr repb \<longrightarrow>
      (\<forall>x\<in>set (results_base repb).
         if 0 < successful_tests_base x
         then duration_stats_present_base x \<and>
              (avg_embedding_dim_base x \<noteq> None \<longleftrightarrow> dimension_reported_base x)
         else stats_absent_base x))"
proof (intro conjI impI)
  assume "fst (test_model_reserv t c m w) = Inr r"
  then show "if 0 < successful_tests_reserv r then stats_present_reserv r else stats_absent_reserv r"
    by (rule test_model_reserv_stats)
next
  assume "fst (run_tests_reserv t w) = Inr rep"
  then show "\<forall>x\<in>set (results_reserv rep).
         if 0 < successful_tests_reserv x then stats_present_reserv x else stats_absent_reserv x"
  proof (rule run_tests_reserv_all [rotated 2])
    fix c m w r
    assume "fst (test_model_reserv t c m w) = Inr r"
    then show "if 0 < successful_tests_reserv r then stats_present_reserv r else stats_absent_reserv r"
      by (rule test_model_reserv_stats)
  next
    fix m e
    show "if 0 < successful_tests_reserv (errored_reserv t m e)
          then stats_present_reserv (errored_reserv t m e)
          else stats_absent_reserv (errored_reserv t m e)"
      by (simp add: errored_reserv_def stats_absent_reserv_def)
  qed
next
  assume "fst (test_model_base tb m a w) = Inr rb"
  then show "if 0 < successful_tests_base rb
       then duration_stats_present_base rb \<and>
            (avg_embedding_dim_base rb \<noteq> None \<longleftrightarrow> dimension_reported_base rb)
       else stats_absent_base rb"
    by (rule test_model_base_stats)
next
  assume "fst (run_tests_base tb ms w) = Inr repb"
  then show "\<forall>x\<in>set (results_base repb).
         if 0 < successful_tests_base x
         then duration_stats_present_base x \<and>
              (avg_embedding_dim_base x \<noteq> None \<longleftrightarrow> dimension_reported_base x)
         else stats_absent_base x"
  proof (rule run_tests_base_all [rotated 2])
    fix m w r
    assume "fst (test_model_base tb m None w) = Inr r"
    then show "if 0 < successful_tests_base r
         then duration_stats_present_base r \<and>
              (avg_embedding_dim_base r \<noteq> None \<longleftrightarrow> dimension_reported_base r)
         else stats_absent_base r"
      by (rule test_model_base_stats)
  next
    fix m e
    show "if 0 < successful_tests_base (errored_base tb m e)
         then duration_stats_present_base (errored_base tb m e) \<and>
              (avg_embedding_dim_base (errored_base tb m e) \<noteq> None \<longleftrightarrow>
               dimension_reported_base (errored_base tb m e))
         else stats_absent_base (errored_base tb m e)"
      by (simp add: errored_base_def stats_absent_base_def)
  qed
qed

text \<open>
  C5 as stated fails on Variant\_base: a service that answers 200 without an
  \<^verbatim>\<open>embedding\<close> gives a result with one success and a mean duration, and no mean
  dimensionality.
\<close>

theorem C5_base_success_without_dimension:
  "map_sum str successful_tests_base
     (fst (test_model_base tester_base0 ''m1'' None (world0 no_embedding))) = Inr 1 \<and>
   map_sum str avg_duration_base
     (fst (test_model_base tester_base0 ''m1'' None (world0 no_embedding))) = Inr (Some 1) \<and>
   map_sum str avg_embedding_dim_base
     (fst (test_model_base tester_base0 ''m1'' None (world0 no_embedding))) = Inr None"
  by (simp add: base_eval no_embedding_def)

theorem C5_statistics_present_iff_successes_witness:
  "list_all (\<lambda>x. if 0 < successful_tests_reserv x then stats_present_reserv x else stats_absent_reserv x)
     (case_sum (\<lambda>e. []) results_reserv (fst (run_tests_reserv tester_reserv0 (world0 mixed)))) \<and>
   map successful_tests_reserv
     (case_sum (\<lambda>e. []) results_reserv (fst (run_tests_reserv tester_reserv0 (world0 mixed)))) = [0, 1] \<and>
   list_all (\<lambda>x. if 0 < successful_tests_base x
                  then duration_stats_present_base x \<and>
                       (avg_embedding_dim_base x \<noteq> None \<longleftrightarrow> dimension_reported_base x)
                  else stats_absent_base x)
     (case_sum (\<lambda>e. []) results_base (fst (run_tests_base tester_base0 None (world0 mixed)))) \<and>
   map successful_tests_base
     (case_sum (\<lambda>e. []) results_base (fst (run_tests_base tester_base0 None (world0 mixed)))) = [0, 1]"
proof -
  obtain rep where r: "fst (run_tests_reserv tester_reserv0 (world0 mixed)) = Inr rep"
    and s: "map successful_tests_reserv (results_reserv rep) = [0, 1]"
    by (simp add: reserv_eval mixed_def create_summary_reserv_def)
  obtain repb where rb: "fst (run_tests_base tester_base0 None (world0 mixed)) = Inr repb"
    and sb: "map successful_tests_base (results_base repb) = [0, 1]"
    by (simp add: base_eval mixed_def create_summary_base_def)
  from C5_statistics_present_iff_successes
         [where t = tester_reserv0 and w = "world0 mixed" and rep = rep
            and tb = tester_base0 and ms = None and repb = repb] r rb
  have "(\<forall>x\<in>set (results_reserv rep).
           if 0 < successful_tests_reserv x then stats_present_reserv x else stats_absent_reserv x) \<and>
        (\<forall>x\<in>set (results_base repb).
           if 0 < successful_tests_base x
           then duration_stats_present_base x \<and>
                (avg_embedding_dim_base x \<noteq> None \<longleftrightarrow> dimension_reported_base x)
           else stats_absent_base x)"
    by blast
  with r s rb sb show ?thesis by (simp add: list_all_iff)
qed

subsection \<open>The Orchestrator's loop over the models\<close>

lemma test_model_reserv_name:
  assumes "fst (test_model_reserv t c m w) = Inr r"
  shows "model_name r = m"
proof -
  from test_model_reserv_result [OF assms] obtain ml where ag: "aggregate_reserv m ml = Inr r"
    by blast
  show ?thesis
  proof (cases "filter success_reserv ml = []")
    case True
    from aggregate_reserv_failed [OF True, of m] ag show ?thesis by auto
  next
    case False
    from aggregate_reserv_success [OF False, of m] ag show ?thesis by auto
  qed
qed

lemma test_model_base_name:
  assumes "fst (test_model_base t m a w) = Inr r"
  shows "mr_model r = m"
proof -
  from test_model_base_result [OF assms] obtain n results w1 where
    "fst (analyse_base t m n results w1) = Inr r" by blast
  from analyse_base_result [OF this] show ?thesis by simp
qed

lemma model_loop_reserv_append:
  "model_loop_reserv t c (xs @ ys) acc w =
     (case model_loop_reserv t c xs acc w of (rs, w') \<Rightarrow> model_loop_reserv t c ys rs w')"
  by (induction xs arbitrary: acc w) (auto split: prod.splits sum.splits)

lemma model_loop_reserv_acc:
  "fst (model_loop_reserv t c ms acc w) = acc @ fst (model_loop_reserv t c ms [] w) \<and>
   snd (model_loop_reserv t c ms acc w) = snd (model_loop_reserv t c ms [] w)"
proof (induction ms arbitrary: acc w)
  case Nil
  then show ?case by simp
next
  case (Cons m ms)
  obtain res w' where tm: "test_model_reserv t c m w = (res, w')"
    by (cases "test_model_reserv t c m w")
  show ?case
  proof (cases res)
    case (Inl e)
    show ?thesis
      using Cons.IH [of "acc @ [errored_reserv t m e]" w'] Cons.IH [of "[errored_reserv t m e]" w']
      by (simp add: tm Inl)
  next
    case (Inr r)
    show ?thesis
      using Cons.IH [of "acc @ [r]" w'] Cons.IH [of "[r]" w']
      by (simp add: tm Inr)
  qed
qed

lemma model_loop_reserv_names:
  "map model_name (fst (model_loop_reserv t c ms acc w)) = map model_name acc @ ms"
proof (induction ms arbitrary: acc w)
  case Nil
  then show ?case by simp
next
  case (Cons m ms)
  obtain res w' where tm: "test_model_reserv t c m w = (res, w')"
    by (cases "test_model_reserv t c m w")
  show ?case
  proof (cases res)
    case (Inl e)
    show ?thesis
      using Cons.IH [of "acc @ [errored_reserv t m e]" w']
      by (simp add: tm Inl errored_reserv_def)
  next
    case (Inr r)
    with tm have "model_name r = m"
      using test_model_reserv_name [of t c m w r] by simp
    then show ?thesis
      using Cons.IH [of "acc @ [r]" w'] by (simp add: tm Inr)
  qed
qed

lemma model_loop_reserv_raise:
  assumes "model_loop_reserv t c ms1 [] w = (rs1, w1)"
    and "test_model_reserv t c m w1 = (Inl e, w2)"
    and "model_loop_reserv t c ms2 [] w2 = (rs2, w3)"
  shows "model_loop_reserv t c (ms1 @ m # ms2) [] w = (rs1 @ errored_reserv t m e # rs2, w3)"
proof -
  have "model_loop_reserv t c (ms1 @ m # ms2) [] w = model_loop_reserv t c (m # ms2) rs1 w1"
    by (simp add: model_loop_reserv_append assms(1))
  also have "\<dots> = model_loop_reserv t c ms2 (rs1 @ [errored_reserv t m e]) w2"
    by (simp add: assms(2))
  also have "\<dots> = (rs1 @ errored_reserv t m e # rs2, w3)"
    using model_loop_reserv_acc [of t c ms2 "rs1 @ [errored_reserv t m e]" w2] assms(3)
    by (simp add: prod_eq_iff)
  finally show ?thesis .
qed

lemma model_loop_base_append:
  "model_loop_base t (xs @ ys) acc w =
     (case model_loop_base t xs acc w of (rs, w') \<Rightarrow> model_loop_base t ys rs w')"
  by (induction xs arbitrary: acc w) (auto split: prod.splits sum.splits)

lemma model_loop_base_acc:
  "fst (model_loop_base t ms acc w) = acc @ fst (model_loop_base t ms [] w) \<and>
   snd (model_loop_base t ms acc w) = snd (model_loop_base t ms [] w)"
proof (induction ms arbitrary: acc w)
  case Nil
  then show ?case by simp
next
  case (Cons m ms)
  obtain res w' where tm: "test_model_base t m None w = (res, w')"
    by (cases "test_model_base t m None w")
  show ?case
  proof (cases res)
    case (Inl e)
    show ?thesis
      using Cons.IH [of "acc @ [errored_base t m e]" w'] Cons.IH [of "[errored_base t m e]" w']
      by (simp add: tm Inl)
  next
    case (Inr r)
    show ?thesis
      using Cons.IH [of "acc @ [r]" w'] Cons.IH [of "[r]" w']
      by (simp add: tm Inr)
  qed
qed

lemma model_loop_base_names:
  "map mr_model (fst (model_loop_base t ms acc w)) = map mr_model acc @ ms"
proof (induction ms arbitrary: acc w)
  case Nil
  then show ?case by simp
next
  case (Cons m ms)
  obtain res w' where tm: "test_model_base t m None w = (res, w')"
    by (cases "test_model_base t m None w")
  show ?case
  proof (cases res)
    case (Inl e)
    show ?thesis
      using Cons.IH [of "acc @ [errored_base t m e]" w']
      by (simp add: tm Inl errored_base_def)
  next
    case (Inr r)
    with tm have "mr_model r = m"
      using test_model_base_name [of t m None w r] by simp
    then show ?thesis
      using Cons.IH [of "acc @ [r]" w'] by (simp add: tm Inr)
  qed
qed

lemma model_loop_base_raise:
  assumes "model_loop_base t ms1 [] w = (rs1, w1)"
    and "test_model_base t m None w1 = (Inl e, w2)"
    and "model_loop_base t ms2 [] w2 = (rs2, w3)"
  shows "model_loop_base t (ms1 @ m # ms2) [] w = (rs1 @ errored_base t m e # rs2, w3)"
proof -
  have "model_loop_base t (ms1 @ m # ms2) [] w = model_loop_base t (m # ms2) rs1 w1"
    by (simp add: model_loop_base_append assms(1))
  also have "\<dots> = model_loop_base t ms2 (rs1 @ [errored_base t m e]) w2"
    by (simp add: assms(2))
  also have "\<dots> = (rs1 @ errored_base t m e # rs2, w3)"
    using model_loop_base_acc [of t ms2 "rs1 @ [errored_base t m e]" w2] assms(3)
    by (simp add: prod_eq_iff)
  finally show ?thesis .
qed

lemma run_tests_base_returns:
  assumes "fst (health_check_base (client_base tb) w) = Inr True"
  shows "\<exists>rep. fst (run_tests_base tb a w) = Inr rep \<and>
           results_base rep =
             fst (model_loop_base tb (or_list a (or_list (models_base (config_base tb)) ALL_MODELS)) []
                    (snd (health_check_base (client_base tb) w))) \<and>
           map mr_model (results_base rep) =
             or_list a (or_list (models_base (config_base tb)) ALL_MODELS)"
proof -
  obtain w' where h: "health_check_base (client_base tb) w = (Inr True, w')"
    using assms by (cases "health_check_base (client_base tb) w") simp
  obtain rs w'' where l: "model_loop_base tb (models_to_test_base tb a) [] w' = (rs, w'')"
    by (cases "model_loop_base tb (models_to_test_base tb a) [] w'")
  have n: "map mr_model rs = models_to_test_base tb a"
    using model_loop_base_names [of tb "models_to_test_base tb a" "[]" w'] l by simp
  show ?thesis
    using h l n by (simp add: run_tests_base_def Let_def models_to_test_base_def)
qed

lemma run_tests_reserv_returns:
  assumes "docker_ok t w" and "fst (health_check_reserv (client_of_reserv t) w) = Inr True"
  shows "\<exists>rep. fst (run_tests_reserv t w) = Inr rep \<and>
           results_reserv rep =
             fst (model_loop_reserv t (client_of_reserv t)
                    (or_list (models_reserv (config_reserv t)) DEFAULT_MODELS) []
                    (snd (health_check_reserv (client_of_reserv t) w))) \<and>
           map model_name (results_reserv rep) =
             or_list (models_reserv (config_reserv t)) DEFAULT_MODELS"
proof -
  obtain w' where h: "health_check_reserv (client_of_reserv t) w = (Inr True, w')"
    using assms(2) by (cases "health_check_reserv (client_of_reserv t) w") simp
  obtain rs w'' where
    l: "model_loop_reserv t (client_of_reserv t) (models_to_test_reserv t) [] w' = (rs, w'')"
    by (cases "model_loop_reserv t (client_of_reserv t) (models_to_test_reserv t) [] w'")
  have n: "map model_name rs = models_to_test_reserv t"
    using model_loop_reserv_names [of t "client_of_reserv t" "models_to_test_reserv t" "[]" w'] l
    by simp
  show ?thesis
    using h l n assms(1)
    by (auto simp: run_tests_reserv_def Let_def models_to_test_reserv_def docker_ok_def
          client_of_reserv_def)
qed

text \<open>
  C3. In both variants: when the runner raises \<open>e\<close> for the model \<open>m\<close> that follows the
  models \<open>ms1\<close>, the loop appends the Errored result of \<open>m\<close> (status ERROR, no success,
  the message of \<open>e\<close> as error text) after the results of \<open>ms1\<close> and goes on with the
  remaining models \<open>ms2\<close> from the world the failed runner left. The results of a report
  are those of the loop over the configured models, one per model and in their order; and
  once the liveness check has passed, \<^verbatim>\<open>run_tests\<close> does return a report, whatever the
  runner raises, with one result for each model of the configured list (the models given,
  else those of the configuration, else the default list) in the order of that list.
\<close>

theorem C3_runner_fault_becomes_errored_result:
  "(docker_ok t w \<and> fst (health_check_reserv (client_of_reserv t) w) = Inr True \<longrightarrow>
      (\<exists>r. fst (run_tests_reserv t w) = Inr r \<and>
           results_reserv r =
             fst (model_loop_reserv t (client_of_reserv t)
                    (or_list (models_reserv (config_reserv t)) DEFAULT_MODELS) []
                    (snd (health_check_reserv (client_of_reserv t) w))) \<and>
           map model_name (results_reserv r) =
             or_list (models_reserv (config_reserv t)) DEFAULT_MODELS)) \<and>
   (fst (health_check_base (client_base tb) w) = Inr True \<longrightarrow>
      (\<exists>r. fst (run_tests_base tb a w) = Inr r \<and>
           results_base r =
             fst (model_loop_base tb (or_list a (or_list (models_base (config_base tb)) ALL_MODELS)) []
                    (snd (health_check_base (client_base tb) w))) \<and>
           map mr_model (results_base r) =
             or_list a (or_list (models_base (config_base tb)) ALL_MODELS))) \<and>
   (model_loop_reserv t c ms1 [] w = (rs1, w1) \<and> test_model_reserv t c m w1 = (Inl e, w2) \<and>
    model_loop_reserv t c ms2 [] w2 = (rs2, w3)
    \<longrightarrow> model_loop_reserv t c (ms1 @ m # ms2) [] w = (rs1 @ errored_reserv t m e # rs2, w3)) \<and>
   model_name (errored_reserv t m e) = m \<and> status_reserv (errored_reserv t m e) = ERROR \<and>
   successful_tests_reserv (errored_reserv t m e) = 0 \<and>
   error_summary (errored_reserv t m e) = Some (str e) \<and>
   (fst (run_tests_reserv t w) = Inr rep \<longrightarrow>
      results_reserv rep =
        fst (model_loop_reserv t (client_of_reserv t) (models_to_test_reserv t) []
               (snd (health_check_reserv (client_of_reserv t) w))) \<and>
      map model_name (results_reserv rep) = models_to_test_reserv t) \<and>
   (model_loop_base tb ms1 [] w = (rb1, wb1) \<and> test_model_base tb m None wb1 = (Inl e, wb2) \<and>
    model_loop_base tb ms2 [] wb2 = (rb2, wb3)
    \<longrightarrow> model_loop_base tb (ms1 @ m # ms2) [] w = (rb1 @ errored_base tb m e # rb2, wb3)) \<and>
   mr_model (errored_base tb m e) = m \<and> status_base (errored_base tb m e) = ERROR_base \<and>
   successful_tests_base (errored_base tb m e) = 0 \<and>
   mr_error (errored_base tb m e) = Some (str e) \<and>
   (fst (run_tests_base tb a w) = Inr repb \<longrightarrow>
      results_base repb =
        fst (model_loop_base tb (models_to_test_base tb a) []
               (snd (health_check_base (client_base tb) w))) \<and>
      map mr_model (results_base repb) = models_to_test_base tb a)"
proof (intro conjI impI)
  assume "docker_ok t w \<and> fst (health_check_reserv (client_of_reserv t) w) = Inr True"
  then show "\<exists>r. fst (run_tests_reserv t w) = Inr r \<and>
           results_reserv r =
             fst (model_loop_reserv t (client_of_reserv t)
                    (or_list (models_reserv (config_reserv t)) DEFAULT_MODELS) []
                    (snd (health_check_reserv (client_of_reserv t) w))) \<and>
           map model_name (results_reserv r) =
             or_list (models_reserv (config_reserv t)) DEFAULT_MODELS"
    using run_tests_reserv_returns by blast
next
  assume "fst (health_check_base (client_base tb) w) = Inr True"
  then show "\<exists>r. fst (run_tests_base tb a w) = Inr r \<and>
           results_base r =
             fst (model_loop_base tb (or_list a (or_list (models_base (config_base tb)) ALL_MODELS)) []
                    (snd (health_check_base (client_base tb) w))) \<and>
           map mr_model (results_base r) =
             or_list a (or_list (models_base (config_base tb)) ALL_MODELS)"
    by (rule run_tests_base_returns)
next
  assume "model_loop_reserv t c ms1 [] w = (rs1, w1) \<and> test_model_reserv t c m w1 = (Inl e, w2) \<and>
    model_loop_reserv t c ms2 [] w2 = (rs2, w3)"
  then show "model_loop_reserv t c (ms1 @ m # ms2) [] w = (rs1 @ errored_reserv t m e # rs2, w3)"
    using model_loop_reserv_raise by blast
next
  assume "model_loop_base tb ms1 [] w = (rb1, wb1) \<and> test_model_base tb m None wb1 = (Inl e, wb2) \<and>
    model_loop_base tb ms2 [] wb2 = (rb2, wb3)"
  then show "model_loop_base tb (ms1 @ m # ms2) [] w = (rb1 @ errored_base tb m e # rb2, wb3)"
    using model_loop_base_raise by blast
next
  assume r: "fst (run_tests_reserv t w) = Inr rep"
  from run_tests_reserv_results [OF r]
  show "results_reserv rep =
        fst (model_loop_reserv t (client_of_reserv t) (models_to_test_reserv t) []
               (snd (health_check_reserv (client_of_reserv t) w)))"
    by (simp add: client_of_reserv_def)
  then show "map model_name (results_reserv rep) = models_to_test_reserv t"
    by (simp add: model_loop_reserv_names)
next
  assume r: "fst (run_tests_base tb a w) = Inr repb"
  from run_tests_base_results [OF r]
  show "results_base repb =
        fst (model_loop_base tb (models_to_test_base tb a) []
               (snd (health_check_base (client_base tb) w)))" .
  then show "map mr_model (results_base repb) = models_to_test_base tb a"
    by (simp add: model_loop_base_names)
qed (simp_all add: errored_reserv_def errored_base_def)

theorem C3_runner_fault_becomes_errored_result_witness:
  "map status_reserv
     (fst (model_loop_reserv tester_reserv0 client_reserv0 [''m1'', ''m2''] [] (world0 mixed))) =
     [ERROR, SUCCESS] \<and>
   map error_summary
     (fst (model_loop_reserv tester_reserv0 client_reserv0 [''m1'', ''m2''] [] (world0 mixed))) =
     [Some ''object of type 'int' has no len()'', None] \<and>
   map status_base
     (fst (model_loop_base tester_base0 [''m1'', ''m2''] [] (world0 m1_down))) =
     [ERROR_base, SUCCESS_base] \<and>
   map mr_error
     (fst (model_loop_base tester_base0 [''m1'', ''m2''] [] (world0 m1_down))) =
     [Some ''Failed to connect to Ollama: RetryError[<Future at 0x7f3a5c1d2e80 state=finished raised ConnectionError>]'', None] \<and>
   map status_reserv
     (case_sum (\<lambda>e. []) results_reserv (fst (run_tests_reserv tester_reserv0 (world0 mixed)))) =
     [ERROR, SUCCESS] \<and>
   map model_name
     (case_sum (\<lambda>e. []) results_reserv (fst (run_tests_reserv tester_reserv0 (world0 mixed)))) =
     [''m1'', ''m2''] \<and>
   map status_base
     (case_sum (\<lambda>e. []) results_base (fst (run_tests_base tester_base0 None (world0 m1_down)))) =
     [ERROR_base, SUCCESS_base] \<and>
   map mr_model
     (case_sum (\<lambda>e. []) results_base (fst (run_tests_base tester_base0 None (world0 m1_down)))) =
     [''m1'', ''m2'']"
proof -
  have hr: "docker_ok tester_reserv0 (world0 mixed) \<and>
            fst (health_check_reserv (client_of_reserv tester_reserv0) (world0 mixed)) = Inr True"
    by (simp add: reserv_eval mixed_def docker_ok_def client_of_reserv_def)
  from C3_runner_fault_becomes_errored_result
         [where t = tester_reserv0 and w = "world0 mixed", THEN conjunct1] hr
  obtain rep where rep: "fst (run_tests_reserv tester_reserv0 (world0 mixed)) = Inr rep"
    "results_reserv rep =
       fst (model_loop_reserv tester_reserv0 (client_of_reserv tester_reserv0)
              (or_list (models_reserv (config_reserv tester_reserv0)) DEFAULT_MODELS) []
              (snd (health_check_reserv (client_of_reserv tester_reserv0) (world0 mixed))))"
    "map model_name (results_reserv rep) =
       or_list (models_reserv (config_reserv tester_reserv0)) DEFAULT_MODELS"
    by blast
  have run_r: "map status_reserv (results_reserv rep) = [ERROR, SUCCESS]"
    "map model_name (results_reserv rep) = [''m1'', ''m2'']"
    unfolding rep(2,3)
    by (simp_all add: reserv_eval mixed_def client_of_reserv_def)
  have hb: "fst (health_check_base (client_base tester_base0) (world0 m1_down)) = Inr True"
    by (simp add: base_eval m1_down_def)
  from C3_runner_fault_becomes_errored_result
         [where tb = tester_base0 and w = "world0 m1_down" and a = None,
          THEN conjunct2, THEN conjunct1] hb
  obtain repb where repb: "fst (run_tests_base tester_base0 None (world0 m1_down)) = Inr repb"
    "results_base repb =
       fst (model_loop_base tester_base0
              (or_list None (or_list (models_base (config_base tester_base0)) ALL_MODELS)) []
              (snd (health_check_base (client_base tester_base0) (world0 m1_down))))"
    "map mr_model (results_base repb) =
       or_list None (or_list (models_base (config_base tester_base0)) ALL_MODELS)"
    by blast
  have run_b: "map status_base (results_base repb) = [ERROR_base, SUCCESS_base]"
    "map mr_model (results_base repb) = [''m1'', ''m2'']"
    unfolding repb(2,3)
    by (simp_all add: base_eval m1_down_def)
  let ?e1 = "Exn TypeError ''object of type 'int' has no len()''"
  let ?w2 = "snd (test_model_reserv tester_reserv0 client_reserv0 ''m1'' (world0 mixed))"
  have "fst (test_model_reserv tester_reserv0 client_reserv0 ''m1'' (world0 mixed)) = Inl ?e1"
    by (simp add: reserv_eval mixed_def)
  then have t1: "test_model_reserv tester_reserv0 client_reserv0 ''m1'' (world0 mixed) = (Inl ?e1, ?w2)"
    by (simp add: prod_eq_iff)
  have l1: "model_loop_reserv tester_reserv0 client_reserv0 [''m2''] [] ?w2 =
              (fst (model_loop_reserv tester_reserv0 client_reserv0 [''m2''] [] ?w2),
               snd (model_loop_reserv tester_reserv0 client_reserv0 [''m2''] [] ?w2))"
    by simp
  have l0: "model_loop_reserv tester_reserv0 client_reserv0 [] [] (world0 mixed) = ([], world0 mixed)"
    by simp
  have r: "model_loop_reserv tester_reserv0 client_reserv0 ([] @ ''m1'' # [''m2'']) [] (world0 mixed) =
             ([] @ errored_reserv tester_reserv0 ''m1'' ?e1 #
                fst (model_loop_reserv tester_reserv0 client_reserv0 [''m2''] [] ?w2),
              snd (model_loop_reserv tester_reserv0 client_reserv0 [''m2''] [] ?w2))"
    using C3_runner_fault_becomes_errored_result
            [where t = tester_reserv0 and c = client_reserv0 and ?ms1.0 = "[]" and m = "''m1''"
               and ?ms2.0 = "[''m2'']" and w = "world0 mixed" and ?rs1.0 = "[]"
               and ?w1.0 = "world0 mixed" and e = ?e1 and ?w2.0 = ?w2] l0 t1 l1
    by blast
  have r2: "map status_reserv (fst (model_loop_reserv tester_reserv0 client_reserv0 [''m2''] [] ?w2)) = [SUCCESS]"
    "map error_summary (fst (model_loop_reserv tester_reserv0 client_reserv0 [''m2''] [] ?w2)) = [None]"
    by (simp_all add: reserv_eval mixed_def)
  let ?eb = "Exn OllamaConnectionError ''Failed to connect to Ollama: RetryError[<Future at 0x7f3a5c1d2e80 state=finished raised ConnectionError>]''"
  let ?wb2 = "snd (test_model_base tester_base0 ''m1'' None (world0 m1_down))"
  have "fst (test_model_base tester_base0 ''m1'' None (world0 m1_down)) = Inl ?eb"
    by (simp add: base_eval m1_down_def)
  then have tb1: "test_model_base tester_base0 ''m1'' None (world0 m1_down) = (Inl ?eb, ?wb2)"
    by (simp add: prod_eq_iff)
  have lb1: "model_loop_base tester_base0 [''m2''] [] ?wb2 =
              (fst (model_loop_base tester_base0 [''m2''] [] ?wb2),
               snd (model_loop_base tester_base0 [''m2''] [] ?wb2))"
    by simp
  have lb0: "model_loop_base tester_base0 [] [] (world0 m1_down) = ([], world0 m1_down)"
    by simp
  have rb: "model_loop_base tester_base0 ([] @ ''m1'' # [''m2'']) [] (world0 m1_down) =
             ([] @ errored_base tester_base0 ''m1'' ?eb #
                fst (model_loop_base tester_base0 [''m2''] [] ?wb2),
              snd (model_loop_base tester_base0 [''m2''] [] ?wb2))"
    using C3_runner_fault_becomes_errored_result
            [where tb = tester_base0 and ?ms1.0 = "[]" and m = "''m1''"
               and ?ms2.0 = "[''m2'']" and w = "world0 m1_down" and ?rb1.0 = "[]"
               and ?wb1.0 = "world0 m1_down" and e = ?eb and ?wb2.0 = ?wb2] lb0 tb1 lb1
    by blast
  have rb2: "map status_base (fst (model_loop_base tester_base0 [''m2''] [] ?wb2)) = [SUCCESS_base]"
    "map mr_error (fst (model_loop_base tester_base0 [''m2''] [] ?wb2)) = [None]"
    by (simp_all add: base_eval m1_down_def)
  from r r2 rb rb2 rep(1) run_r repb(1) run_b show ?thesis
    by (simp add: errored_reserv_def errored_base_def)
qed

subsection \<open>The liveness check\<close>

lemma time_sleep_trace:
  "time_sleep d w = Inr w' \<Longrightarrow> trace w' = trace w @ [Slept d]"
  by (auto simp: time_sleep_def split: if_splits)

lemma retrying_trace:
  "\<exists>evs. trace (snd (retrying left n rq w)) = trace w @ evs \<and> list_all (attempt_event rq) evs"
proof (induction left arbitrary: n w)
  case 0
  show ?case
    by (subst retrying.simps)
       (auto simp: do_request_def send_def attempt_event_def split: prod.splits outcome.splits sum.splits)
next
  case (Suc left)
  obtain res w1 where d: "do_request rq w = (res, w1)" by (cases "do_request rq w")
  have t1: "trace w1 = trace w @ [Sent rq]"
    using d by (auto simp: do_request_def send_def split: prod.splits outcome.splits if_splits)
  show ?case
  proof (cases res)
    case (Inr r)
    then show ?thesis
      by (subst retrying.simps) (simp add: d t1 attempt_event_def)
  next
    case (Inl e)
    show ?thesis
    proof (cases "retry_if_exception_type e")
      case False
      then show ?thesis
        by (subst retrying.simps) (simp add: d Inl t1 attempt_event_def)
    next
      case True
      show ?thesis
      proof (cases "time_sleep (wait_exponential n) w1")
        case (Inl e')
        then show ?thesis
          using True
          by (subst retrying.simps) (simp add: d \<open>res = Inl e\<close> t1 attempt_event_def)
      next
        case (Inr w2)
        from time_sleep_trace [OF Inr] t1
        have t2: "trace w2 = trace w @ [Sent rq, Slept (wait_exponential n)]" by simp
        from Suc.IH [of "Suc n" w2] obtain evs where
          "trace (snd (retrying left (Suc n) rq w2)) = trace w2 @ evs" "list_all (attempt_event rq) evs"
          by blast
        then show ?thesis
          using True
          by (subst retrying.simps)
             (simp add: d \<open>res = Inl e\<close> Inr t2 attempt_event_def)
      qed
    qed
  qed
qed

lemma health_check_base_trace:
  "\<exists>evs. trace (snd (health_check_base c w)) = trace w @ evs \<and>
         list_all (attempt_event (tags_request (base_url_base c))) evs"
proof -
  let ?rq = "\<lparr>http_method = ''GET'', url = base_url_base c @ ''/api/tags'', payload = []\<rparr>"
  obtain res w1 where r: "retrying (nat (client_max_retries c - 1)) 1 ?rq w = (res, w1)"
    by (cases "retrying (nat (client_max_retries c - 1)) 1 ?rq w")
  have "snd (health_check_base c w) = w1"
    using r by (cases res) (simp_all add: health_check_base_def make_request_def Let_def)
  with retrying_trace [of "nat (client_max_retries c - 1)" 1 ?rq w] r show ?thesis
    by (simp add: tags_request_def)
qed

lemma health_check_reserv_trace:
  "trace (snd (health_check_reserv c w)) = trace w @ [Sent (tags_request (base_url_reserv c))]"
  by (auto simp: health_check_reserv_def send_def tags_request_def split: prod.splits outcome.splits)

text \<open>
  C2 (as amended). When the liveness check reports the service unavailable, \<^verbatim>\<open>run_tests\<close>
  raises at once: \<^verbatim>\<open>RuntimeError\<close> in Variant\_reserv (once its Docker pre-check has passed)
  and \<^verbatim>\<open>OllamaConnectionError\<close> in Variant\_base. When the liveness request itself raises,
  that exception leaves \<^verbatim>\<open>run_tests\<close> unchanged. In each case no report and so no Model
  Result is produced, and the world is left as the liveness check left it: the trace holds
  the liveness request (and, in Variant\_base, the sleeps between its attempts) and nothing
  of any model.
\<close>

theorem C2_failed_liveness_check_stops_the_run:
  "(docker_ok t w \<and> fst (health_check_reserv (client_of_reserv t) w) = Inr False \<longrightarrow>
      run_tests_reserv t w =
        (Inl (Exn RuntimeError (''Cannot connect to Ollama at '' @ ollama_url_reserv (config_reserv t))),
         snd (health_check_reserv (client_of_reserv t) w))) \<and>
   (docker_ok t w \<and> fst (health_check_reserv (client_of_reserv t) w) = Inl e \<longrightarrow>
      run_tests_reserv t w = (Inl e, snd (health_check_reserv (client_of_reserv t) w))) \<and>
   trace (snd (health_check_reserv (client_of_reserv t) w)) =
      trace w @ [Sent (tags_request (base_url_reserv (client_of_reserv t)))] \<and>
   (fst (health_check_base (client_base tb) w) = Inr False \<longrightarrow>
      run_tests_base tb a w =
        (Inl (Exn OllamaConnectionError
                (''Ollama is not available at '' @ ollama_url_base (config_base tb))),
         snd (health_check_base (client_base tb) w))) \<and>
   (fst (health_check_base (client_base tb) w) = Inl e \<longrightarrow>
      run_tests_base tb a w = (Inl e, snd (health_check_base (client_base tb) w))) \<and>
   (\<exists>evs. trace (snd (health_check_base (client_base tb) w)) = trace w @ evs \<and>
          list_all (attempt_event (tags_request (base_url_base (client_base tb)))) evs)"
proof (intro conjI impI)
  assume "docker_ok t w \<and> fst (health_check_reserv (client_of_reserv t) w) = Inr False"
  then show "run_tests_reserv t w =
        (Inl (Exn RuntimeError (''Cannot connect to Ollama at '' @ ollama_url_reserv (config_reserv t))),
         snd (health_check_reserv (client_of_reserv t) w))"
    by (cases "health_check_reserv (client_of_reserv t) w")
       (auto simp: run_tests_reserv_def docker_ok_def client_of_reserv_def Let_def)
next
  assume "docker_ok t w \<and> fst (health_check_reserv (client_of_reserv t) w) = Inl e"
  then show "run_tests_reserv t w = (Inl e, snd (health_check_reserv (client_of_reserv t) w))"
    by (cases "health_check_reserv (client_of_reserv t) w")
       (auto simp: run_tests_reserv_def docker_ok_def client_of_reserv_def Let_def)
next
  show "trace (snd (health_check_reserv (client_of_reserv t) w)) =
      trace w @ [Sent (tags_request (base_url_reserv (client_of_reserv t)))]"
    by (rule health_check_reserv_trace)
next
  assume "fst (health_check_base (client_base tb) w) = Inr False"
  then show "run_tests_base tb a w =
        (Inl (Exn OllamaConnectionError
                (''Ollama is not available at '' @ ollama_url_base (config_base tb))),
         snd (health_check_base (client_base tb) w))"
    by (cases "health_check_base (client_base tb) w")
       (auto simp: run_tests_base_def Let_def)
next
  assume "fst (health_check_base (client_base tb) w) = Inl e"
  then show "run_tests_base tb a w = (Inl e, snd (health_check_base (client_base tb) w))"
    by (cases "health_check_base (client_base tb) w")
       (auto simp: run_tests_base_def Let_def)
next
  show "\<exists>evs. trace (snd (health_check_base (client_base tb) w)) = trace w @ evs \<and>
          list_all (attempt_event (tags_request (base_url_base (client_base tb)))) evs"
    by (rule health_check_base_trace)
qed

text \<open>
  C2 as stated fails on Variant\_reserv: a service that answers 503 to the liveness request
  makes \<^verbatim>\<open>run_tests\<close> raise \<^verbatim>\<open>RuntimeError\<close>, not a connection error class.
\<close>

theorem C2_reserv_raises_RuntimeError:
  "fst (health_check_reserv (client_of_reserv tester_reserv0) (world0 unavailable)) = Inr False \<and>
   fst (run_tests_reserv tester_reserv0 (world0 unavailable)) =
     Inl (Exn RuntimeError ''Cannot connect to Ollama at http://localhost:11434'') \<and>
   RuntimeError \<noteq> OllamaConnectionError"
  by (simp add: reserv_eval unavailable_def client_of_reserv_def)

theorem C2_failed_liveness_check_stops_the_run_witness:
  "run_tests_reserv tester_reserv0 (world0 unavailable) =
     (Inl (Exn RuntimeError ''Cannot connect to Ollama at http://localhost:11434''),
      snd (health_check_reserv (client_of_reserv tester_reserv0) (world0 unavailable))) \<and>
   run_tests_reserv tester_reserv0 (world0 broken) =
     (Inl (Exn OtherException ''Invalid URL''),
      snd (health_check_reserv (client_of_reserv tester_reserv0) (world0 broken))) \<and>
   run_tests_base tester_base0 None (world0 moved) =
     (Inl (Exn OllamaConnectionError ''Ollama is not available at http://localhost:11434''),
      snd (health_check_base (client_base tester_base0) (world0 moved))) \<and>
   run_tests_base tester_base0 None (world0 refused) =
     (Inl (Exn OllamaConnectionError
             ''Failed to connect to Ollama: RetryError[<Future at 0x7f3a5c1d2e80 state=finished raised ConnectionError>]''),
      snd (health_check_base (client_base tester_base0) (world0 refused)))"
proof -
  have d: "docker_ok tester_reserv0 (world0 unavailable)" "docker_ok tester_reserv0 (world0 broken)"
    by (simp_all add: docker_ok_def world0_def)
  have h1: "fst (health_check_reserv (client_of_reserv tester_reserv0) (world0 unavailable)) = Inr False"
    by (simp add: reserv_eval unavailable_def client_of_reserv_def)
  have h2: "fst (health_check_reserv (client_of_reserv tester_reserv0) (world0 broken)) =
              Inl (Exn OtherException ''Invalid URL'')"
    by (simp add: reserv_eval broken_def client_of_reserv_def)
  have h3: "fst (health_check_base (client_base tester_base0) (world0 moved)) = Inr False"
    by (simp add: base_eval moved_def)
  have h4: "fst (health_check_base (client_base tester_base0) (world0 refused)) =
              Inl (Exn OllamaConnectionError
                     ''Failed to connect to Ollama: RetryError[<Future at 0x7f3a5c1d2e80 state=finished raised ConnectionError>]'')"
    by (simp add: base_eval refused_def)
  have u: "ollama_url_reserv (config_reserv tester_reserv0) = ''http://localhost:11434''"
    "ollama_url_base (config_base tester_base0) = ''http://localhost:11434''"
    by (simp_all add: tester_reserv0_def config_reserv0_def tester_base0_def config_base0_def
          EmbeddingTester_init_base_def)
  have a1: "run_tests_reserv tester_reserv0 (world0 unavailable) =
     (Inl (Exn RuntimeError
             (''Cannot connect to Ollama at '' @ ollama_url_reserv (config_reserv tester_reserv0))),
      snd (health_check_reserv (client_of_reserv tester_reserv0) (world0 unavailable)))"
    using C2_failed_liveness_check_stops_the_run
            [where t = tester_reserv0 and w = "world0 unavailable"] d h1
    by blast
  have a2: "run_tests_reserv tester_reserv0 (world0 broken) =
     (Inl (Exn OtherException ''Invalid URL''),
      snd (health_check_reserv (client_of_reserv tester_reserv0) (world0 broken)))"
    using C2_failed_liveness_check_stops_the_run
            [where t = tester_reserv0 and w = "world0 broken"
               and e = "Exn OtherException ''Invalid URL''"] d h2
    by blast
  have a3: "run_tests_base tester_base0 None (world0 moved) =
     (Inl (Exn OllamaConnectionError
             (''Ollama is not available at '' @ ollama_url_base (config_base tester_base0))),
      snd (health_check_base (client_base tester_base0) (world0 moved)))"
    using C2_failed_liveness_check_stops_the_run
            [where tb = tester_base0 and w = "world0 moved" and a = None] h3
    by blast
  have a4: "run_tests_base tester_base0 None (world0 refused) =
     (Inl (Exn OllamaConnectionError
             ''Failed to connect to Ollama: RetryError[<Future at 0x7f3a5c1d2e80 state=finished raised ConnectionError>]''),
      snd (health_check_base (client_base tester_base0) (world0 refused)))"
    using C2_failed_liveness_check_stops_the_run
            [where tb = tester_base0 and w = "world0 refused" and a = None
               and e = "Exn OllamaConnectionError
                          ''Failed to connect to Ollama: RetryError[<Future at 0x7f3a5c1d2e80 state=finished raised ConnectionError>]''"] h4
    by blast
  show ?thesis
    using a1 a2 a3 a4 by (simp add: u)
qed

subsection \<open>Warm-up\<close>

lemma warmup_loop_rounds:
  assumes "test_texts_reserv t = txt # rest"
  shows "warmup_loop t c m n w = (Inr (), (warmup_round c m txt ^^ n) w)"
proof (induction n arbitrary: w)
  case 0
  show ?case by simp
next
  case (Suc n)
  obtain res w' where g: "get_embedding_reserv c m txt DEFAULT_RETRIES w = (res, w')"
    by (cases "get_embedding_reserv c m txt DEFAULT_RETRIES w")
  have "warmup_loop t c m (Suc n) w = warmup_loop t c m n (warmup_round c m txt w)"
    by (simp add: assms g warmup_round_def)
  also have "\<dots> = (Inr (), (warmup_round c m txt ^^ n) (warmup_round c m txt w))"
    by (rule Suc.IH)
  finally show ?case by (simp add: funpow_swap1)
qed

lemma embedding_attempt_world:
  "snd (embedding_attempt c m p st w) = snd (send (embedding_request c m p) w)"
  by (auto simp: embedding_attempt_def Let_def response_json_def
           split: prod.splits outcome.splits option.splits sum.splits)

lemma attempt_loop_trace:
  "\<exists>evs. trace (snd (attempt_loop c m p retries st idxs le w)) = trace w @ evs \<and>
         list_all (attempt_event (embedding_request c m p)) evs \<and>
         (idxs \<noteq> [] \<longrightarrow> evs \<noteq> [] \<and> hd evs = Sent (embedding_request c m p))"
proof (induction idxs arbitrary: le w)
  case Nil
  show ?case by simp
next
  case (Cons a idxs)
  let ?rq = "embedding_request c m p"
  obtain res w1 where ea: "embedding_attempt c m p st w = (res, w1)"
    by (cases "embedding_attempt c m p st w")
  have "w1 = snd (send ?rq w)"
    using embedding_attempt_world [of c m p st w] ea by simp
  then have t1: "trace w1 = trace w @ [Sent ?rq]"
    by (simp add: send_fields)
  show ?case
  proof (cases res)
    case (Inr r)
    then show ?thesis
      using ea t1 by (cases r) (simp add: attempt_event_def)
  next
    case (Inl msg)
    let ?w2 = "if int a < retries - 1 then asyncio_sleep (2 ^ a) w1 else w1"
    have "\<exists>evs. trace ?w2 = trace w @ Sent ?rq # evs \<and> list_all (attempt_event ?rq) evs"
      using t1 by (simp add: asyncio_sleep_fields attempt_event_def)
    then obtain evs1 where e1: "trace ?w2 = trace w @ Sent ?rq # evs1"
      and a1: "list_all (attempt_event ?rq) evs1" by blast
    from Cons.IH [of "Some msg" ?w2] obtain evs2 where
      e2: "trace (snd (attempt_loop c m p retries st idxs (Some msg) ?w2)) = trace ?w2 @ evs2"
      and a2: "list_all (attempt_event ?rq) evs2" by blast
    have "trace (snd (attempt_loop c m p retries st (a # idxs) le w)) =
            trace w @ (Sent ?rq # evs1 @ evs2)"
      using e1 e2 by (simp add: ea Inl)
    moreover have "list_all (attempt_event ?rq) (Sent ?rq # evs1 @ evs2)"
      using a1 a2 by (simp add: attempt_event_def)
    ultimately show ?thesis
      by (metis list.distinct(1) list.sel(1))
  qed
qed

lemma warmup_round_trace:
  "\<exists>evs. trace (warmup_round c m txt w) =
           trace w @ Sent (embedding_request c m txt) # evs @ [Slept 1] \<and>
         list_all (attempt_event (embedding_request c m txt)) evs"
proof -
  have ne: "[0..<nat DEFAULT_RETRIES] \<noteq> []"
    by (simp add: DEFAULT_RETRIES_def)
  from attempt_loop_trace [of c m "txt" DEFAULT_RETRIES "now w" "[0..<nat DEFAULT_RETRIES]" None w] ne
  obtain evs where e: "trace (snd (get_embedding_reserv c m txt DEFAULT_RETRIES w)) = trace w @ evs"
    and a: "list_all (attempt_event (embedding_request c m txt)) evs"
    and h: "evs \<noteq> []" "hd evs = Sent (embedding_request c m txt)"
    unfolding get_embedding_reserv_def by blast
  from h obtain evs' where evs: "evs = Sent (embedding_request c m txt) # evs'"
    by (cases evs) auto
  with a have "list_all (attempt_event (embedding_request c m txt)) evs'" by simp
  with e evs show ?thesis
    by (auto simp: warmup_round_def asyncio_sleep_fields)
qed

lemma aggregate_reserv_metrics:
  assumes "aggregate_reserv m ml = Inr r"
  shows "individual_metrics r = ml"
proof (cases "filter success_reserv ml = []")
  case True
  from aggregate_reserv_failed [OF True, of m] assms show ?thesis by auto
next
  case False
  from aggregate_reserv_success [OF False, of m] assms show ?thesis by auto
qed

lemma sample_loop_base_acc:
  assumes "fst (sample_loop_base t m n idxs acc w) = Inr rs"
  shows "\<exists>more. rs = acc @ more \<and> length more = length idxs"
  using assms
proof (induction idxs arbitrary: acc w)
  case Nil
  then show ?case by simp
next
  case (Cons i idxs)
  from Cons.prems have ne: "test_texts_base t \<noteq> []"
    by (auto split: if_splits)
  let ?p = "test_texts_base t ! (i mod length (test_texts_base t))"
  obtain res w1 where ts: "test_single_embedding_base t m ?p w = (res, w1)"
    by (cases "test_single_embedding_base t m ?p w")
  show ?case
  proof (cases res)
    case (Inl e)
    with Cons.prems ne ts show ?thesis by simp
  next
    case (Inr x)
    from Cons.prems ne ts Inr obtain w2 where
      "fst (sample_loop_base t m n idxs (acc @ [x]) w2) = Inr rs"
      by (auto split: if_splits sum.splits)
    from Cons.IH [OF this] show ?thesis by auto
  qed
qed

lemma test_model_base_first_probe_kept:
  assumes texts: "test_texts_base t = p # rest"
    and pos: "0 < num_tests_base t a"
    and ret: "fst (test_model_base t m a w) = Inr r"
  shows "(\<exists>x. fst (test_single_embedding_base t m p w) = Inr x \<and>
              individual_results r = x # tl (individual_results r)) \<and>
         length (individual_results r) = nat (num_tests_base t a)"
proof -
  let ?n = "num_tests_base t a"
  from pos have idx: "[0..<nat ?n] = 0 # [1..<nat ?n]"
    by (simp add: upt_conv_Cons)
  obtain res w1 where sl: "sample_loop_base t m ?n [0..<nat ?n] [] w = (res, w1)"
    by (cases "sample_loop_base t m ?n [0..<nat ?n] [] w")
  from ret sl obtain rs where rs: "res = Inr rs"
    and an: "fst (analyse_base t m ?n rs w1) = Inr r"
    unfolding test_model_base_def num_tests_base_def Let_def
    by (cases res) auto
  from analyse_base_result [OF an] have ir: "individual_results r = rs" by simp
  obtain tr w2 where ts: "test_single_embedding_base t m p w = (tr, w2)"
    by (cases "test_single_embedding_base t m p w")
  from sl rs have full: "fst (sample_loop_base t m ?n (0 # [1..<nat ?n]) [] w) = Inr rs"
    by (simp add: idx)
  then obtain x where x: "tr = Inr x"
    using ts texts by (cases tr) simp_all
  from full x ts texts obtain w3 where
    "fst (sample_loop_base t m ?n [1..<nat ?n] [x] w3) = Inr rs"
    by (auto split: if_splits sum.splits)
  from sample_loop_base_acc [OF this] obtain more where
    m: "rs = [x] @ more" "length more = length [1..<nat ?n]" by blast
  from sample_loop_base_acc [of t m ?n "[0..<nat ?n]" "[]" w rs] sl rs
  have len: "length rs = nat ?n" by auto
  show ?thesis
    using ts x m ir len by auto
qed

text \<open>
  C7 (as amended). In Variant\_reserv, with a test-text pool whose first text is \<open>txt\<close>,
  the Model Test Runner is the timed sample loop started in the world that
  \<open>warmup_requests\<close> warm-up rounds leave (none when the setting is not positive). Each
  round sends the embedding request for the model and \<open>txt\<close> at least once and ends with a
  pause of one second; what it returns is dropped, so the result holds exactly the
  \<open>tests_per_model\<close> measurements of the timed loop. Variant\_base has no warm-up: the probe
  that its runner makes first, in the world it is called in, is a timed one, whose
  measurement is the first of the results kept, and the results kept are as many as the
  samples asked for.
\<close>

theorem C7_warmup_probes_before_the_timed_loop:
  assumes "test_texts_reserv t = txt # rest"
  shows "test_model_reserv t c m w =
           (case sample_loop_reserv t c m [0..<nat (tests_per_model_reserv (config_reserv t))] []
                   ((warmup_round c m txt ^^ nat (warmup_requests (config_reserv t))) w) of
              (Inl e, w') \<Rightarrow> (Inl e, w')
            | (Inr metrics_list, w') \<Rightarrow> (aggregate_reserv m metrics_list, w')) \<and>
         (\<forall>w'. \<exists>evs. trace (warmup_round c m txt w') =
                        trace w' @ Sent (embedding_request c m txt) # evs @ [Slept 1] \<and>
                      list_all (attempt_event (embedding_request c m txt)) evs) \<and>
         (\<forall>r. fst (test_model_reserv t c m w) = Inr r \<longrightarrow>
              length (individual_metrics r) = nat (tests_per_model_reserv (config_reserv t))) \<and>
         (test_texts_base tb = p # restb \<and> 0 < num_tests_base tb a \<and>
          fst (test_model_base tb m a w) = Inr rb \<longrightarrow>
            (\<exists>x. fst (test_single_embedding_base tb m p w) = Inr x \<and>
                 individual_results rb = x # tl (individual_results rb)) \<and>
            length (individual_results rb) = nat (num_tests_base tb a))"
proof (intro conjI allI impI)
  show "test_model_reserv t c m w =
           (case sample_loop_reserv t c m [0..<nat (tests_per_model_reserv (config_reserv t))] []
                   ((warmup_round c m txt ^^ nat (warmup_requests (config_reserv t))) w) of
              (Inl e, w') \<Rightarrow> (Inl e, w')
            | (Inr metrics_list, w') \<Rightarrow> (aggregate_reserv m metrics_list, w'))"
  proof (cases "warmup_requests (config_reserv t) > 0")
    case True
    then show ?thesis
      by (simp add: test_model_reserv_def warmup_loop_rounds [OF assms])
  next
    case False
    then have "nat (warmup_requests (config_reserv t)) = 0" by simp
    with False show ?thesis
      by (simp add: test_model_reserv_def)
  qed
next
  fix w'
  show "\<exists>evs. trace (warmup_round c m txt w') =
                 trace w' @ Sent (embedding_request c m txt) # evs @ [Slept 1] \<and>
               list_all (attempt_event (embedding_request c m txt)) evs"
    by (rule warmup_round_trace)
next
  fix r
  assume "fst (test_model_reserv t c m w) = Inr r"
  from test_model_reserv_result [OF this] show
    "length (individual_metrics r) = nat (tests_per_model_reserv (config_reserv t))"
    using aggregate_reserv_metrics by blast
next
  assume h: "test_texts_base tb = p # restb \<and> 0 < num_tests_base tb a \<and>
          fst (test_model_base tb m a w) = Inr rb"
  then have k: "(\<exists>x. fst (test_single_embedding_base tb m p w) = Inr x \<and>
                     individual_results rb = x # tl (individual_results rb)) \<and>
                length (individual_results rb) = nat (num_tests_base tb a)"
    using test_model_base_first_probe_kept by blast
  from k show "\<exists>x. fst (test_single_embedding_base tb m p w) = Inr x \<and>
                 individual_results rb = x # tl (individual_results rb)" by blast
  from k show "length (individual_results rb) = nat (num_tests_base tb a)" by blast
qed

text \<open>
  C7 as stated fails on Variant\_base: its runner sends one embedding request for the one
  sample asked for and keeps its measurement; no probe is discarded and no pause is taken.
\<close>

theorem C7_base_runner_has_no_warmup:
  "trace (snd (test_model_base tester_base0 ''m2'' None (world0 mixed))) =
     [Sent \<lparr>http_method = ''POST'', url = ''http://localhost:11434/api/embeddings'',
            payload = [(''model'', ''m2''), (''prompt'', ''Hello, world'')]\<rparr>,
      Sent \<lparr>http_method = ''POST'', url = ''http://localhost:11434/api/show'',
            payload = [(''name'', ''m2'')]\<rparr>] \<and>
   map_sum str individual_results
     (fst (test_model_base tester_base0 ''m2'' None (world0 mixed))) =
     Inr [\<lparr>success_base = True, duration_base = 2, text_length_base = Some 12,
           embedding_dim_base = Some 3, tokens_per_second_base = Some (3 / 2), error = None,
           model = Some ''m2'', text_base = Some ''Hello, world''\<rparr>]"
  by (simp add: base_eval mixed_def)

theorem C7_warmup_probes_before_the_timed_loop_witness:
  "trace (snd (test_model_reserv tester_reserv0 client_reserv0 ''m2'' (world0 mixed))) =
     [Sent (embedding_request client_reserv0 ''m2'' ''Hello, world''), Slept 1,
      Sent (embedding_request client_reserv0 ''m2'' ''Hello, world'')] \<and>
   map_sum str individual_metrics
     (fst (test_model_reserv tester_reserv0 client_reserv0 ''m2'' (world0 mixed))) =
     Inr [\<lparr>success_reserv = True, duration_reserv = 2, text_length_reserv = 12,
           embedding_dim_reserv = Some 3, tokens_per_second_reserv = Some (3 / 2),
           error_message = None\<rparr>] \<and>
   case_sum (\<lambda>e. 0) (\<lambda>r. length (individual_results r))
     (fst (test_model_base tester_base0 ''m2'' None (world0 mixed))) = 1"
proof -
  have texts: "test_texts_reserv tester_reserv0 = ''Hello, world'' # []"
    by (simp add: tester_reserv0_def)
  obtain rb where rb: "fst (test_model_base tester_base0 ''m2'' None (world0 mixed)) = Inr rb"
    by (simp add: base_eval mixed_def)
  note inst = C7_warmup_probes_before_the_timed_loop
              [OF texts, where c = client_reserv0 and m = "''m2''" and w = "world0 mixed"
                 and tb = tester_base0 and a = None and p = "''Hello, world''" and restb = "[]"
                 and rb = rb]
  note eq = inst [THEN conjunct1]
  have r: "trace (snd (test_model_reserv tester_reserv0 client_reserv0 ''m2'' (world0 mixed))) =
     [Sent (embedding_request client_reserv0 ''m2'' ''Hello, world''), Slept 1,
      Sent (embedding_request client_reserv0 ''m2'' ''Hello, world'')] \<and>
   map_sum str individual_metrics
     (fst (test_model_reserv tester_reserv0 client_reserv0 ''m2'' (world0 mixed))) =
     Inr [\<lparr>success_reserv = True, duration_reserv = 2, text_length_reserv = 12,
           embedding_dim_reserv = Some 3, tokens_per_second_reserv = Some (3 / 2),
           error_message = None\<rparr>]"
    unfolding eq
    by (simp add: warmup_round_def test_single_embedding_reserv_def get_embedding_reserv_def
          embedding_attempt_def embedding_request_def send_def asyncio_sleep_def response_json_def
          aggregate_reserv_def mean_def median_def stdev_def py_int_def Let_def
          tester_reserv0_def config_reserv0_def client_reserv0_def OllamaClient_init_reserv_def
          rstrip_slash_def world0_def DEFAULT_RETRIES_def upt_rec mixed_def)
  have tb: "test_texts_base tester_base0 = ''Hello, world'' # []"
    and n: "num_tests_base tester_base0 None = 1"
    by (simp_all add: tester_base0_def EmbeddingTester_init_base_def num_tests_base_def
          config_base0_def)
  from inst [THEN conjunct2, THEN conjunct2, THEN conjunct2] tb n rb
  have "length (individual_results rb) = 1" by simp
  with r rb show ?thesis by simp
qed

subsection \<open>The ranking by speed\<close>

text \<open>
  In both variants the ranking by speed is the stable sort of the Succeeded results by
  their key, with the ranks 1, 2, \<dots>: a permutation of the Succeeded results, sorted by
  key, results of equal key in their original order. Where every Succeeded result has a
  positive mean duration the key is that duration, and the ranking is non-decreasing by
  mean duration.
\<close>

lemma ranking_entry_of_base_fields:
  "rank_base (ranking_entry_of_base p) = fst p"
  "entry_model_base (ranking_entry_of_base p) = mr_model (snd p)"
  "entry_avg_duration_base (ranking_entry_of_base p) = avg_duration_base (snd p)"
  by (simp_all add: ranking_entry_of_base_def split: prod.splits)

lemma ranking_entry_of_reserv_fields:
  "rank_reserv (ranking_entry_of_reserv p) = Suc (fst p)"
  "entry_model_reserv (ranking_entry_of_reserv p) = model_name (snd p)"
  "entry_avg_duration_reserv (ranking_entry_of_reserv p) = avg_duration_reserv (snd p)"
  by (simp_all add: ranking_entry_of_reserv_def split: prod.splits)

lemma map_snd_enumerate_comp: "map (\<lambda>p. f (snd p)) (enumerate n xs) = map f xs"
  by (induction xs arbitrary: n) simp_all

lemma map_fst_enumerate_comp: "map (\<lambda>p. g (fst p)) (enumerate n xs) = map g [n..<n + length xs]"
proof -
  have "map (\<lambda>p. g (fst p)) (enumerate n xs) = map g (map fst (enumerate n xs))"
    by (simp only: map_map comp_def)
  also have "\<dots> = map g [n..<n + length xs]"
    by (simp only: map_fst_enumerate)
  finally show ?thesis .
qed

lemma ranking_by_speed_base_is_stable_sort:
  fixes rs :: "ModelTestResult_base list"
  defines "succeeded \<equiv> filter (\<lambda>r. status_base r = SUCCESS_base) rs"
  shows "map rank_base (ranking_by_speed (create_summary_base rs)) = [1..<Suc (length succeeded)]"
    and "map entry_model_base (ranking_by_speed (create_summary_base rs)) =
           map mr_model (sort_key speed_key_base succeeded)"
    and "map entry_avg_duration_base (ranking_by_speed (create_summary_base rs)) =
           map avg_duration_base (sort_key speed_key_base succeeded)"
    and "mset (sort_key speed_key_base succeeded) = mset succeeded"
    and "sorted (map speed_key_base (sort_key speed_key_base succeeded))"
    and "filter (\<lambda>x. speed_key_base x = k) (sort_key speed_key_base succeeded) =
           filter (\<lambda>x. speed_key_base x = k) succeeded"
  by (simp_all add: create_summary_base_def Let_def succeeded_def comp_def
        ranking_entry_of_base_fields map_snd_enumerate_comp
        map_fst_enumerate_comp [where g = "\<lambda>x. x", simplified] sort_key_stable)

lemma ranking_by_speed_reserv_is_stable_sort:
  fixes rs :: "ModelTestResult_reserv list"
  defines "succeeded \<equiv> filter (\<lambda>r. status_reserv r = SUCCESS) rs"
  shows "map rank_reserv (sum_ranking_by_speed (create_summary_reserv rs)) = [1..<Suc (length succeeded)]"
    and "map entry_model_reserv (sum_ranking_by_speed (create_summary_reserv rs)) =
           map model_name (sort_key speed_key_reserv succeeded)"
    and "map entry_avg_duration_reserv (sum_ranking_by_speed (create_summary_reserv rs)) =
           map avg_duration_reserv (sort_key speed_key_reserv succeeded)"
    and "mset (sort_key speed_key_reserv succeeded) = mset succeeded"
    and "sorted (map speed_key_reserv (sort_key speed_key_reserv succeeded))"
    and "filter (\<lambda>x. speed_key_reserv x = k) (sort_key speed_key_reserv succeeded) =
           filter (\<lambda>x. speed_key_reserv x = k) succeeded"
  by (simp_all add: create_summary_reserv_def Let_def succeeded_def comp_def
        ranking_entry_of_reserv_fields map_snd_enumerate_comp
        map_fst_enumerate_comp [where g = Suc] map_Suc_upt sort_key_stable)

lemma speed_key_positive:
  "avg_duration_base x = Some d \<Longrightarrow> 0 < d \<Longrightarrow> speed_key_base x = Fin d"
  "avg_duration_reserv y = Some d \<Longrightarrow> 0 < d \<Longrightarrow> speed_key_reserv y = Fin d"
  by (simp_all add: speed_key_base_def speed_key_reserv_def)

lemma sorted_by_positive_mean_duration:
  fixes key :: "'a \<Rightarrow> pyfloat" and avg :: "'a \<Rightarrow> real option"
  assumes "\<And>x. x \<in> set xs \<Longrightarrow> \<exists>d. avg x = Some d \<and> key x = Fin d"
  shows "sorted_wrt (\<lambda>a b. the (avg a) \<le> the (avg b)) (sort_key key xs)"
proof -
  have s: "sorted_wrt (\<lambda>a b. key a \<le> key b) (sort_key key xs)"
    using sorted_sort_key [of key xs] by (simp add: sorted_map)
  have "\<And>a b. a \<in> set (sort_key key xs) \<Longrightarrow> b \<in> set (sort_key key xs) \<Longrightarrow>
          key a \<le> key b \<Longrightarrow> the (avg a) \<le> the (avg b)"
  proof -
    fix a b
    assume "a \<in> set (sort_key key xs)" "b \<in> set (sort_key key xs)" and le: "key a \<le> key b"
    then have "a \<in> set xs" "b \<in> set xs" by simp_all
    with assms obtain da db where "avg a = Some da" "key a = Fin da" "avg b = Some db" "key b = Fin db"
      by blast
    with le show "the (avg a) \<le> the (avg b)" by simp
  qed
  with s show ?thesis
    by (rule sorted_wrt_mono_rel [rotated])
qed

lemma ranking_by_speed_sorted_when_positive:
  "(\<forall>r\<in>set rs. status_base r = SUCCESS_base \<longrightarrow> (\<exists>d>0. avg_duration_base r = Some d)) \<Longrightarrow>
   sorted_wrt (\<lambda>a b. the (avg_duration_base a) \<le> the (avg_duration_base b))
     (sort_key speed_key_base (filter (\<lambda>r. status_base r = SUCCESS_base) rs))"
  "(\<forall>r\<in>set rs'. status_reserv r = SUCCESS \<longrightarrow> (\<exists>d>0. avg_duration_reserv r = Some d)) \<Longrightarrow>
   sorted_wrt (\<lambda>a b. the (avg_duration_reserv a) \<le> the (avg_duration_reserv b))
     (sort_key speed_key_reserv (filter (\<lambda>r. status_reserv r = SUCCESS) rs'))"
  by (rule sorted_by_positive_mean_duration; use speed_key_positive in fastforce)+

text \<open>
  The durations that the program measures. Where every request takes a positive time, the
  service of the world is the same after every function of either variant, and every
  duration of a successful measurement is positive: in Variant\_reserv the clock is read
  before the first attempt and after the attempt that returns the embedding, in
  Variant\_base before and after \<^verbatim>\<open>get_embedding\<close>, which sends at least one request.
\<close>

lemma positive_latency_cong:
  "service w' = service w \<Longrightarrow> positive_latency w \<Longrightarrow> positive_latency w'"
  by (simp add: positive_latency_def)

lemma positive_latency_of: "positive_latency w \<Longrightarrow> 0 < latency_of w rq j"
  by (simp add: positive_latency_def latency_of_def)

lemma sum_list_pos:
  fixes xs :: "real list"
  shows "xs \<noteq> [] \<Longrightarrow> \<forall>x\<in>set xs. 0 < x \<Longrightarrow> 0 < sum_list xs"
proof (induction xs)
  case Nil
  then show ?case by simp
next
  case (Cons x xs)
  then show ?case
    by (cases "xs = []") (auto intro: add_pos_pos)
qed

lemma mean_pos:
  fixes xs :: "real list"
  assumes "xs \<noteq> []" and "\<forall>x\<in>set xs. 0 < x"
  shows "0 < sum_list xs / real (length xs)"
  using sum_list_pos [OF assms] assms(1) by simp

paragraph \<open>Variant\_reserv\<close>

lemma attempt_loop_positive:
  assumes "positive_latency w" and "st \<le> now w"
  shows "service (snd (attempt_loop c m p retries st idxs le w)) = service w \<and>
         (truthy (fst (fst (attempt_loop c m p retries st idxs le w))) \<longrightarrow>
            0 < fst (snd (fst (attempt_loop c m p retries st idxs le w))))"
  using assms
proof (induction idxs arbitrary: le w)
  case Nil
  then show ?case by simp
next
  case (Cons a idxs)
  let ?rq = "embedding_request c m p"
  let ?w1 = "snd (send ?rq w)"
  have lat: "0 < latency_of w ?rq 0"
    using Cons.prems(1) by (rule positive_latency_of)
  show ?case
  proof (cases "returned_embedding (outcome_of w ?rq 0)")
    case (Some emb)
    from embedding_attempt_returns [OF Some, of st] lat Cons.prems(2)
    show ?thesis by (simp add: send_fields)
  next
    case None
    from embedding_attempt_fails [OF None, of st] obtain msg where
      f: "embedding_attempt c m p st w = (Inl msg, ?w1)" by blast
    let ?w2 = "if int a < retries - 1 then asyncio_sleep (2 ^ a) ?w1 else ?w1"
    have s2: "service ?w2 = service w"
      by (simp add: asyncio_sleep_fields send_fields)
    have p2: "positive_latency ?w2"
      using s2 Cons.prems(1) by (rule positive_latency_cong)
    have n2: "st \<le> now ?w2"
    proof -
      have "(0::real) \<le> 2 ^ a" by simp
      then have "st \<le> now w + latency_of w ?rq 0 + 2 ^ a"
        using lat Cons.prems(2) by linarith
      then show ?thesis
        using lat Cons.prems(2) by (simp add: asyncio_sleep_fields send_fields)
    qed
    from Cons.IH [OF p2 n2, of "Some msg"] s2 show ?thesis
      by (simp add: f)
  qed
qed

lemma get_embedding_reserv_positive:
  assumes "positive_latency w"
  shows "service (snd (get_embedding_reserv c m p retries w)) = service w \<and>
         (truthy (fst (fst (get_embedding_reserv c m p retries w))) \<longrightarrow>
            0 < fst (snd (fst (get_embedding_reserv c m p retries w))))"
  unfolding get_embedding_reserv_def
  by (rule attempt_loop_positive [OF assms]) simp

lemma test_single_embedding_reserv_positive:
  assumes "positive_latency w"
  shows "service (snd (test_single_embedding_reserv t c m p w)) = service w \<and>
         (\<forall>x. fst (test_single_embedding_reserv t c m p w) = Inr x \<longrightarrow> success_reserv x \<longrightarrow>
              0 < duration_reserv x)"
proof -
  obtain emb d err w' where
    g: "get_embedding_reserv c m p (max_retries_reserv (config_reserv t)) w = ((emb, d, err), w')"
    by (metis prod.exhaust)
  from get_embedding_reserv_positive [OF assms, of c m p "max_retries_reserv (config_reserv t)"] g
  have "service w' = service w" "truthy emb \<longrightarrow> 0 < d" by simp_all
  then show ?thesis
    by (cases "py_len emb") (auto simp: test_single_embedding_reserv_def g)
qed

lemma warmup_loop_service:
  assumes "positive_latency w"
  shows "service (snd (warmup_loop t c m n w)) = service w"
  using assms
proof (induction n arbitrary: w)
  case 0
  then show ?case by simp
next
  case (Suc n)
  show ?case
  proof (cases "test_texts_reserv t")
    case Nil
    then show ?thesis by simp
  next
    case (Cons p rest)
    obtain res w' where g: "get_embedding_reserv c m p DEFAULT_RETRIES w = (res, w')"
      by (cases "get_embedding_reserv c m p DEFAULT_RETRIES w")
    from get_embedding_reserv_positive [OF Suc.prems, of c m p DEFAULT_RETRIES] g
    have s: "service (asyncio_sleep 1 w') = service w"
      by (simp add: asyncio_sleep_fields)
    then have "positive_latency (asyncio_sleep 1 w')"
      using Suc.prems by (rule positive_latency_cong)
    from Suc.IH [OF this] s show ?thesis
      by (simp add: Cons g)
  qed
qed

lemma sample_loop_reserv_positive:
  assumes "positive_latency w" and "\<forall>x\<in>set acc. success_reserv x \<longrightarrow> 0 < duration_reserv x"
  shows "service (snd (sample_loop_reserv t c m idxs acc w)) = service w \<and>
         (\<forall>ml. fst (sample_loop_reserv t c m idxs acc w) = Inr ml \<longrightarrow>
               (\<forall>x\<in>set ml. success_reserv x \<longrightarrow> 0 < duration_reserv x))"
  using assms
proof (induction idxs arbitrary: acc w)
  case Nil
  then show ?case by simp
next
  case (Cons i idxs)
  show ?case
  proof (cases "test_texts_reserv t = []")
    case True
    then show ?thesis by simp
  next
    case False
    let ?p = "test_texts_reserv t ! (i mod length (test_texts_reserv t))"
    obtain res w1 where ts: "test_single_embedding_reserv t c m ?p w = (res, w1)"
      by (cases "test_single_embedding_reserv t c m ?p w")
    from test_single_embedding_reserv_positive [OF Cons.prems(1), of t c m ?p] ts
    have s1: "service w1 = service w"
      and d1: "\<forall>x. res = Inr x \<longrightarrow> success_reserv x \<longrightarrow> 0 < duration_reserv x"
      by simp_all
    show ?thesis
    proof (cases res)
      case (Inl e)
      then show ?thesis using False ts s1 by simp
    next
      case (Inr x)
      let ?w2 = "if int i < tests_per_model_reserv (config_reserv t) - 1
                 then asyncio_sleep (real_of_int (interval_between_tests_reserv (config_reserv t))) w1
                 else w1"
      have s2: "service ?w2 = service w"
        using s1 by (simp add: asyncio_sleep_fields)
      then have p2: "positive_latency ?w2"
        using Cons.prems(1) by (rule positive_latency_cong)
      have a2: "\<forall>y\<in>set (acc @ [x]). success_reserv y \<longrightarrow> 0 < duration_reserv y"
        using Cons.prems(2) d1 Inr by simp
      from Cons.IH [OF p2 a2] s2 show ?thesis
        using False ts Inr by simp
    qed
  qed
qed

lemma aggregate_reserv_avg:
  assumes "filter success_reserv ml \<noteq> []" and "aggregate_reserv m ml = Inr r"
  shows "avg_duration_reserv r =
           Some (sum_list (map duration_reserv (filter success_reserv ml)) /
                 real (length (filter success_reserv ml)))"
proof -
  let ?s = "filter success_reserv ml"
  let ?d = "map duration_reserv ?s"
  have ne: "?d \<noteq> []" using assms(1) by simp
  obtain mn where mn: "py_min ?d = Inr mn" using py_min_nonempty [OF ne] by blast
  obtain mx where mx: "py_max ?d = Inr mx" using py_max_nonempty [OF ne] by blast
  obtain med where med: "median ?d = Inr med" using median_nonempty [OF ne] by blast
  obtain sd where sd: "(if length ?d > 1 then stdev ?d else Inr 0) = Inr sd"
    using stdev_guarded by blast
  show ?thesis
    using assms mn mx med sd
    apply (simp add: aggregate_reserv_def Let_def mean_nonempty [OF ne] del: One_nat_def)
    apply (auto simp: mean_def split: if_splits)
    done
qed

lemma aggregate_reserv_positive:
  assumes "\<forall>x\<in>set ml. success_reserv x \<longrightarrow> 0 < duration_reserv x"
    and "aggregate_reserv m ml = Inr r"
  shows "positive_mean_reserv r"
proof (cases "filter success_reserv ml = []")
  case True
  from aggregate_reserv_failed [OF True, of m] assms(2) show ?thesis
    by (auto simp: positive_mean_reserv_def)
next
  case False
  have "0 < sum_list (map duration_reserv (filter success_reserv ml)) /
            real (length (map duration_reserv (filter success_reserv ml)))"
    by (rule mean_pos) (use False assms(1) in auto)
  with aggregate_reserv_avg [OF False assms(2)] show ?thesis
    by (simp add: positive_mean_reserv_def)
qed

lemma test_model_reserv_positive:
  assumes "positive_latency w"
  shows "service (snd (test_model_reserv t c m w)) = service w \<and>
         (\<forall>r. fst (test_model_reserv t c m w) = Inr r \<longrightarrow> positive_mean_reserv r)"
proof -
  let ?warm = "if warmup_requests (config_reserv t) > 0
               then warmup_loop t c m (nat (warmup_requests (config_reserv t))) w
               else (Inr (), w)"
  obtain u w1 where wu: "?warm = (u, w1)" by (cases ?warm)
  have s1: "service w1 = service w"
    using wu warmup_loop_service [OF assms, of t c m "nat (warmup_requests (config_reserv t))"]
    by (auto split: if_splits)
  then have p1: "positive_latency w1"
    using assms by (rule positive_latency_cong)
  let ?loop = "sample_loop_reserv t c m [0..<nat (tests_per_model_reserv (config_reserv t))] [] w1"
  obtain res w2 where sl: "?loop = (res, w2)" by (cases ?loop)
  from sample_loop_reserv_positive [OF p1, of "[]" t c m
         "[0..<nat (tests_per_model_reserv (config_reserv t))]"] sl
  have s2: "service w2 = service w1"
    and d2: "\<forall>ml. res = Inr ml \<longrightarrow> (\<forall>x\<in>set ml. success_reserv x \<longrightarrow> 0 < duration_reserv x)"
    by simp_all
  show ?thesis
  proof (cases u)
    case (Inl e)
    with wu s1 show ?thesis
      by (simp add: test_model_reserv_def)
  next
    case (Inr v)
    show ?thesis
    proof (cases res)
      case (Inl e)
      with wu \<open>u = Inr v\<close> sl s1 s2 show ?thesis
        by (simp add: test_model_reserv_def)
    next
      case (Inr ml)
      with wu \<open>u = Inr v\<close> sl s1 s2 d2 show ?thesis
        by (auto simp: test_model_reserv_def intro: aggregate_reserv_positive)
    qed
  qed
qed

lemma model_loop_reserv_positive:
  assumes "positive_latency w" and "\<forall>r\<in>set acc. positive_mean_reserv r"
  shows "\<forall>r\<in>set (fst (model_loop_reserv t c ms acc w)). positive_mean_reserv r"
  using assms
proof (induction ms arbitrary: acc w)
  case Nil
  then show ?case by simp
next
  case (Cons m ms)
  obtain res w' where tm: "test_model_reserv t c m w = (res, w')"
    by (cases "test_model_reserv t c m w")
  from test_model_reserv_positive [OF Cons.prems(1), of t c m] tm
  have s: "service w' = service w" and d: "\<forall>r. res = Inr r \<longrightarrow> positive_mean_reserv r"
    by simp_all
  from s have p: "positive_latency w'"
    using Cons.prems(1) by (rule positive_latency_cong)
  show ?case
  proof (cases res)
    case (Inl e)
    have "\<forall>r\<in>set (acc @ [errored_reserv t m e]). positive_mean_reserv r"
      using Cons.prems(2) by (simp add: positive_mean_reserv_def errored_reserv_def)
    from Cons.IH [OF p this] show ?thesis by (simp add: tm Inl)
  next
    case (Inr r)
    with d Cons.prems(2) have "\<forall>y\<in>set (acc @ [r]). positive_mean_reserv y" by simp
    from Cons.IH [OF p this] show ?thesis by (simp add: tm Inr)
  qed
qed

lemma run_tests_reserv_positive:
  assumes "positive_latency w" and "fst (run_tests_reserv t w) = Inr rep"
  shows "\<forall>r\<in>set (results_reserv rep). positive_mean_reserv r"
proof -
  let ?c = "OllamaClient_init_reserv (ollama_url_reserv (config_reserv t))
              (timeout_reserv (config_reserv t))"
  have "service (snd (health_check_reserv ?c w)) = service w"
    by (auto simp: health_check_reserv_def send_def split: prod.splits outcome.splits)
  then have "positive_latency (snd (health_check_reserv ?c w))"
    using assms(1) by (rule positive_latency_cong)
  from model_loop_reserv_positive [OF this, of "[]"] show ?thesis
    unfolding run_tests_reserv_results [OF assms(2)] by simp
qed

paragraph \<open>Variant\_base\<close>

lemma do_request_world: "snd (do_request rq w) = snd (send rq w)"
  by (simp add: do_request_def split: prod.splits outcome.splits)

lemma retrying_positive:
  assumes "positive_latency w"
  shows "service (snd (retrying l n rq w)) = service w \<and> now w < now (snd (retrying l n rq w))"
  using assms
proof (induction l arbitrary: n w)
  case 0
  have lat: "0 < latency_of w rq 0"
    using 0 by (rule positive_latency_of)
  obtain res w1 where d: "do_request rq w = (res, w1)" by (cases "do_request rq w")
  with do_request_world [of rq w] have w1: "w1 = snd (send rq w)" by simp
  show ?case
    using lat by (cases res) (simp_all add: retrying.simps d w1 send_fields)
next
  case (Suc l)
  have lat: "0 < latency_of w rq 0"
    using Suc.prems by (rule positive_latency_of)
  obtain res w1 where d: "do_request rq w = (res, w1)" by (cases "do_request rq w")
  with do_request_world [of rq w] have w1: "w1 = snd (send rq w)" by simp
  show ?case
  proof (cases res)
    case (Inr r)
    then show ?thesis using lat by (simp add: retrying.simps d w1 send_fields)
  next
    case (Inl e)
    show ?thesis
    proof (cases "time_sleep (wait_exponential n) w1")
      case (Inl e')
      then show ?thesis using lat \<open>res = Inl e\<close>
        by (simp add: retrying.simps d w1 send_fields)
    next
      case (Inr w2)
      then have w2: "service w2 = service w" "now w < now w2"
        using lat by (auto simp: time_sleep_def w1 send_fields split: if_splits)
      from w2(1) have "positive_latency w2"
        using Suc.prems by (rule positive_latency_cong)
      from Suc.IH [OF this, of "Suc n"] w2 have
        "service (snd (retrying l (Suc n) rq w2)) = service w \<and>
         now w < now (snd (retrying l (Suc n) rq w2))" by simp
      then show ?thesis using lat \<open>res = Inl e\<close> Inr
        by (simp add: retrying.simps [of "Suc l"] d w1 send_fields)
    qed
  qed
qed

lemma make_request_positive:
  assumes "positive_latency w"
  shows "service (snd (make_request c meth ep js w)) = service w \<and>
         now w < now (snd (make_request c meth ep js w))"
proof -
  let ?rq = "\<lparr>http_method = meth, url = base_url_base c @ ep, payload = js\<rparr>"
  have "snd (make_request c meth ep js w) = snd (retrying (nat (client_max_retries c - 1)) 1 ?rq w)"
    by (simp add: make_request_def Let_def split: prod.splits sum.splits)
  with retrying_positive [OF assms] show ?thesis by simp
qed

lemma get_embedding_base_positive:
  assumes "positive_latency w"
  shows "service (snd (get_embedding_base c m p w)) = service w \<and>
         now w < now (snd (get_embedding_base c m p w))"
proof -
  have "snd (get_embedding_base c m p w) =
        snd (make_request c ''POST'' ''/api/embeddings'' [(''model'', m), (''prompt'', p)] w)"
    by (simp add: get_embedding_base_def split: prod.splits sum.splits)
  with make_request_positive [OF assms] show ?thesis by simp
qed

lemma get_model_info_service:
  assumes "positive_latency w"
  shows "service (snd (get_model_info c m w)) = service w"
proof -
  have "snd (get_model_info c m w) =
        snd (make_request c ''POST'' ''/api/show'' [(''name'', m)] w)"
    by (simp add: get_model_info_def split: prod.splits sum.splits)
  with make_request_positive [OF assms] show ?thesis by simp
qed

lemma health_check_base_service:
  assumes "positive_latency w"
  shows "service (snd (health_check_base c w)) = service w"
proof -
  have "snd (health_check_base c w) = snd (make_request c ''GET'' ''/api/tags'' [] w)"
    by (simp add: health_check_base_def split: prod.splits sum.splits)
  with make_request_positive [OF assms] show ?thesis by simp
qed

lemma test_single_embedding_base_positive:
  assumes "positive_latency w"
  shows "service (snd (test_single_embedding_base t m p w)) = service w \<and>
         (\<forall>x. fst (test_single_embedding_base t m p w) = Inr x \<longrightarrow> 0 < duration_base x)"
proof -
  obtain res w1 where g: "get_embedding_base (client_base t) m p w = (res, w1)"
    by (cases "get_embedding_base (client_base t) m p w")
  from get_embedding_base_positive [OF assms, of "client_base t" m p] g
  have "service w1 = service w" "now w < now w1" by simp_all
  then show ?thesis
    by (auto simp: test_single_embedding_base_def Let_def g split: sum.splits if_splits)
qed

lemma sample_loop_base_positive:
  assumes "positive_latency w" and "\<forall>x\<in>set acc. 0 < duration_base x"
  shows "service (snd (sample_loop_base t m k idxs acc w)) = service w \<and>
         (\<forall>rs. fst (sample_loop_base t m k idxs acc w) = Inr rs \<longrightarrow>
               (\<forall>x\<in>set rs. 0 < duration_base x))"
  using assms
proof (induction idxs arbitrary: acc w)
  case Nil
  then show ?case by simp
next
  case (Cons i idxs)
  show ?case
  proof (cases "test_texts_base t = []")
    case True
    then show ?thesis by simp
  next
    case False
    let ?p = "test_texts_base t ! (i mod length (test_texts_base t))"
    obtain res w1 where ts: "test_single_embedding_base t m ?p w = (res, w1)"
      by (cases "test_single_embedding_base t m ?p w")
    from test_single_embedding_base_positive [OF Cons.prems(1), of t m ?p] ts
    have s1: "service w1 = service w" and d1: "\<forall>x. res = Inr x \<longrightarrow> 0 < duration_base x"
      by simp_all
    from s1 have p1: "positive_latency w1"
      using Cons.prems(1) by (rule positive_latency_cong)
    show ?thesis
    proof (cases res)
      case (Inl e)
      then show ?thesis using False ts s1 by simp
    next
      case (Inr x)
      have a2: "\<forall>y\<in>set (acc @ [x]). 0 < duration_base y"
        using Cons.prems(2) d1 Inr by simp
      show ?thesis
      proof (cases "int i < k - 1")
        case False
        from Cons.IH [OF p1 a2] s1 show ?thesis
          using \<open>test_texts_base t \<noteq> []\<close> ts Inr False by simp
      next
        case True
        show ?thesis
        proof (cases "time_sleep (real_of_int (interval_between_tests_base (config_base t))) w1")
          case (Inl e)
          then show ?thesis
            using \<open>test_texts_base t \<noteq> []\<close> ts \<open>res = Inr x\<close> True s1 by simp
        next
          case (Inr w2)
          then have s2: "service w2 = service w"
            using s1 by (auto simp: time_sleep_def split: if_splits)
          then have p2: "positive_latency w2"
            using Cons.prems(1) by (rule positive_latency_cong)
          from Cons.IH [OF p2 a2] s2 show ?thesis
            using \<open>test_texts_base t \<noteq> []\<close> ts \<open>res = Inr x\<close> True Inr by simp
        qed
      qed
    qed
  qed
qed

lemma calculate_stats_mean:
  assumes "vals \<noteq> []" and "calculate_stats vals = Inr s"
  shows "stat_mean s = sum_list vals / real (length vals)"
  using assms
  by (auto simp: calculate_stats_def mean_def split: sum.splits if_splits)

lemma analyse_base_positive:
  assumes "positive_latency w" and "\<forall>x\<in>set results. 0 < duration_base x"
  shows "service (snd (analyse_base t m k results w)) = service w \<and>
         (\<forall>r. fst (analyse_base t m k results w) = Inr r \<longrightarrow> positive_mean_base r)"
proof (cases "filter success_base results = []")
  case True
  then show ?thesis
    by (simp add: analyse_base_def positive_mean_base_def)
next
  case False
  let ?d = "map duration_base (filter success_base results)"
  have ne: "?d \<noteq> []" using False by simp
  have pos: "0 < sum_list ?d / real (length ?d)"
    by (rule mean_pos [OF ne]) (use assms(2) in auto)
  have sv: "service (snd (get_model_info (client_base t) m w)) = service w"
    using assms(1) by (rule get_model_info_service)
  obtain gi w1 where g: "get_model_info (client_base t) m w = (gi, w1)"
    by (cases "get_model_info (client_base t) m w")
  with sv have s1: "service w1 = service w" by simp
  have a: "service (snd (analyse_base t m k results w)) = service w"
    using False s1
    by (auto simp: analyse_base_def Let_def g split: sum.splits prod.splits json.splits if_splits)
  have b: "positive_mean_base r" if r: "fst (analyse_base t m k results w) = Inr r" for r
  proof -
    obtain ds where ds: "calculate_stats ?d = Inr ds"
      using r False
      by (cases "calculate_stats ?d") (simp_all add: analyse_base_def Let_def)
    from calculate_stats_mean [OF ne ds] pos have "0 < stat_mean ds" by simp
    moreover have "status_base r = SUCCESS_base \<longrightarrow> avg_duration_base r = Some (stat_mean ds)"
      using r False ds
      by (auto simp: analyse_base_def Let_def g split: sum.splits prod.splits json.splits if_splits)
    ultimately show ?thesis by (simp add: positive_mean_base_def)
  qed
  from a b show ?thesis by blast
qed

lemma test_model_base_positive:
  assumes "positive_latency w"
  shows "service (snd (test_model_base t m a w)) = service w \<and>
         (\<forall>r. fst (test_model_base t m a w) = Inr r \<longrightarrow> positive_mean_base r)"
proof -
  let ?k = "num_tests_base t a"
  obtain res w1 where sl: "sample_loop_base t m ?k [0..<nat ?k] [] w = (res, w1)"
    by (cases "sample_loop_base t m ?k [0..<nat ?k] [] w")
  from sample_loop_base_positive [OF assms, of "[]" t m ?k "[0..<nat ?k]"] sl
  have s1: "service w1 = service w" and d1: "\<forall>rs. res = Inr rs \<longrightarrow> (\<forall>x\<in>set rs. 0 < duration_base x)"
    by simp_all
  from s1 have p1: "positive_latency w1" using assms by (rule positive_latency_cong)
  have tm: "test_model_base t m a w =
              (case res of Inl e \<Rightarrow> (Inl e, w1) | Inr rs \<Rightarrow> analyse_base t m ?k rs w1)"
    using sl by (simp add: test_model_base_def num_tests_base_def Let_def split: sum.splits)
  show ?thesis
  proof (cases res)
    case (Inl e)
    then show ?thesis using tm s1 by simp
  next
    case (Inr rs)
    with d1 have "\<forall>x\<in>set rs. 0 < duration_base x" by simp
    from analyse_base_positive [OF p1 this, of t m ?k] s1 show ?thesis
      using tm Inr by simp
  qed
qed

lemma model_loop_base_positive:
  assumes "positive_latency w" and "\<forall>r\<in>set acc. positive_mean_base r"
  shows "\<forall>r\<in>set (fst (model_loop_base t ms acc w)). positive_mean_base r"
  using assms
proof (induction ms arbitrary: acc w)
  case Nil
  then show ?case by simp
next
  case (Cons m ms)
  obtain res w' where tm: "test_model_base t m None w = (res, w')"
    by (cases "test_model_base t m None w")
  from test_model_base_positive [OF Cons.prems(1), of t m None] tm
  have s: "service w' = service w" and d: "\<forall>r. res = Inr r \<longrightarrow> positive_mean_base r"
    by simp_all
  from s have p: "positive_latency w'"
    using Cons.prems(1) by (rule positive_latency_cong)
  show ?case
  proof (cases res)
    case (Inl e)
    have "\<forall>r\<in>set (acc @ [errored_base t m e]). positive_mean_base r"
      using Cons.prems(2) by (simp add: positive_mean_base_def errored_base_def)
    from Cons.IH [OF p this] show ?thesis by (simp add: tm Inl)
  next
    case (Inr r)
    with d Cons.prems(2) have "\<forall>y\<in>set (acc @ [r]). positive_mean_base y" by simp
    from Cons.IH [OF p this] show ?thesis by (simp add: tm Inr)
  qed
qed

lemma run_tests_base_positive:
  assumes "positive_latency w" and "fst (run_tests_base t a w) = Inr rep"
  shows "(\<forall>r\<in>set (results_base rep). positive_mean_base r) \<and>
         summary_base rep = create_summary_base (results_base rep)"
proof -
  obtain h w1 where hc: "health_check_base (client_base t) w = (h, w1)"
    by (cases "health_check_base (client_base t) w")
  with health_check_base_service [OF assms(1), of "client_base t"] have "service w1 = service w"
    by simp
  then have p1: "positive_latency w1" using assms(1) by (rule positive_latency_cong)
  from model_loop_base_positive [OF p1, of "[]" t "models_to_test_base t a"]
  have "\<forall>r\<in>set (fst (model_loop_base t (models_to_test_base t a) [] w1)). positive_mean_base r"
    by simp
  with assms(2) show ?thesis
    by (auto simp: run_tests_base_def Let_def hc split: sum.splits if_splits prod.splits)
qed

paragraph \<open>The ranking of a list with positive means\<close>

lemma sort_key_by_mean_duration:
  fixes key :: "'a \<Rightarrow> pyfloat" and avg :: "'a \<Rightarrow> real option"
  assumes "\<And>x. x \<in> set xs \<Longrightarrow> \<exists>d. avg x = Some d \<and> key x = Fin d"
  shows "sorted_wrt (\<lambda>a b. \<exists>da db. avg a = Some da \<and> avg b = Some db \<and> da \<le> db) (sort_key key xs)"
    and "filter (\<lambda>x. avg x = Some d) (sort_key key xs) = filter (\<lambda>x. avg x = Some d) xs"
proof -
  have s: "sorted_wrt (\<lambda>a b. key a \<le> key b) (sort_key key xs)"
    using sorted_sort_key [of key xs] by (simp add: sorted_map)
  have "\<And>a b. a \<in> set (sort_key key xs) \<Longrightarrow> b \<in> set (sort_key key xs) \<Longrightarrow>
          key a \<le> key b \<Longrightarrow> \<exists>da db. avg a = Some da \<and> avg b = Some db \<and> da \<le> db"
  proof -
    fix a b
    assume "a \<in> set (sort_key key xs)" "b \<in> set (sort_key key xs)" and le: "key a \<le> key b"
    then have "a \<in> set xs" "b \<in> set xs" by simp_all
    with assms obtain da db where "avg a = Some da" "key a = Fin da" "avg b = Some db" "key b = Fin db"
      by blast
    with le show "\<exists>da db. avg a = Some da \<and> avg b = Some db \<and> da \<le> db" by simp
  qed
  with s show "sorted_wrt (\<lambda>a b. \<exists>da db. avg a = Some da \<and> avg b = Some db \<and> da \<le> db) (sort_key key xs)"
    by (rule sorted_wrt_mono_rel [rotated])
  have eq: "\<And>x. x \<in> set xs \<Longrightarrow> (avg x = Some d) = (key x = Fin d)"
    using assms by fastforce
  have "filter (\<lambda>x. avg x = Some d) (sort_key key xs) = filter (\<lambda>x. key x = Fin d) (sort_key key xs)"
    by (rule filter_cong) (simp_all add: eq)
  also have "\<dots> = filter (\<lambda>x. key x = Fin d) xs"
    by (rule sort_key_stable)
  also have "\<dots> = filter (\<lambda>x. avg x = Some d) xs"
    by (rule filter_cong) (simp_all add: eq)
  finally show "filter (\<lambda>x. avg x = Some d) (sort_key key xs) = filter (\<lambda>x. avg x = Some d) xs" .
qed

lemma create_summary_base_ranked:
  assumes "\<forall>r\<in>set rs. positive_mean_base r"
  shows "ranked_by_speed_base (ranking_by_speed (create_summary_base rs)) rs"
proof -
  let ?succ = "filter (\<lambda>r. status_base r = SUCCESS_base) rs"
  let ?S = "sort_key speed_key_base ?succ"
  have k: "\<And>x. x \<in> set ?succ \<Longrightarrow> \<exists>d. avg_duration_base x = Some d \<and> speed_key_base x = Fin d"
    using assms by (fastforce simp: positive_mean_base_def speed_key_base_def)
  note st = ranking_by_speed_base_is_stable_sort [where rs = rs]
  show ?thesis
    unfolding ranked_by_speed_base_def
  proof (intro exI [of _ ?S] conjI allI)
    show "mset ?S = mset ?succ" by simp
    show "sorted_wrt (\<lambda>a b. \<exists>da db. avg_duration_base a = Some da \<and>
                 avg_duration_base b = Some db \<and> da \<le> db) ?S"
      using k by (rule sort_key_by_mean_duration(1))
    show "filter (\<lambda>x. avg_duration_base x = Some d) ?S =
          filter (\<lambda>x. avg_duration_base x = Some d) ?succ" for d
      using k by (rule sort_key_by_mean_duration(2))
    show "map rank_base (ranking_by_speed (create_summary_base rs)) = [1..<Suc (length ?S)]"
      using st(1) by simp
    show "map entry_model_base (ranking_by_speed (create_summary_base rs)) = map mr_model ?S"
      by (rule st(2))
    show "map entry_avg_duration_base (ranking_by_speed (create_summary_base rs)) =
          map avg_duration_base ?S"
      by (rule st(3))
  qed
qed

lemma create_summary_reserv_ranked:
  assumes "\<forall>r\<in>set rs. positive_mean_reserv r"
  shows "ranked_by_speed_reserv (sum_ranking_by_speed (create_summary_reserv rs)) rs"
proof -
  let ?succ = "filter (\<lambda>r. status_reserv r = SUCCESS) rs"
  let ?S = "sort_key speed_key_reserv ?succ"
  have k: "\<And>x. x \<in> set ?succ \<Longrightarrow> \<exists>d. avg_duration_reserv x = Some d \<and> speed_key_reserv x = Fin d"
    using assms by (fastforce simp: positive_mean_reserv_def speed_key_reserv_def)
  note st = ranking_by_speed_reserv_is_stable_sort [where rs = rs]
  show ?thesis
    unfolding ranked_by_speed_reserv_def
  proof (intro exI [of _ ?S] conjI allI)
    show "mset ?S = mset ?succ" by simp
    show "sorted_wrt (\<lambda>a b. \<exists>da db. avg_duration_reserv a = Some da \<and>
                 avg_duration_reserv b = Some db \<and> da \<le> db) ?S"
      using k by (rule sort_key_by_mean_duration(1))
    show "filter (\<lambda>x. avg_duration_reserv x = Some d) ?S =
          filter (\<lambda>x. avg_duration_reserv x = Some d) ?succ" for d
      using k by (rule sort_key_by_mean_duration(2))
    show "map rank_reserv (sum_ranking_by_speed (create_summary_reserv rs)) = [1..<Suc (length ?S)]"
      using st(1) by simp
    show "map entry_model_reserv (sum_ranking_by_speed (create_summary_reserv rs)) = map model_name ?S"
      by (rule st(2))
    show "map entry_avg_duration_reserv (sum_ranking_by_speed (create_summary_reserv rs)) =
          map avg_duration_reserv ?S"
      by (rule st(3))
  qed
qed

lemma run_tests_reserv_summary:
  "fst (run_tests_reserv t w) = Inr rep \<Longrightarrow>
   report_summary rep = create_summary_reserv (results_reserv rep)"
  unfolding run_tests_reserv_def Let_def
  by (auto split: if_splits prod.splits sum.splits)

text \<open>
  C6. The ranking by speed contains exactly the results with status Succeeded, each once,
  ordered non-decreasing by mean duration, results of equal mean duration in their
  original order, with the ranks 1, 2, \<dots> The sort key is \<^verbatim>\<open>x.avg_duration or float("inf")\<close>,
  which is the mean duration itself wherever that is present and not zero. The first two
  parts: \<^verbatim>\<open>_create_summary\<close> of either variant ranks so every list whose Succeeded results
  have a positive mean duration. The last two parts: where every request takes a positive
  time, every result of a report that \<^verbatim>\<open>run_tests\<close> of either variant returns has a positive
  mean duration if it is Succeeded, and the ranking by speed of the report's summary is as
  the claim says. \<^verbatim>\<open>run_tests\<close> is the only caller of \<^verbatim>\<open>_create_summary\<close>.
\<close>

theorem C6_ranking_by_speed_is_stable_sort_of_succeeded:
  "((\<forall>r\<in>set rsb. positive_mean_base r) \<longrightarrow>
      ranked_by_speed_base (ranking_by_speed (create_summary_base rsb)) rsb) \<and>
   ((\<forall>r\<in>set rs. positive_mean_reserv r) \<longrightarrow>
      ranked_by_speed_reserv (sum_ranking_by_speed (create_summary_reserv rs)) rs) \<and>
   (positive_latency w \<and> fst (run_tests_base tb a w) = Inr repb \<longrightarrow>
      (\<forall>r\<in>set (results_base repb). positive_mean_base r) \<and>
      ranked_by_speed_base (ranking_by_speed (summary_base repb)) (results_base repb)) \<and>
   (positive_latency w \<and> fst (run_tests_reserv t w) = Inr rep \<longrightarrow>
      (\<forall>r\<in>set (results_reserv rep). positive_mean_reserv r) \<and>
      ranked_by_speed_reserv (sum_ranking_by_speed (report_summary rep)) (results_reserv rep))"
proof (intro conjI impI)
  assume "\<forall>r\<in>set rsb. positive_mean_base r"
  then show "ranked_by_speed_base (ranking_by_speed (create_summary_base rsb)) rsb"
    by (rule create_summary_base_ranked)
next
  assume "\<forall>r\<in>set rs. positive_mean_reserv r"
  then show "ranked_by_speed_reserv (sum_ranking_by_speed (create_summary_reserv rs)) rs"
    by (rule create_summary_reserv_ranked)
next
  assume h: "positive_latency w \<and> fst (run_tests_base tb a w) = Inr repb"
  then have p: "\<forall>r\<in>set (results_base repb). positive_mean_base r"
    and s: "summary_base repb = create_summary_base (results_base repb)"
    using run_tests_base_positive [of w tb a repb] by simp_all
  from p show "\<forall>r\<in>set (results_base repb). positive_mean_base r" .
  from create_summary_base_ranked [OF p] s
  show "ranked_by_speed_base (ranking_by_speed (summary_base repb)) (results_base repb)" by simp
next
  assume h: "positive_latency w \<and> fst (run_tests_reserv t w) = Inr rep"
  then have p: "\<forall>r\<in>set (results_reserv rep). positive_mean_reserv r"
    using run_tests_reserv_positive [of w t rep] by simp
  from h [THEN conjunct2] have s: "report_summary rep = create_summary_reserv (results_reserv rep)"
    by (rule run_tests_reserv_summary)
  from p show "\<forall>r\<in>set (results_reserv rep). positive_mean_reserv r" .
  from create_summary_reserv_ranked [OF p] s
  show "ranked_by_speed_reserv (sum_ranking_by_speed (report_summary rep)) (results_reserv rep)"
    by simp
qed

lemmas ranking_eval =
  create_summary_base_def create_summary_reserv_def speed_key_base_def speed_key_reserv_def
  ranking_entry_of_base_def ranking_entry_of_reserv_def enumerate_eq_zip

theorem C6_ranking_by_speed_is_stable_sort_of_succeeded_witness:
  "ranked_by_speed_base
     (ranking_by_speed (create_summary_base
        [succeeded_base ''A'' 2, succeeded_base ''B'' 1, succeeded_base ''C'' 1]))
     [succeeded_base ''A'' 2, succeeded_base ''B'' 1, succeeded_base ''C'' 1] \<and>
   map entry_model_base
     (ranking_by_speed (create_summary_base
        [succeeded_base ''A'' 2, succeeded_base ''B'' 1, succeeded_base ''C'' 1])) =
     [''B'', ''C'', ''A''] \<and>
   ranked_by_speed_reserv
     (sum_ranking_by_speed (create_summary_reserv
        [succeeded_reserv ''A'' 2, succeeded_reserv ''B'' 1, succeeded_reserv ''C'' 1]))
     [succeeded_reserv ''A'' 2, succeeded_reserv ''B'' 1, succeeded_reserv ''C'' 1] \<and>
   map entry_model_reserv
     (sum_ranking_by_speed (create_summary_reserv
        [succeeded_reserv ''A'' 2, succeeded_reserv ''B'' 1, succeeded_reserv ''C'' 1])) =
     [''B'', ''C'', ''A''] \<and>
   positive_latency (world0 slow_m1) \<and>
   case_sum (\<lambda>e. False)
     (\<lambda>rep. ranked_by_speed_base (ranking_by_speed (summary_base rep)) (results_base rep) \<and>
            map mr_model (results_base rep) = [''m1'', ''m2''] \<and>
            map avg_duration_base (results_base rep) = [Some 3, Some 2] \<and>
            map entry_model_base (ranking_by_speed (summary_base rep)) = [''m2'', ''m1''] \<and>
            map entry_avg_duration_base (ranking_by_speed (summary_base rep)) = [Some 2, Some 3] \<and>
            map rank_base (ranking_by_speed (summary_base rep)) = [1, 2])
     (fst (run_tests_base tester_base0 None (world0 slow_m1))) \<and>
   case_sum (\<lambda>e. False)
     (\<lambda>rep. ranked_by_speed_reserv (sum_ranking_by_speed (report_summary rep)) (results_reserv rep) \<and>
            map model_name (results_reserv rep) = [''m1'', ''m2''] \<and>
            map avg_duration_reserv (results_reserv rep) = [Some 3, Some 2] \<and>
            map entry_model_reserv (sum_ranking_by_speed (report_summary rep)) = [''m2'', ''m1''] \<and>
            map entry_avg_duration_reserv (sum_ranking_by_speed (report_summary rep)) = [Some 2, Some 3] \<and>
            map rank_reserv (sum_ranking_by_speed (report_summary rep)) = [1, 2])
     (fst (run_tests_reserv tester_reserv0 (world0 slow_m1)))"
proof -
  have pl: "positive_latency (world0 slow_m1)"
    by (simp add: positive_latency_def world0_def slow_m1_def)
  obtain repb where repb: "fst (run_tests_base tester_base0 None (world0 slow_m1)) = Inr repb"
    by (simp add: base_eval slow_m1_def)
  obtain rep where rep: "fst (run_tests_reserv tester_reserv0 (world0 slow_m1)) = Inr rep"
    by (simp add: reserv_eval slow_m1_def)
  note inst = C6_ranking_by_speed_is_stable_sort_of_succeeded
                [where rsb = "[succeeded_base ''A'' 2, succeeded_base ''B'' 1, succeeded_base ''C'' 1]"
                   and rs = "[succeeded_reserv ''A'' 2, succeeded_reserv ''B'' 1, succeeded_reserv ''C'' 1]"
                   and w = "world0 slow_m1" and tb = tester_base0 and a = None and repb = repb
                   and t = tester_reserv0 and rep = rep]
  have c1: "ranked_by_speed_base
     (ranking_by_speed (create_summary_base
        [succeeded_base ''A'' 2, succeeded_base ''B'' 1, succeeded_base ''C'' 1]))
     [succeeded_base ''A'' 2, succeeded_base ''B'' 1, succeeded_base ''C'' 1]"
    using inst [THEN conjunct1]
    by (simp add: positive_mean_base_def succeeded_base_def)
  have c2: "ranked_by_speed_reserv
     (sum_ranking_by_speed (create_summary_reserv
        [succeeded_reserv ''A'' 2, succeeded_reserv ''B'' 1, succeeded_reserv ''C'' 1]))
     [succeeded_reserv ''A'' 2, succeeded_reserv ''B'' 1, succeeded_reserv ''C'' 1]"
    using inst [THEN conjunct2, THEN conjunct1]
    by (simp add: positive_mean_reserv_def succeeded_reserv_def)
  have c3: "ranked_by_speed_base (ranking_by_speed (summary_base repb)) (results_base repb)"
    using inst [THEN conjunct2, THEN conjunct2, THEN conjunct1] pl repb by simp
  have c4: "ranked_by_speed_reserv (sum_ranking_by_speed (report_summary rep)) (results_reserv rep)"
    using inst [THEN conjunct2, THEN conjunct2, THEN conjunct2] pl rep by simp
  have e1: "map entry_model_base
     (ranking_by_speed (create_summary_base
        [succeeded_base ''A'' 2, succeeded_base ''B'' 1, succeeded_base ''C'' 1])) =
     [''B'', ''C'', ''A'']"
    by (simp add: ranking_eval succeeded_base_def Let_def upt_rec)
  have e2: "map entry_model_reserv
     (sum_ranking_by_speed (create_summary_reserv
        [succeeded_reserv ''A'' 2, succeeded_reserv ''B'' 1, succeeded_reserv ''C'' 1])) =
     [''B'', ''C'', ''A'']"
    by (simp add: ranking_eval succeeded_reserv_def Let_def upt_rec)
  have e3: "case_sum (\<lambda>e. False)
     (\<lambda>rep. map mr_model (results_base rep) = [''m1'', ''m2''] \<and>
            map avg_duration_base (results_base rep) = [Some 3, Some 2] \<and>
            map entry_model_base (ranking_by_speed (summary_base rep)) = [''m2'', ''m1''] \<and>
            map entry_avg_duration_base (ranking_by_speed (summary_base rep)) = [Some 2, Some 3] \<and>
            map rank_base (ranking_by_speed (summary_base rep)) = [1, 2])
     (fst (run_tests_base tester_base0 None (world0 slow_m1)))"
    by (simp add: base_eval ranking_eval slow_m1_def)
  have e4: "case_sum (\<lambda>e. False)
     (\<lambda>rep. map model_name (results_reserv rep) = [''m1'', ''m2''] \<and>
            map avg_duration_reserv (results_reserv rep) = [Some 3, Some 2] \<and>
            map entry_model_reserv (sum_ranking_by_speed (report_summary rep)) = [''m2'', ''m1''] \<and>
            map entry_avg_duration_reserv (sum_ranking_by_speed (report_summary rep)) = [Some 2, Some 3] \<and>
            map rank_reserv (sum_ranking_by_speed (report_summary rep)) = [1, 2])
     (fst (run_tests_reserv tester_reserv0 (world0 slow_m1)))"
    by (simp add: reserv_eval ranking_eval slow_m1_def)
  show ?thesis
    using c1 c2 c3 c4 e1 e2 e3 e4 pl by (simp add: repb rep)
qed

text \<open>
  The key takes a mean duration of \<^verbatim>\<open>0.0\<close> for an absent one: \<^verbatim>\<open>_create_summary\<close>, were it
  given a Succeeded result of mean duration 0, would rank it last. By the theorem above
  no run builds such a result.
\<close>

lemma zero_mean_duration_is_ranked_last:
  "map entry_model_base
     (ranking_by_speed (create_summary_base [succeeded_base ''A'' 0, succeeded_base ''B'' 1])) =
     [''B'', ''A''] \<and>
   map entry_avg_duration_base
     (ranking_by_speed (create_summary_base [succeeded_base ''A'' 0, succeeded_base ''B'' 1])) =
     [Some 1, Some 0] \<and>
   map rank_base
     (ranking_by_speed (create_summary_base [succeeded_base ''A'' 0, succeeded_base ''B'' 1])) =
     [1, 2] \<and>
   map entry_model_reserv
     (sum_ranking_by_speed (create_summary_reserv [succeeded_reserv ''A'' 0, succeeded_reserv ''B'' 1])) =
     [''B'', ''A''] \<and>
   map entry_avg_duration_reserv
     (sum_ranking_by_speed (create_summary_reserv [succeeded_reserv ''A'' 0, succeeded_reserv ''B'' 1])) =
     [Some 1, Some 0] \<and>
   map rank_reserv
     (sum_ranking_by_speed (create_summary_reserv [succeeded_reserv ''A'' 0, succeeded_reserv ''B'' 1])) =
     [1, 2]"
  by (simp add: create_summary_base_def create_summary_reserv_def succeeded_base_def
        succeeded_reserv_def speed_key_base_def speed_key_reserv_def ranking_entry_of_base_def
        ranking_entry_of_reserv_def enumerate_eq_zip Let_def upt_rec)

end
